(* ===== verification/YJ_Prelude.thy ===== *)
theory YJ_Prelude
  imports Main "HOL-Library.Word" "HOL-Library.Signed_Division"
begin

text \<open>
  Shared vocabulary of the development: the integer types of \<^verbatim>\<open>ServerCore/Types.h\<close>, the
  run-time faults of C++ as values, the raw memory operations the sources use
  (\<^verbatim>\<open>memcpy\<close>, vector subscripts, \<^verbatim>\<open>resize\<close>), and the generic lemmas on lists, results and
  words that the components share.

  Unsigned integers are words, so that their arithmetic wraps as in C++. Signed 32-bit
  integers are \<^typ>\<open>int\<close> values kept in range by an explicit \<open>i32\<close>, the two's
  complement wrap that the compiler of this code base performs.
\<close>

named_theorems mem_simps \<open>evaluation of raw memory operations inside their bounds\<close>
named_theorems int_range_simps \<open>fixed-width conversions that do not wrap\<close>

section \<open>Integers\<close>

type_synonym byte = "8 word"
type_synonym uint16 = "16 word"
type_synonym uint32 = "32 word"
type_synonym uint64 = "64 word"

definition i32 :: "int \<Rightarrow> int" where
  "i32 x = (x + 2147483648) mod 4294967296 - 2147483648"

lemma i32_id [int_range_simps]: "- 2147483648 \<le> x \<Longrightarrow> x < 2147483648 \<Longrightarrow> i32 x = x"
  by (simp add: i32_def)

lemma i32_range: "- 2147483648 \<le> i32 x \<and> i32 x < 2147483648"
  using pos_mod_bound [of 4294967296 "x + 2147483648"]
        pos_mod_sign [of 4294967296 "x + 2147483648"]
  by (simp add: i32_def)

lemma i32_idem [simp]: "i32 (i32 x) = i32 x"
  using i32_range [of x] by (intro i32_id) auto

lemma uint_of_int32 [int_range_simps]:
  "0 \<le> x \<Longrightarrow> x < 4294967296 \<Longrightarrow> uint (word_of_int x :: uint32) = x"
  by (simp add: uint_word_of_int)

lemma uint_u32_less: "uint (w :: uint32) < 4294967296"
  using uint_lt2p [of w] by simp

lemma uint_u16_less: "uint (w :: uint16) < 65536"
  using uint_lt2p [of w] by simp

lemma uint_u16_to_u32 [simp]: "uint (ucast (w :: uint16) :: uint32) = uint w"
  by (rule uint_up_ucast) (simp add: is_up)

text \<open>What is left of a goal on an existential boolean field.\<close>

lemma ex_true [simp]: "\<exists>b. b"
  by blast

lemma uint_int_unat: "uint w = int (unat w)"
  by simp

lemma unat_u16_of_nat: "unat (of_nat n :: uint16) = n mod 65536"
  by (simp add: unat_of_nat)

lemma unat_u32_of_nat: "unat (of_nat n :: uint32) = n mod 4294967296"
  by (simp add: unat_of_nat)

text \<open>A fact on bytes, checked for each of them.\<close>

lemma all_bytes:
  assumes "\<forall>n \<in> set [0..<256]. P (word_of_nat n :: byte)"
  shows "P b"
proof -
  have "P (word_of_nat n)" if "n < 256" for n using assms that by simp
  from this [of "unat b"] show ?thesis using unsigned_less [of b] by simp
qed

section \<open>Faults as values\<close>

text \<open>
  What C++ leaves undefined, and what it throws, is a value here: a subscript or a copy
  outside an object, an overlapping \<^verbatim>\<open>memcpy\<close>, a call through a null pointer, a division by
  zero, a thread that locks a \<^verbatim>\<open>std::mutex\<close> it already holds, a call of an empty
  \<^verbatim>\<open>std::function\<close>, a container that cannot have the requested size, an exception
  that a library call throws, and the use of an object after it was deleted.
\<close>

datatype fault =
    OutOfBounds
  | Overlap
  | NullDeref
  | DivByZero
  | SelfDeadlock
  | BadFunctionCall
  | LengthError
  | Thrown
  | Dangling

type_synonym 'a res = "fault + 'a"

fun bindR :: "'a res \<Rightarrow> ('a \<Rightarrow> 'b res) \<Rightarrow> 'b res" where
  "bindR (Inl e) f = Inl e"
| "bindR (Inr x) f = f x"

lemma bindR_Inr_iff: "bindR r f = Inr y \<longleftrightarrow> (\<exists>x. r = Inr x \<and> f x = Inr y)"
  by (cases r) auto

lemma bindR_Inl_iff: "bindR r f = Inl e \<longleftrightarrow> r = Inl e \<or> (\<exists>x. r = Inr x \<and> f x = Inl e)"
  by (cases r) auto

lemma bindR_assoc: "bindR (bindR r f) g = bindR r (\<lambda>x. bindR (f x) g)"
  by (cases r) auto

text \<open>
  A computation that may also not return: \<open>None\<close>. Loops that the input can keep going for
  ever have this type.
\<close>

type_synonym 'a run = "(fault + 'a) option"

fun bindO :: "'a run \<Rightarrow> ('a \<Rightarrow> 'b run) \<Rightarrow> 'b run" where
  "bindO None f = None"
| "bindO (Some (Inl e)) f = Some (Inl e)"
| "bindO (Some (Inr x)) f = f x"

lemma bindO_Inr_iff: "bindO r f = Some (Inr y) \<longleftrightarrow> (\<exists>x. r = Some (Inr x) \<and> f x = Some (Inr y))"
  by (cases "(r, f)" rule: bindO.cases) auto

definition the_or :: "fault \<Rightarrow> 'a option \<Rightarrow> 'a res" where
  "the_or e x = (case x of None \<Rightarrow> Inl e | Some y \<Rightarrow> Inr y)"

lemma the_or_simps [simp]: "the_or e None = Inl e" "the_or e (Some y) = Inr y"
  by (simp_all add: the_or_def)

lemma the_or_Inr_iff [simp]: "the_or e x = Inr y \<longleftrightarrow> x = Some y"
  by (cases x) simp_all

section \<open>Memory\<close>

text \<open>
  A \<^verbatim>\<open>std::vector\<close> or array is the list of its elements. \<open>subscript v i\<close> is the check
  behind \<^verbatim>\<open>v[i]\<close> and \<^verbatim>\<open>&v[i]\<close>. Sizes are \<open>int\<close> because the code passes \<^verbatim>\<open>int32\<close> values
  to \<^verbatim>\<open>memcpy\<close>: a negative one becomes a huge \<^verbatim>\<open>size_t\<close>, outside every object.
\<close>

definition in_vec :: "'a list \<Rightarrow> int \<Rightarrow> bool" where
  "in_vec v i \<longleftrightarrow> 0 \<le> i \<and> i < int (length v)"

definition subscript :: "'a list \<Rightarrow> int \<Rightarrow> 'a res" where
  "subscript v i = (if in_vec v i then Inr (v ! nat i) else Inl OutOfBounds)"

definition overwrite :: "'a list \<Rightarrow> nat \<Rightarrow> 'a list \<Rightarrow> 'a list" where
  "overwrite v d src = take d v @ src @ drop (d + length src) v"

definition memcpy :: "byte list \<Rightarrow> int \<Rightarrow> byte list \<Rightarrow> int \<Rightarrow> byte list res" where
  "memcpy dst d src n =
     (if 0 \<le> n \<and> n \<le> int (length src) \<and> 0 \<le> d \<and> d + n \<le> int (length dst)
      then Inr (overwrite dst (nat d) (take (nat n) src))
      else Inl OutOfBounds)"

definition memcpy_within :: "byte list \<Rightarrow> int \<Rightarrow> int \<Rightarrow> int \<Rightarrow> byte list res" where
  "memcpy_within v d s n =
     (if 0 \<le> n \<and> 0 \<le> d \<and> d + n \<le> int (length v) \<and> 0 \<le> s \<and> s + n \<le> int (length v)
      then if \<bar>d - s\<bar> < n then Inl Overlap
           else Inr (overwrite v (nat d) (take (nat n) (drop (nat s) v)))
      else Inl OutOfBounds)"

definition resize :: "'a \<Rightarrow> 'a list \<Rightarrow> nat \<Rightarrow> 'a list" where
  "resize z v n = take n v @ replicate (n - length v) z"

lemma subscript_in [mem_simps]: "in_vec v i \<Longrightarrow> subscript v i = Inr (v ! nat i)"
  by (simp add: subscript_def)

lemma subscript_out [mem_simps]: "\<not> in_vec v i \<Longrightarrow> subscript v i = Inl OutOfBounds"
  by (simp add: subscript_def)

lemma subscript_Inr_iff: "subscript v i = Inr x \<longleftrightarrow> in_vec v i \<and> x = v ! nat i"
  by (auto simp: subscript_def)

lemma length_overwrite [simp]:
  "d + length src \<le> length v \<Longrightarrow> length (overwrite v d src) = length v"
  by (simp add: overwrite_def)

lemma take_overwrite: "d + length src \<le> length v \<Longrightarrow> take d (overwrite v d src) = take d v"
  by (simp add: overwrite_def)

lemma drop_overwrite:
  "d + length src \<le> length v \<Longrightarrow> drop d (overwrite v d src) = src @ drop (d + length src) v"
  by (simp add: overwrite_def)

lemma take_upto_overwrite:
  "d + length src \<le> length v \<Longrightarrow> take (d + length src) (overwrite v d src) = take d v @ src"
  by (simp add: overwrite_def)

lemma length_resize [simp]: "length (resize z v n) = n"
  by (simp add: resize_def)

lemma memcpy_ok [mem_simps]:
  "0 \<le> n \<Longrightarrow> n \<le> int (length src) \<Longrightarrow> 0 \<le> d \<Longrightarrow> d + n \<le> int (length dst) \<Longrightarrow>
   memcpy dst d src n = Inr (overwrite dst (nat d) (take (nat n) src))"
  by (simp add: memcpy_def)

lemma memcpy_too_small: "length dst < k \<Longrightarrow> memcpy dst 0 src (int k) = Inl OutOfBounds"
  by (simp add: memcpy_def)

lemma memcpy_Inr_length: "memcpy dst d src n = Inr v \<Longrightarrow> length v = length dst"
proof -
  assume h: "memcpy dst d src n = Inr v"
  then have b: "0 \<le> n" "n \<le> int (length src)" "0 \<le> d" "d + n \<le> int (length dst)"
    and v: "v = overwrite dst (nat d) (take (nat n) src)"
    by (auto simp: memcpy_def split: if_splits)
  from b have "nat d + length (take (nat n) src) \<le> length dst" by auto
  with v show ?thesis by simp
qed

lemma memcpy_within_Inr_length: "memcpy_within w d s n = Inr v \<Longrightarrow> length v = length w"
proof -
  assume h: "memcpy_within w d s n = Inr v"
  then have b: "0 \<le> n" "0 \<le> d" "d + n \<le> int (length w)" "0 \<le> s" "s + n \<le> int (length w)"
    and v: "v = overwrite w (nat d) (take (nat n) (drop (nat s) w))"
    by (auto simp: memcpy_within_def split: if_splits)
  from b have "nat d + length (take (nat n) (drop (nat s) w)) \<le> length w" by auto
  with v show ?thesis by simp
qed

section \<open>Lists\<close>

text \<open>The bytes of \<open>v\<close> between two positions: what a read and a write cursor enclose.\<close>

definition between :: "nat \<Rightarrow> nat \<Rightarrow> 'a list \<Rightarrow> 'a list" where
  "between i j v = take (j - i) (drop i v)"

lemma length_between [simp]: "i \<le> j \<Longrightarrow> j \<le> length v \<Longrightarrow> length (between i j v) = j - i"
  by (simp add: between_def)

lemma between_empty [simp]: "j \<le> i \<Longrightarrow> between i j v = []"
  by (simp add: between_def)

lemma between_overwrite_append:
  assumes "i \<le> j" "j + length src \<le> length v"
  shows "between i (j + length src) (overwrite v j src) = between i j v @ src"
proof -
  have "between i (j + length src) (overwrite v j src) = drop i (take (j + length src) (overwrite v j src))"
    using assms by (simp add: between_def drop_take)
  also have "\<dots> = drop i (take j v @ src)"
    using assms by (simp add: take_upto_overwrite)
  also have "\<dots> = between i j v @ src"
    using assms by (simp add: between_def drop_take)
  finally show ?thesis .
qed

lemma drop_between: "drop k (between i j v) = between (i + k) j v"
  by (simp add: between_def drop_take ac_simps diff_diff_left)

lemma take_between: "i + k \<le> j \<Longrightarrow> take k (between i j v) = between i (i + k) v"
  by (simp add: between_def min_def)

lemma drop_between_append: "i \<le> j \<Longrightarrow> drop i v = between i j v @ drop j v"
  using append_take_drop_id [of "j - i" "drop i v"] by (simp add: between_def)

end
