(* ===== verification/Packet_Buffer.thy ===== *)
theory Packet_Buffer
  imports YJ_Prelude
begin

text \<open>
  \<^verbatim>\<open>ServerCore/PacketBuffer.h\<close> and \<^verbatim>\<open>PacketBuffer.cpp\<close>: the receive buffer with a read and a
  write cursor, \<^verbatim>\<open>[r][][][w][][]...\<close>. The record has the fields of the class; each method
  is one definition, with the buffer passed and returned.
\<close>

record PacketBuffer =
  m_Buffer :: "byte list"
  m_Capacity :: int
  m_BufferSize :: int
  m_ReadPos :: int
  m_WritePos :: int

section \<open>Operations\<close>

text \<open>
  A fresh object has the member initialisers of the header. \<open>PacketBuffer_Init\<close> resizes
  the vector, which keeps the bytes that are there, and does not touch the cursors. A
  capacity that wrapped to a negative \<^verbatim>\<open>int32\<close> is a huge \<^verbatim>\<open>size_t\<close> for \<^verbatim>\<open>resize\<close>, which throws.
\<close>

definition PacketBuffer_blank :: PacketBuffer where
  "PacketBuffer_blank =
     \<lparr>m_Buffer = [], m_Capacity = 0, m_BufferSize = 0, m_ReadPos = 0, m_WritePos = 0\<rparr>"

definition PacketBuffer_Init :: "int \<Rightarrow> PacketBuffer \<Rightarrow> PacketBuffer res" where
  "PacketBuffer_Init bufferSize b =
     (let cap = i32 (bufferSize * 10)
      in if cap < 0 then Inl LengthError
         else Inr (b\<lparr>m_BufferSize := bufferSize, m_Capacity := cap,
                     m_Buffer := resize 0 (m_Buffer b) (nat cap)\<rparr>))"

definition PacketBuffer_new :: "PacketBuffer res" where
  "PacketBuffer_new = PacketBuffer_Init 65536 PacketBuffer_blank"

definition PacketBuffer_new_sized :: "int \<Rightarrow> PacketBuffer res" where
  "PacketBuffer_new_sized bufferSize =
     (let cap = i32 (bufferSize * 10)
      in if cap < 0 then Inl LengthError
         else Inr (PacketBuffer_blank\<lparr>m_BufferSize := bufferSize, m_Capacity := cap,
                     m_Buffer := resize 0 [] (nat cap)\<rparr>))"

definition PacketBuffer_DataSize :: "PacketBuffer \<Rightarrow> int" where
  "PacketBuffer_DataSize b = i32 (m_WritePos b - m_ReadPos b)"

definition PacketBuffer_FreeSize :: "PacketBuffer \<Rightarrow> int" where
  "PacketBuffer_FreeSize b = i32 (m_Capacity b - m_WritePos b)"

text \<open>\<open>ReadPos\<close> and \<open>WritePos\<close> are pointers into the vector: the checked position.\<close>

definition PacketBuffer_ReadPos :: "PacketBuffer \<Rightarrow> int res" where
  "PacketBuffer_ReadPos b =
     bindR (subscript (m_Buffer b) (m_ReadPos b)) (\<lambda>_. Inr (m_ReadPos b))"

definition PacketBuffer_WritePos :: "PacketBuffer \<Rightarrow> int res" where
  "PacketBuffer_WritePos b =
     bindR (subscript (m_Buffer b) (m_WritePos b)) (\<lambda>_. Inr (m_WritePos b))"

text \<open>The two overloads of \<^verbatim>\<open>OnWrite\<close>: with the bytes to copy in, and cursor only.\<close>

definition PacketBuffer_OnWrite_copy ::
    "byte list \<Rightarrow> int \<Rightarrow> PacketBuffer \<Rightarrow> (bool \<times> PacketBuffer) res" where
  "PacketBuffer_OnWrite_copy buffer sz b =
     (if PacketBuffer_FreeSize b < sz then Inr (False, b)
      else bindR (PacketBuffer_WritePos b) (\<lambda>pos.
           bindR (memcpy (m_Buffer b) pos buffer sz) (\<lambda>v.
           Inr (True, b\<lparr>m_Buffer := v, m_WritePos := i32 (m_WritePos b + sz)\<rparr>))))"

definition PacketBuffer_OnWrite :: "int \<Rightarrow> PacketBuffer \<Rightarrow> bool \<times> PacketBuffer" where
  "PacketBuffer_OnWrite sz b =
     (if PacketBuffer_FreeSize b < sz then (False, b)
      else (True, b\<lparr>m_WritePos := i32 (m_WritePos b + sz)\<rparr>))"

text \<open>
  The overload of \<^verbatim>\<open>OnRead\<close> that takes a buffer copies from the caller's buffer into the
  free area at the write cursor, exactly as \<^verbatim>\<open>OnWrite\<close> does, and then moves the read cursor.
\<close>

definition PacketBuffer_OnRead_copy ::
    "byte list \<Rightarrow> int \<Rightarrow> PacketBuffer \<Rightarrow> (bool \<times> PacketBuffer) res" where
  "PacketBuffer_OnRead_copy buffer sz b =
     (if PacketBuffer_DataSize b < sz then Inr (False, b)
      else bindR (PacketBuffer_WritePos b) (\<lambda>pos.
           bindR (memcpy (m_Buffer b) pos buffer sz) (\<lambda>v.
           Inr (True, b\<lparr>m_Buffer := v, m_ReadPos := i32 (m_ReadPos b + sz)\<rparr>))))"

definition PacketBuffer_OnRead :: "int \<Rightarrow> PacketBuffer \<Rightarrow> bool \<times> PacketBuffer" where
  "PacketBuffer_OnRead sz b =
     (if PacketBuffer_DataSize b < sz then (False, b)
      else (True, b\<lparr>m_ReadPos := i32 (m_ReadPos b + sz)\<rparr>))"

definition PacketBuffer_Clear :: "PacketBuffer \<Rightarrow> PacketBuffer res" where
  "PacketBuffer_Clear b =
     (let dataSize = PacketBuffer_DataSize b
      in if dataSize = 0 then Inr (b\<lparr>m_ReadPos := 0, m_WritePos := 0\<rparr>)
         else if PacketBuffer_FreeSize b < m_BufferSize b
         then bindR (subscript (m_Buffer b) 0) (\<lambda>_.
              bindR (PacketBuffer_ReadPos b) (\<lambda>pos.
              bindR (memcpy_within (m_Buffer b) 0 pos dataSize) (\<lambda>v.
              Inr (b\<lparr>m_Buffer := v, m_ReadPos := 0, m_WritePos := 0\<rparr>))))
         else Inr b)"

section \<open>Invariant and contents\<close>

definition pb_inv :: "PacketBuffer \<Rightarrow> bool" where
  "pb_inv b \<longleftrightarrow> 0 \<le> m_ReadPos b \<and> m_ReadPos b \<le> m_WritePos b \<and> m_WritePos b \<le> m_Capacity b
     \<and> m_Capacity b < 2147483648 \<and> int (length (m_Buffer b)) = m_Capacity b
     \<and> 0 < m_BufferSize b \<and> m_Capacity b = 10 * m_BufferSize b"

text \<open>The abstraction: the bytes that were written and not yet read.\<close>

definition pending :: "PacketBuffer \<Rightarrow> byte list" where
  "pending b = between (nat (m_ReadPos b)) (nat (m_WritePos b)) (m_Buffer b)"

definition pb_empty :: "PacketBuffer \<Rightarrow> bool" where
  "pb_empty b \<longleftrightarrow> m_ReadPos b = 0 \<and> m_WritePos b = 0"

lemma pb_invD:
  assumes "pb_inv b"
  shows "0 \<le> m_ReadPos b" "m_ReadPos b \<le> m_WritePos b" "m_WritePos b \<le> m_Capacity b"
    "m_Capacity b < 2147483648" "int (length (m_Buffer b)) = m_Capacity b"
    "0 < m_BufferSize b" "m_Capacity b = 10 * m_BufferSize b"
  using assms by (auto simp: pb_inv_def)

lemma DataSize_inv [simp]:
  "pb_inv b \<Longrightarrow> PacketBuffer_DataSize b = m_WritePos b - m_ReadPos b"
  unfolding PacketBuffer_DataSize_def by (intro i32_id) (auto simp: pb_inv_def)

lemma FreeSize_inv [simp]:
  "pb_inv b \<Longrightarrow> PacketBuffer_FreeSize b = m_Capacity b - m_WritePos b"
  unfolding PacketBuffer_FreeSize_def by (intro i32_id) (auto simp: pb_inv_def)

lemma length_pending: "pb_inv b \<Longrightarrow> int (length (pending b)) = m_WritePos b - m_ReadPos b"
  using pb_invD [of b] by (simp add: pending_def nat_diff_distrib)

lemma pending_Nil_iff: "pb_inv b \<Longrightarrow> pending b = [] \<longleftrightarrow> m_ReadPos b = m_WritePos b"
  using length_pending [of b] by auto

lemma pb_empty_pending: "pb_empty b \<Longrightarrow> pending b = []"
  by (simp add: pb_empty_def pending_def)

section \<open>Interface: a byte buffer with two cursors\<close>

text \<open>
  What the receive path needs from a buffer: its bytes lie between a read and a write cursor;
  \<open>put\<close> appends, \<open>skip\<close> drops from the front, \<open>tidy\<close> loses nothing as long as the write cursor
  has not passed \<open>limit\<close>, and neither \<open>skip\<close> nor such a \<open>tidy\<close> moves a byte.
\<close>

locale byte_buffer =
  fixes bb_inv :: "'b \<Rightarrow> bool"
    and bb_mem :: "'b \<Rightarrow> byte list"
    and bb_rpos :: "'b \<Rightarrow> int"
    and bb_wpos :: "'b \<Rightarrow> int"
    and bb_limit :: "'b \<Rightarrow> int"
    and bb_put :: "byte list \<Rightarrow> int \<Rightarrow> 'b \<Rightarrow> (bool \<times> 'b) res"
    and bb_skip :: "int \<Rightarrow> 'b \<Rightarrow> bool \<times> 'b"
    and bb_tidy :: "'b \<Rightarrow> 'b res"
  assumes bounds: "bb_inv b \<Longrightarrow> 0 \<le> bb_rpos b \<and> bb_rpos b \<le> bb_wpos b
      \<and> bb_wpos b \<le> int (length (bb_mem b)) \<and> bb_limit b \<le> int (length (bb_mem b))"
    and put_ok: "bb_inv b \<Longrightarrow> dat \<noteq> [] \<Longrightarrow>
      bb_wpos b + int (length dat) \<le> int (length (bb_mem b)) \<Longrightarrow>
      \<exists>b'. bb_put dat (int (length dat)) b = Inr (True, b') \<and> bb_inv b'
        \<and> bb_mem b' = overwrite (bb_mem b) (nat (bb_wpos b)) dat \<and> bb_rpos b' = bb_rpos b
        \<and> bb_wpos b' = bb_wpos b + int (length dat) \<and> bb_limit b' = bb_limit b"
    and skip_ok: "bb_inv b \<Longrightarrow> 0 \<le> n \<Longrightarrow> n \<le> bb_wpos b - bb_rpos b \<Longrightarrow>
      \<exists>b'. bb_skip n b = (True, b') \<and> bb_inv b' \<and> bb_mem b' = bb_mem b
        \<and> bb_rpos b' = bb_rpos b + n \<and> bb_wpos b' = bb_wpos b \<and> bb_limit b' = bb_limit b"
    and tidy_ok: "bb_inv b \<Longrightarrow> bb_rpos b = bb_wpos b \<or> bb_wpos b \<le> bb_limit b \<Longrightarrow>
      \<exists>b'. bb_tidy b = Inr b' \<and> bb_inv b' \<and> bb_mem b' = bb_mem b \<and> bb_limit b' = bb_limit b
        \<and> (if bb_rpos b = bb_wpos b then bb_rpos b' = 0 \<and> bb_wpos b' = 0 else b' = b)"
begin

definition bb_bytes :: "'b \<Rightarrow> byte list" where
  "bb_bytes b = between (nat (bb_rpos b)) (nat (bb_wpos b)) (bb_mem b)"

lemma length_bytes: "bb_inv b \<Longrightarrow> int (length (bb_bytes b)) = bb_wpos b - bb_rpos b"
  using bounds [of b] by (subst bb_bytes_def, subst length_between) auto

lemma put_bytes:
  assumes "bb_inv b" "dat \<noteq> []" "bb_wpos b + int (length dat) \<le> int (length (bb_mem b))"
  obtains b' where "bb_put dat (int (length dat)) b = Inr (True, b')" "bb_inv b'"
    "bb_bytes b' = bb_bytes b @ dat" "bb_rpos b' = bb_rpos b"
    "bb_wpos b' = bb_wpos b + int (length dat)" "bb_limit b' = bb_limit b"
    "bb_mem b' = overwrite (bb_mem b) (nat (bb_wpos b)) dat"
proof -
  obtain b' where b': "bb_put dat (int (length dat)) b = Inr (True, b')" "bb_inv b'"
    "bb_mem b' = overwrite (bb_mem b) (nat (bb_wpos b)) dat" "bb_rpos b' = bb_rpos b"
    "bb_wpos b' = bb_wpos b + int (length dat)" "bb_limit b' = bb_limit b"
    using put_ok [OF assms] by auto
  have w: "nat (bb_wpos b) + length dat \<le> length (bb_mem b)" "nat (bb_rpos b) \<le> nat (bb_wpos b)"
    using bounds [OF assms(1)] assms(3) by auto
  have "nat (bb_wpos b') = nat (bb_wpos b) + length dat" using b'(5) bounds [OF assms(1)] by auto
  with between_overwrite_append [OF w(2,1)] b' have "bb_bytes b' = bb_bytes b @ dat"
    by (simp add: bb_bytes_def)
  with b' w show thesis by (intro that [of b']) auto
qed

lemma skip_bytes:
  assumes "bb_inv b" "n \<le> length (bb_bytes b)"
  obtains b' where "bb_skip (int n) b = (True, b')" "bb_inv b'" "bb_bytes b' = drop n (bb_bytes b)"
    "bb_mem b' = bb_mem b" "bb_wpos b' = bb_wpos b" "bb_limit b' = bb_limit b"
proof -
  have "int n \<le> bb_wpos b - bb_rpos b" using assms length_bytes [of b] by simp
  then obtain b' where b': "bb_skip (int n) b = (True, b')" "bb_inv b'" "bb_mem b' = bb_mem b"
    "bb_rpos b' = bb_rpos b + int n" "bb_wpos b' = bb_wpos b" "bb_limit b' = bb_limit b"
    using skip_ok [OF assms(1), of "int n"] by auto
  then have "bb_bytes b' = drop n (bb_bytes b)"
    using bounds [OF assms(1)] by (simp add: bb_bytes_def drop_between nat_add_distrib)
  with b' show thesis by (intro that [of b']) auto
qed

lemma tidy_bytes:
  assumes "bb_inv b" "bb_wpos b \<le> bb_limit b"
  obtains b' where "bb_tidy b = Inr b'" "bb_inv b'" "bb_bytes b' = bb_bytes b"
    "bb_mem b' = bb_mem b" "bb_wpos b' \<le> bb_wpos b" "bb_limit b' = bb_limit b"
    "bb_bytes b = [] \<Longrightarrow> bb_wpos b' = 0"
proof -
  obtain b' where b': "bb_tidy b = Inr b'" "bb_inv b'" "bb_mem b' = bb_mem b"
    "bb_limit b' = bb_limit b"
    "if bb_rpos b = bb_wpos b then bb_rpos b' = 0 \<and> bb_wpos b' = 0 else b' = b"
    using tidy_ok [OF assms(1)] assms(2) by auto
  have "bb_bytes b = [] \<longleftrightarrow> bb_rpos b = bb_wpos b"
    using length_bytes [OF assms(1)] by auto
  with b' bounds [OF assms(1)] show thesis
    by (intro that [of b']) (auto simp: bb_bytes_def split: if_splits)
qed

end

section \<open>Behaviour of the operations\<close>

lemma Init_blank:
  assumes "0 < n" "n \<le> 214748364"
  shows "PacketBuffer_Init n PacketBuffer_blank =
    Inr \<lparr>m_Buffer = resize 0 [] (nat (n * 10)), m_Capacity = n * 10, m_BufferSize = n,
         m_ReadPos = 0, m_WritePos = 0\<rparr>"
  using assms by (simp add: PacketBuffer_Init_def PacketBuffer_blank_def i32_id Let_def)

lemma new_sized_eq_Init:
  "PacketBuffer_new_sized n = PacketBuffer_Init n PacketBuffer_blank"
  by (simp add: PacketBuffer_new_sized_def PacketBuffer_Init_def PacketBuffer_blank_def Let_def)

lemma new_sized_inv:
  assumes "0 < n" "n \<le> 214748364"
  obtains b where "PacketBuffer_new_sized n = Inr b" "pb_inv b" "pb_empty b" "m_BufferSize b = n"
  using assms Init_blank [OF assms]
  by (auto simp: new_sized_eq_Init pb_inv_def pb_empty_def)

lemma new_inv:
  obtains b where "PacketBuffer_new = Inr b" "pb_inv b" "pb_empty b" "m_BufferSize b = 65536"
  using Init_blank [of 65536]
  by (auto simp: PacketBuffer_new_def pb_inv_def pb_empty_def)

text \<open>Writing bytes in: refused without a change, or appended to the pending bytes.\<close>

lemma OnWrite_copy_full:
  "pb_inv b \<Longrightarrow> m_Capacity b - m_WritePos b < n \<Longrightarrow>
   PacketBuffer_OnWrite_copy data n b = Inr (False, b)"
  by (simp add: PacketBuffer_OnWrite_copy_def)

lemma OnWrite_copy_ok:
  assumes inv: "pb_inv b" and n: "0 < n" "n \<le> int (length data)"
    and fits: "m_WritePos b + n \<le> m_Capacity b"
  obtains b' where "PacketBuffer_OnWrite_copy data n b = Inr (True, b')" "pb_inv b'"
    "pending b' = pending b @ take (nat n) data" "m_WritePos b' = m_WritePos b + n"
    "m_ReadPos b' = m_ReadPos b" "m_BufferSize b' = m_BufferSize b"
proof -
  let ?w = "nat (m_WritePos b)" and ?d = "take (nat n) data"
  let ?v = "overwrite (m_Buffer b) ?w ?d"
  let ?b = "b\<lparr>m_Buffer := ?v, m_WritePos := m_WritePos b + n\<rparr>"
  note I = pb_invD [OF inv]
  have w: "?w + length ?d \<le> length (m_Buffer b)" using I n fits by auto
  have pos: "PacketBuffer_WritePos b = Inr (m_WritePos b)"
    using I n fits by (simp add: PacketBuffer_WritePos_def subscript_def in_vec_def)
  have cp: "memcpy (m_Buffer b) (m_WritePos b) data n = Inr ?v"
    using I n fits by (intro memcpy_ok) auto
  have wrap: "i32 (m_WritePos b + n) = m_WritePos b + n"
    using I n fits by (intro i32_id) auto
  have "PacketBuffer_OnWrite_copy data n b = Inr (True, ?b)"
    using inv fits by (simp add: PacketBuffer_OnWrite_copy_def pos cp wrap)
  moreover have "pb_inv ?b"
    using I n fits w by (simp add: pb_inv_def)
  moreover have "pending ?b = pending b @ ?d"
  proof -
    have "nat (m_WritePos b + n) = ?w + length ?d" using I n by auto
    moreover have "nat (m_ReadPos b) \<le> ?w" using I by auto
    ultimately show ?thesis
      using between_overwrite_append [OF _ w] by (simp add: pending_def)
  qed
  ultimately show thesis by (rule that) auto
qed

text \<open>Moving the read cursor: refused without a change, or the first pending bytes are gone.\<close>

lemma OnRead_short:
  "pb_inv b \<Longrightarrow> int (length (pending b)) < n \<Longrightarrow> PacketBuffer_OnRead n b = (False, b)"
  by (simp add: PacketBuffer_OnRead_def length_pending)

lemma OnRead_ok:
  assumes inv: "pb_inv b" and n: "0 \<le> n" "n \<le> int (length (pending b))"
  obtains b' where "PacketBuffer_OnRead n b = (True, b')" "pb_inv b'"
    "pending b' = drop (nat n) (pending b)" "m_WritePos b' = m_WritePos b"
    "m_ReadPos b' = m_ReadPos b + n" "m_BufferSize b' = m_BufferSize b"
    "m_Buffer b' = m_Buffer b"
proof -
  note I = pb_invD [OF inv]
  have n': "n \<le> m_WritePos b - m_ReadPos b" using n length_pending [OF inv] by simp
  have wrap: "i32 (m_ReadPos b + n) = m_ReadPos b + n"
    using I n n' by (intro i32_id) auto
  let ?b = "b\<lparr>m_ReadPos := m_ReadPos b + n\<rparr>"
  have "PacketBuffer_OnRead n b = (True, ?b)"
    using inv n' by (simp add: PacketBuffer_OnRead_def wrap)
  moreover have "pb_inv ?b" using I n n' by (simp add: pb_inv_def)
  moreover have "pending ?b = drop (nat n) (pending b)"
    using I n by (simp add: pending_def drop_between nat_add_distrib)
  ultimately show thesis by (rule that) auto
qed

text \<open>
  \<open>Clear\<close> has three outcomes. With nothing pending it rewinds both cursors. With more
  than one tenth of the capacity free it does nothing. In between it moves the pending
  bytes to the front and then sets both cursors to 0, which forgets them.
\<close>

lemma Clear_nothing_pending:
  assumes "pb_inv b" "pending b = []"
  obtains b' where "PacketBuffer_Clear b = Inr b'" "pb_inv b'" "pb_empty b'"
    "m_BufferSize b' = m_BufferSize b" "m_Buffer b' = m_Buffer b"
proof -
  have "m_ReadPos b = m_WritePos b" using assms by (simp add: pending_Nil_iff)
  then have "PacketBuffer_Clear b = Inr (b\<lparr>m_ReadPos := 0, m_WritePos := 0\<rparr>)"
    using assms by (simp add: PacketBuffer_Clear_def)
  moreover have "pb_inv (b\<lparr>m_ReadPos := 0, m_WritePos := 0\<rparr>)"
    using assms by (simp add: pb_inv_def)
  ultimately show thesis by (rule that) (auto simp: pb_empty_def)
qed

lemma Clear_room_left:
  assumes "pb_inv b" "pending b \<noteq> []" "m_WritePos b \<le> 9 * m_BufferSize b"
  shows "PacketBuffer_Clear b = Inr b"
  using assms pb_invD [of b] by (simp add: PacketBuffer_Clear_def pending_Nil_iff)

lemma Clear_compacting:
  assumes inv: "pb_inv b" and pend: "pending b \<noteq> []"
    and full: "9 * m_BufferSize b < m_WritePos b"
    and apart: "int (length (pending b)) \<le> m_ReadPos b"
  obtains b' where "PacketBuffer_Clear b = Inr b'" "pb_empty b'"
    "take (length (pending b)) (m_Buffer b') = pending b"
proof -
  note I = pb_invD [OF inv]
  let ?n = "m_WritePos b - m_ReadPos b"
  let ?v = "overwrite (m_Buffer b) 0 (take (nat ?n) (drop (nat (m_ReadPos b)) (m_Buffer b)))"
  have len: "int (length (pending b)) = ?n" by (rule length_pending [OF inv])
  have lt: "m_ReadPos b < m_WritePos b" using inv pend I by (simp add: pending_Nil_iff)
  have pos: "PacketBuffer_ReadPos b = Inr (m_ReadPos b)"
    using I lt by (simp add: PacketBuffer_ReadPos_def subscript_def in_vec_def)
  have cp: "memcpy_within (m_Buffer b) 0 (m_ReadPos b) ?n = Inr ?v"
    using I lt apart len by (simp add: memcpy_within_def)
  have sub: "subscript (m_Buffer b) 0 = Inr (m_Buffer b ! 0)"
    using I lt by (simp add: subscript_def in_vec_def)
  have c: "PacketBuffer_Clear b = Inr (b\<lparr>m_Buffer := ?v, m_ReadPos := 0, m_WritePos := 0\<rparr>)"
    using inv I lt full by (simp add: PacketBuffer_Clear_def pos cp sub)
  have "take (length (pending b)) ?v = pending b"
    using I lt by (simp add: overwrite_def pending_def between_def nat_diff_distrib)
  with c show thesis by (intro that [OF c]) (auto simp: pb_empty_def)
qed

lemma Clear_no_fault_inv:
  assumes "pb_inv b" "PacketBuffer_Clear b = Inr b'"
  shows "pb_inv b' \<and> m_BufferSize b' = m_BufferSize b"
proof (cases "pending b = [] \<or> m_WritePos b \<le> 9 * m_BufferSize b")
  case True
  then show ?thesis
  proof (cases "pending b = []")
    case True
    with assms show ?thesis by (auto elim: Clear_nothing_pending)
  next
    case False
    with True assms Clear_room_left [of b] show ?thesis by auto
  qed
next
  case False
  then have "PacketBuffer_DataSize b \<noteq> 0" using assms(1) by (simp add: pending_Nil_iff)
  with assms False show ?thesis
    using pb_invD [OF assms(1)]
    by (auto simp: PacketBuffer_Clear_def Let_def bindR_Inr_iff pb_inv_def
        dest: memcpy_within_Inr_length split: if_splits)
qed

section \<open>The buffer provides the interface\<close>

interpretation pb: byte_buffer pb_inv m_Buffer m_ReadPos m_WritePos "\<lambda>b. 9 * m_BufferSize b"
  PacketBuffer_OnWrite_copy PacketBuffer_OnRead PacketBuffer_Clear
proof unfold_locales
  fix b and dat :: "byte list"
  assume h: "pb_inv b" "dat \<noteq> []" "m_WritePos b + int (length dat) \<le> int (length (m_Buffer b))"
  note I = pb_invD [OF h(1)]
  let ?v = "overwrite (m_Buffer b) (nat (m_WritePos b)) dat"
  let ?b = "b\<lparr>m_Buffer := ?v, m_WritePos := m_WritePos b + int (length dat)\<rparr>"
  have "1 \<le> length dat" using h(2) by (cases dat) auto
  then have "m_WritePos b < int (length (m_Buffer b))" using h(3) by linarith
  then have pos: "PacketBuffer_WritePos b = Inr (m_WritePos b)"
    using I by (simp add: PacketBuffer_WritePos_def subscript_def in_vec_def)
  have cp: "memcpy (m_Buffer b) (m_WritePos b) dat (int (length dat)) = Inr ?v"
    using I h(3) memcpy_ok [of "int (length dat)" dat "m_WritePos b" "m_Buffer b"] by simp
  have wrap: "i32 (m_WritePos b + int (length dat)) = m_WritePos b + int (length dat)"
    using I h(3) by (intro i32_id) auto
  have "PacketBuffer_OnWrite_copy dat (int (length dat)) b = Inr (True, ?b)"
    using h I by (simp add: PacketBuffer_OnWrite_copy_def pos cp wrap)
  moreover have "pb_inv ?b" using I h(3) by (auto simp: pb_inv_def)
  ultimately show "\<exists>b'. PacketBuffer_OnWrite_copy dat (int (length dat)) b = Inr (True, b') \<and> pb_inv b'
        \<and> m_Buffer b' = overwrite (m_Buffer b) (nat (m_WritePos b)) dat \<and> m_ReadPos b' = m_ReadPos b
        \<and> m_WritePos b' = m_WritePos b + int (length dat) \<and> 9 * m_BufferSize b' = 9 * m_BufferSize b"
    by (intro exI [of _ ?b]) simp
next
  fix b and n :: int
  assume h: "pb_inv b" "0 \<le> n" "n \<le> m_WritePos b - m_ReadPos b"
  note I = pb_invD [OF h(1)]
  have "i32 (m_ReadPos b + n) = m_ReadPos b + n" using I h by (intro i32_id) auto
  with h I show "\<exists>b'. PacketBuffer_OnRead n b = (True, b') \<and> pb_inv b' \<and> m_Buffer b' = m_Buffer b
        \<and> m_ReadPos b' = m_ReadPos b + n \<and> m_WritePos b' = m_WritePos b
        \<and> 9 * m_BufferSize b' = 9 * m_BufferSize b"
    by (intro exI [of _ "b\<lparr>m_ReadPos := m_ReadPos b + n\<rparr>"])
      (simp add: PacketBuffer_OnRead_def pb_inv_def)
next
  fix b
  assume h: "pb_inv b" "m_ReadPos b = m_WritePos b \<or> m_WritePos b \<le> 9 * m_BufferSize b"
  then show "\<exists>b'. PacketBuffer_Clear b = Inr b' \<and> pb_inv b' \<and> m_Buffer b' = m_Buffer b
        \<and> 9 * m_BufferSize b' = 9 * m_BufferSize b
        \<and> (if m_ReadPos b = m_WritePos b then m_ReadPos b' = 0 \<and> m_WritePos b' = 0 else b' = b)"
    using pb_invD [OF h(1)] by (auto simp: PacketBuffer_Clear_def pb_inv_def)
qed (auto simp: pb_inv_def)

lemma pending_eq_bytes: "pending b = pb.bb_bytes b"
  by (simp add: pending_def pb.bb_bytes_def)

section \<open>Properties\<close>

text \<open>
  A run of writes and reads against a byte queue: \<open>q\<close> are the queued bytes, \<open>w\<close> counts what
  was ever written into the array of \<open>cap\<close> bytes.
\<close>

datatype pb_op = Pb_write "byte list" | Pb_read nat

fun pb_run :: "pb_op list \<Rightarrow> PacketBuffer \<Rightarrow> (bool list \<times> PacketBuffer) res" where
  "pb_run [] b = Inr ([], b)"
| "pb_run (Pb_write d # ops) b =
     bindR (PacketBuffer_OnWrite_copy d (int (length d)) b) (\<lambda>(ok, b1).
     bindR (pb_run ops b1) (\<lambda>(oks, b2). Inr (ok # oks, b2)))"
| "pb_run (Pb_read n # ops) b =
     (let (ok, b1) = PacketBuffer_OnRead (int n) b
      in bindR (pb_run ops b1) (\<lambda>(oks, b2). Inr (ok # oks, b2)))"

fun queue_run :: "nat \<Rightarrow> pb_op list \<Rightarrow> byte list \<times> nat \<Rightarrow> bool list \<times> byte list \<times> nat" where
  "queue_run cap [] s = ([], s)"
| "queue_run cap (Pb_write d # ops) (q, w) =
     (let ok = (w + length d \<le> cap);
          (oks, s) = queue_run cap ops (if ok then (q @ d, w + length d) else (q, w))
      in (ok # oks, s))"
| "queue_run cap (Pb_read n # ops) (q, w) =
     (let ok = (n \<le> length q);
          (oks, s) = queue_run cap ops (if ok then (drop n q, w) else (q, w))
      in (ok # oks, s))"

text \<open>
  C23. Any run of \<open>OnWrite\<close> (with data) and \<open>OnRead\<close> on a sound buffer neither faults nor
  breaks the buffer, and answers and contents are those of a bounded byte queue: what is
  read comes out in the order it was written, a write that does not fit and a read of more
  than is there are refused without any change.
\<close>

theorem buffer_is_byte_queue:
  assumes "pb_inv b" "Pb_write [] \<notin> set ops"
  shows "\<exists>b'. pb_run ops b = Inr (fst (queue_run (length (m_Buffer b)) ops (pending b, nat (m_WritePos b))), b')
    \<and> pb_inv b'
    \<and> (pending b', nat (m_WritePos b')) = snd (queue_run (length (m_Buffer b)) ops (pending b, nat (m_WritePos b)))"
  using assms
proof (induction ops arbitrary: b)
  case (Cons op ops)
  note I = pb_invD [OF Cons.prems(1)]
  have rest: "Pb_write [] \<notin> set ops" using Cons.prems(2) by simp
  show ?case
  proof (cases op)
    case (Pb_write d)
    then have d: "d \<noteq> []" using Cons.prems(2) by auto
    show ?thesis
    proof (cases "nat (m_WritePos b) + length d \<le> length (m_Buffer b)")
      case True
      then have "m_WritePos b + int (length d) \<le> int (length (m_Buffer b))" using I by linarith
      then obtain b1 where b1: "PacketBuffer_OnWrite_copy d (int (length d)) b = Inr (True, b1)" "pb_inv b1"
        "pb.bb_bytes b1 = pb.bb_bytes b @ d" "m_WritePos b1 = m_WritePos b + int (length d)"
        "9 * m_BufferSize b1 = 9 * m_BufferSize b"
        using pb.put_bytes [OF Cons.prems(1) d] by metis
      have len: "length (m_Buffer b1) = length (m_Buffer b)"
        using b1(5) I pb_invD [OF b1(2)] by linarith
      have w: "nat (m_WritePos b1) = nat (m_WritePos b) + length d" using b1(4) I by simp
      from Cons.IH [OF b1(2) rest] show ?thesis
        using Pb_write True b1(1,3) len w
        by (auto simp: Let_def split_beta pending_eq_bytes)
    next
      case False
      then have "m_Capacity b - m_WritePos b < int (length d)" using I by linarith
      from Cons.IH [OF Cons.prems(1) rest] OnWrite_copy_full [OF Cons.prems(1) this, of d]
      show ?thesis using Pb_write False by (auto simp: Let_def split_beta)
    qed
  next
    case (Pb_read n)
    show ?thesis
    proof (cases "n \<le> length (pending b)")
      case True
      then obtain b1 where b1: "PacketBuffer_OnRead (int n) b = (True, b1)" "pb_inv b1"
        "pending b1 = drop n (pending b)" "m_WritePos b1 = m_WritePos b" "m_Buffer b1 = m_Buffer b"
        using OnRead_ok [OF Cons.prems(1), of "int n"] by (metis nat_int of_nat_0_le_iff of_nat_le_iff)
      from Cons.IH [OF b1(2) rest] show ?thesis
        using Pb_read True b1 by (auto simp: Let_def split_beta)
    next
      case False
      then have "int (length (pending b)) < int n" by simp
      from Cons.IH [OF Cons.prems(1) rest] OnRead_short [OF Cons.prems(1) this]
      show ?thesis using Pb_read False by (auto simp: Let_def split_beta)
    qed
  qed
qed simp

definition example_buffer :: "byte list \<Rightarrow> int \<Rightarrow> int \<Rightarrow> PacketBuffer" where
  "example_buffer v r w = \<lparr>m_Buffer = v, m_Capacity = 10, m_BufferSize = 1, m_ReadPos = r, m_WritePos = w\<rparr>"

theorem buffer_is_byte_queue_witness:
  "\<exists>b'. pb_run [Pb_write [1, 2, 3], Pb_read 2, Pb_write (replicate 8 7), Pb_read 5, Pb_write [4]]
           (example_buffer (replicate 10 0) 0 0) = Inr ([True, True, False, False, True], b')
     \<and> pb_inv b' \<and> pending b' = [3, 4]"
proof -
  have e: "pb_inv (example_buffer (replicate 10 0) 0 0)" "pending (example_buffer (replicate 10 0) 0 0) = []"
    "length (m_Buffer (example_buffer (replicate 10 0) 0 0)) = 10" "m_WritePos (example_buffer (replicate 10 0) 0 0) = 0"
    by (simp_all add: pb_inv_def example_buffer_def pending_def)
  then show ?thesis
    using buffer_is_byte_queue [of "example_buffer (replicate 10 0) 0 0"
        "[Pb_write [1, 2, 3], Pb_read 2, Pb_write (replicate 8 7), Pb_read 5, Pb_write [4]]"]
    by (auto simp: Let_def)
qed

text \<open>
  \<open>Clear\<close> on a buffer whose last tenth is in use and that still holds bytes moves these
  bytes to the front and then forgets them: nothing is pending any more, although the bytes
  lie at the start of the array. (The write cursor is set to 0 instead of the data size.)
\<close>

lemma Clear_forgets_pending:
  assumes "pb_inv b" "pending b \<noteq> []" "9 * m_BufferSize b < m_WritePos b"
    "int (length (pending b)) \<le> m_ReadPos b"
  shows "\<exists>b'. PacketBuffer_Clear b = Inr b' \<and> pending b' = []
    \<and> take (length (pending b)) (m_Buffer b') = pending b"
  using Clear_compacting [OF assms] pb_empty_pending by metis

lemma Clear_forgets_pending_example:
  "\<exists>b'. PacketBuffer_Clear (example_buffer [0, 0, 0, 0, 0, 0, 0, 0, 8, 9] 8 10) = Inr b'
     \<and> pending b' = [] \<and> take 2 (m_Buffer b') = [8, 9]"
  using Clear_forgets_pending [of "example_buffer [0, 0, 0, 0, 0, 0, 0, 0, 8, 9] 8 10"]
  by (simp add: example_buffer_def pb_inv_def pending_def between_def eval_nat_numeral)

end
