(* ===== verification/Packet_Object.thy ===== *)
theory Packet_Object
  imports YJ_Prelude
begin

text \<open>
  \<^verbatim>\<open>ServerCore/Packet.h\<close>: the 12-byte \<^verbatim>\<open>PacketHeader\<close> in front of every message, and the
  class \<^verbatim>\<open>Packet\<close> with its copy, move and external-data operations.
\<close>

unbundle bit_operations_syntax

section \<open>The header and its bytes\<close>

record PacketHeader =
  packetType :: uint16
  packetSize :: uint32
  seqNum :: uint32

definition PacketHeader_new :: PacketHeader where
  "PacketHeader_new = \<lparr>packetType = 0, packetSize = 0, seqNum = 0\<rparr>"

definition sizeof_PacketHeader :: nat where
  "sizeof_PacketHeader = 12"

text \<open>
  The struct has the default alignment: \<open>packetType\<close> at offset 0, two bytes of padding,
  \<open>packetSize\<close> at 4 and \<open>seqNum\<close> at 8, little endian. Copying the struct out copies the
  padding as well; its two bytes are arguments, because the code never sets them.
\<close>

definition le16_bytes :: "uint16 \<Rightarrow> byte list" where
  "le16_bytes w = [ucast w, ucast (drop_bit 8 w)]"

definition le32_bytes :: "uint32 \<Rightarrow> byte list" where
  "le32_bytes w = [ucast w, ucast (drop_bit 8 w), ucast (drop_bit 16 w), ucast (drop_bit 24 w)]"

definition le16_value :: "byte \<Rightarrow> byte \<Rightarrow> uint16" where
  "le16_value a b = ucast a OR push_bit 8 (ucast b)"

definition le32_value :: "byte \<Rightarrow> byte \<Rightarrow> byte \<Rightarrow> byte \<Rightarrow> uint32" where
  "le32_value a b c d =
     ucast a OR push_bit 8 (ucast b) OR push_bit 16 (ucast c) OR push_bit 24 (ucast d)"

definition PacketHeader_bytes :: "byte \<times> byte \<Rightarrow> PacketHeader \<Rightarrow> byte list" where
  "PacketHeader_bytes pad h =
     le16_bytes (packetType h) @ [fst pad, snd pad] @ le32_bytes (packetSize h)
       @ le32_bytes (seqNum h)"

text \<open>\<^verbatim>\<open>*reinterpret_cast<PacketHeader*>(&buffer[i])\<close>: the twelve bytes from \<open>i\<close> on.\<close>

definition PacketHeader_read :: "byte list \<Rightarrow> int \<Rightarrow> PacketHeader res" where
  "PacketHeader_read buffer i =
     (if 0 \<le> i \<and> i + 12 \<le> int (length buffer)
      then let b = (\<lambda>k. buffer ! (nat i + k))
           in Inr \<lparr>packetType = le16_value (b 0) (b 1),
                   packetSize = le32_value (b 4) (b 5) (b 6) (b 7),
                   seqNum = le32_value (b 8) (b 9) (b 10) (b 11)\<rparr>
      else Inl OutOfBounds)"

lemma le16_roundtrip [simp]: "le16_value (ucast w) (ucast (drop_bit 8 w)) = w"
  by (rule bit_word_eqI) (auto simp: le16_value_def bit_simps)

lemma le32_roundtrip [simp]:
  "le32_value (ucast w) (ucast (drop_bit 8 w)) (ucast (drop_bit 16 w)) (ucast (drop_bit 24 w)) = w"
proof (rule bit_word_eqI)
  fix n
  assume n: "n < LENGTH(32)"
  then consider "n < 8" | "8 \<le> n" "n < 16" | "16 \<le> n" "n < 24" | "24 \<le> n"
    by linarith
  then show "bit (le32_value (ucast w) (ucast (drop_bit 8 w)) (ucast (drop_bit 16 w))
               (ucast (drop_bit 24 w))) n = bit w n"
    using n by cases (auto simp: le32_value_def bit_simps)
qed

lemma length_PacketHeader_bytes [simp]: "length (PacketHeader_bytes pad h) = 12"
  by (simp add: PacketHeader_bytes_def le16_bytes_def le32_bytes_def)

lemma nth_PacketHeader_bytes:
  "PacketHeader_bytes pad h =
     [ucast (packetType h), ucast (drop_bit 8 (packetType h)), fst pad, snd pad,
      ucast (packetSize h), ucast (drop_bit 8 (packetSize h)),
      ucast (drop_bit 16 (packetSize h)), ucast (drop_bit 24 (packetSize h)),
      ucast (seqNum h), ucast (drop_bit 8 (seqNum h)),
      ucast (drop_bit 16 (seqNum h)), ucast (drop_bit 24 (seqNum h))]"
  by (simp add: PacketHeader_bytes_def le16_bytes_def le32_bytes_def)

lemma PacketHeader_read_bytes:
  "PacketHeader_read (PacketHeader_bytes pad h @ rest) 0 = Inr h"
  by (simp add: PacketHeader_read_def nth_append nth_PacketHeader_bytes)

lemma PacketHeader_read_shift:
  assumes "0 \<le> i" "nat i \<le> length bs"
  shows "PacketHeader_read bs i = PacketHeader_read (drop (nat i) bs) 0"
  using assms by (auto simp: PacketHeader_read_def Let_def)

lemma PacketHeader_read_append:
  "12 \<le> length bs \<Longrightarrow> PacketHeader_read (bs @ cs) 0 = PacketHeader_read bs 0"
  by (auto simp: PacketHeader_read_def Let_def nth_append)

lemma PacketHeader_read_ok: "12 \<le> length bs \<Longrightarrow> \<exists>h. PacketHeader_read bs 0 = Inr h"
  by (simp add: PacketHeader_read_def Let_def)

section \<open>Packet objects\<close>

text \<open>
  \<open>m_Data\<close> is null, or points into the object's own heap array, or at bytes the object
  does not own. The array is \<^verbatim>\<open>std::unique_ptr<char[]> m_Buffer\<close>, which a move transfers.
\<close>

datatype data_ptr = NullPtr | OwnBuffer | External "byte list"

record Packet =
  m_Data :: data_ptr
  m_Size :: uint32
  m_PacketType :: uint32
  m_OwnBuffer :: "byte list option"

definition Packet_empty :: Packet where
  "Packet_empty = \<lparr>m_Data = NullPtr, m_Size = 0, m_PacketType = 0, m_OwnBuffer = None\<rparr>"

definition Packet_from :: "byte list \<Rightarrow> uint32 \<Rightarrow> uint32 \<Rightarrow> Packet res" where
  "Packet_from dat sz ty =
     bindR (memcpy (replicate (unat sz) 0) 0 dat (uint sz)) (\<lambda>buf.
       Inr \<lparr>m_Data = OwnBuffer, m_Size = sz, m_PacketType = ty, m_OwnBuffer = Some buf\<rparr>)"

text \<open>\<open>Packet_bytes p\<close> is what \<open>m_Data\<close> points at: null, an owned array, or external bytes.\<close>

definition Packet_bytes :: "Packet \<Rightarrow> byte list option" where
  "Packet_bytes p =
     (case m_Data p of NullPtr \<Rightarrow> None | OwnBuffer \<Rightarrow> m_OwnBuffer p | External bs \<Rightarrow> Some bs)"

text \<open>A move: the new object, and what is left of the old one.\<close>

definition Packet_move :: "Packet \<Rightarrow> Packet \<times> Packet" where
  "Packet_move other = (other, \<lparr>m_Data = NullPtr, m_Size = 0, m_PacketType = 0, m_OwnBuffer = None\<rparr>)"

text \<open>
  Move assignment between two different objects; assigning an object to itself is the
  guarded case, in which it stays as it is.
\<close>

definition Packet_move_assign :: "Packet \<Rightarrow> Packet \<Rightarrow> Packet \<times> Packet" where
  "Packet_move_assign this other =
     (this\<lparr>m_Data := m_Data other, m_Size := m_Size other, m_PacketType := m_PacketType other,
           m_OwnBuffer := m_OwnBuffer other\<rparr>,
      other\<lparr>m_Data := NullPtr, m_Size := 0, m_PacketType := 0, m_OwnBuffer := None\<rparr>)"

definition Packet_move_assign_self :: "Packet \<Rightarrow> Packet" where
  "Packet_move_assign_self this = this"

text \<open>The deep copy that the copy constructor and copy assignment share.\<close>

definition Packet_copy :: "Packet \<Rightarrow> Packet res" where
  "Packet_copy other =
     (if m_Data other \<noteq> NullPtr \<and> 0 < m_Size other
      then bindR (the_or NullDeref (Packet_bytes other)) (\<lambda>bs.
           bindR (memcpy (replicate (unat (m_Size other)) 0) 0 bs (uint (m_Size other))) (\<lambda>buf.
           Inr \<lparr>m_Data = OwnBuffer, m_Size = m_Size other, m_PacketType = m_PacketType other,
                m_OwnBuffer = Some buf\<rparr>))
      else Inr \<lparr>m_Data = NullPtr, m_Size = m_Size other, m_PacketType = m_PacketType other,
                m_OwnBuffer = None\<rparr>)"

definition Packet_copy_assign :: "Packet \<Rightarrow> Packet \<Rightarrow> Packet res" where
  "Packet_copy_assign this other =
     (let this1 = this\<lparr>m_Size := m_Size other, m_PacketType := m_PacketType other\<rparr>
      in if m_Data other \<noteq> NullPtr \<and> 0 < m_Size other
         then bindR (the_or NullDeref (Packet_bytes other)) (\<lambda>bs.
              bindR (memcpy (replicate (unat (m_Size other)) 0) 0 bs (uint (m_Size other))) (\<lambda>buf.
              Inr (this1\<lparr>m_OwnBuffer := Some buf, m_Data := OwnBuffer\<rparr>)))
         else Inr (this1\<lparr>m_Data := NullPtr, m_OwnBuffer := None\<rparr>))"

definition Packet_IsValid :: "Packet \<Rightarrow> bool" where
  "Packet_IsValid p \<longleftrightarrow> m_Data p \<noteq> NullPtr \<and> 0 < m_Size p"

definition Packet_SetExternalData :: "byte list \<Rightarrow> uint32 \<Rightarrow> uint32 \<Rightarrow> Packet \<Rightarrow> Packet" where
  "Packet_SetExternalData dat sz ty p =
     p\<lparr>m_OwnBuffer := None, m_Data := External dat, m_Size := sz, m_PacketType := ty\<rparr>"

text \<open>
  Well-formed: the data pointer points at as many bytes as \<open>m_Size\<close> says, and an object
  owns an array exactly when its data pointer points into it.
\<close>

definition packet_wf :: "Packet \<Rightarrow> bool" where
  "packet_wf p \<longleftrightarrow>
     (case m_Data p of
        NullPtr \<Rightarrow> m_OwnBuffer p = None
      | OwnBuffer \<Rightarrow> (\<exists>bs. m_OwnBuffer p = Some bs \<and> length bs = unat (m_Size p))
      | External bs \<Rightarrow> m_OwnBuffer p = None \<and> length bs = unat (m_Size p))"

text \<open>What the network sees of a packet: the bytes it would write.\<close>

definition Packet_view :: "Packet \<Rightarrow> byte list" where
  "Packet_view p = (case Packet_bytes p of None \<Rightarrow> [] | Some bs \<Rightarrow> take (unat (m_Size p)) bs)"

lemma memcpy_fresh:
  "length bs = n \<Longrightarrow> memcpy (replicate n 0) 0 bs (int n) = Inr bs"
  by (simp add: memcpy_def overwrite_def)

lemma Packet_from_ok:
  assumes "length dat = unat sz"
  shows "Packet_from dat sz ty =
    Inr \<lparr>m_Data = OwnBuffer, m_Size = sz, m_PacketType = ty, m_OwnBuffer = Some dat\<rparr>"
  using memcpy_fresh [OF assms] by (simp add: Packet_from_def)

lemma Packet_copy_wf:
  assumes "packet_wf p" "Packet_IsValid p"
  obtains bs where "Packet_bytes p = Some bs" "length bs = unat (m_Size p)"
    "Packet_copy p = Inr \<lparr>m_Data = OwnBuffer, m_Size = m_Size p, m_PacketType = m_PacketType p,
                          m_OwnBuffer = Some bs\<rparr>"
proof -
  obtain bs where bs: "Packet_bytes p = Some bs" "length bs = unat (m_Size p)"
    using assms
    by (cases "m_Data p") (auto simp: packet_wf_def Packet_bytes_def Packet_IsValid_def)
  then show thesis
    using assms(2) memcpy_fresh [OF bs(2)]
    by (intro that [OF bs]) (simp add: Packet_copy_def Packet_IsValid_def)
qed

lemma packet_wf_copy: "packet_wf p \<Longrightarrow> Packet_copy p = Inr q \<Longrightarrow> packet_wf q"
proof (cases "Packet_IsValid p")
  case True
  assume wf: "packet_wf p" and q: "Packet_copy p = Inr q"
  from wf True obtain bs where "length bs = unat (m_Size p)"
    "Packet_copy p = Inr \<lparr>m_Data = OwnBuffer, m_Size = m_Size p, m_PacketType = m_PacketType p,
                          m_OwnBuffer = Some bs\<rparr>"
    by (rule Packet_copy_wf)
  with q show ?thesis by (auto simp: packet_wf_def)
next
  case False
  assume "Packet_copy p = Inr q"
  with False show ?thesis by (auto simp: Packet_copy_def Packet_IsValid_def packet_wf_def)
qed

lemma packet_wf_simps [simp]:
  "packet_wf Packet_empty"
  "packet_wf (snd (Packet_move p))"
  "packet_wf p \<Longrightarrow> packet_wf (fst (Packet_move p))"
  "packet_wf p \<Longrightarrow> packet_wf (fst (Packet_move_assign q p))"
  "packet_wf (snd (Packet_move_assign q p))"
  "length dat = unat sz \<Longrightarrow> packet_wf (Packet_SetExternalData dat sz ty p)"
  by (simp_all add: packet_wf_def Packet_empty_def Packet_move_def Packet_move_assign_def
      Packet_SetExternalData_def split: data_ptr.splits)

lemma Packet_view_move_assign [simp]:
  "Packet_view (fst (Packet_move_assign q p)) = Packet_view p"
  by (simp add: Packet_view_def Packet_bytes_def Packet_move_assign_def
      split: data_ptr.split option.split)

lemma Packet_view_copy:
  assumes "packet_wf p" "Packet_copy p = Inr q"
  shows "Packet_view q = Packet_view p"
proof (cases "Packet_IsValid p")
  case True
  with assms(1) obtain bs where bs: "Packet_bytes p = Some bs"
    "Packet_copy p = Inr \<lparr>m_Data = OwnBuffer, m_Size = m_Size p, m_PacketType = m_PacketType p,
                          m_OwnBuffer = Some bs\<rparr>"
    by (rule Packet_copy_wf)
  with assms(2) have "m_Size q = m_Size p" "Packet_bytes q = Some bs"
    by (auto simp: Packet_bytes_def)
  with bs(1) show ?thesis by (simp add: Packet_view_def)
next
  case False
  then have "m_Data p = NullPtr \<or> m_Size p = 0"
    by (auto simp: Packet_IsValid_def word_neq_0_conv)
  with assms show ?thesis
    by (auto simp: Packet_copy_def Packet_view_def Packet_bytes_def split: data_ptr.splits option.splits)
qed

lemma Packet_copy_assign_eq:
  assumes "packet_wf p" "Packet_copy p = Inr q"
  shows "Packet_copy_assign r p = Inr q"
  using assms(2)
  by (cases r) (auto simp: Packet_copy_assign_def Packet_copy_def Let_def bindR_Inr_iff split: if_splits)

section \<open>Copies and moves together\<close>

text \<open>
  Copying a sound packet never faults, and yields a sound packet with the same bytes and
  type; copy construction and copy assignment agree; a moved-from packet is empty and the
  target of a move has the bytes.
\<close>

lemma packet_copy_move:
  assumes "packet_wf p"
  shows "\<exists>q. Packet_copy p = Inr q \<and> packet_wf q \<and> Packet_view q = Packet_view p
    \<and> m_PacketType q = m_PacketType p \<and> Packet_copy_assign r p = Inr q
    \<and> Packet_view (fst (Packet_move_assign r p)) = Packet_view p
    \<and> snd (Packet_move_assign r p) = Packet_empty \<and> snd (Packet_move p) = Packet_empty"
proof -
  have "\<exists>q. Packet_copy p = Inr q \<and> m_PacketType q = m_PacketType p"
  proof (cases "Packet_IsValid p")
    case True
    with assms show ?thesis by (rule Packet_copy_wf) simp
  next
    case False
    then show ?thesis by (auto simp: Packet_copy_def Packet_IsValid_def)
  qed
  then obtain q where q: "Packet_copy p = Inr q" "m_PacketType q = m_PacketType p" by blast
  have "snd (Packet_move_assign r p) = Packet_empty" "snd (Packet_move p) = Packet_empty"
    by (cases p; simp add: Packet_move_assign_def Packet_empty_def Packet_move_def)+
  with q show ?thesis
    using packet_wf_copy [OF assms q(1)] Packet_view_copy [OF assms q(1)]
      Packet_copy_assign_eq [OF assms q(1)] by simp
qed

end
