(* ===== verification/Containers.thy ===== *)
theory Containers
  imports YJ_Prelude
begin

text \<open>
  The containers of the standard library and of PPL that the sources keep their state in,
  and the interfaces through which the components use them.

  \<^item> \<^verbatim>\<open>std::map\<close> is an association list with strictly increasing keys, so that a
    range-based \<^verbatim>\<open>for\<close> is a traversal of the list; \<^verbatim>\<open>std::multimap\<close> is one with weakly
    increasing keys, where \<^verbatim>\<open>emplace\<close> goes behind the entries with an equal key.
  \<^item> \<^verbatim>\<open>std::unordered_map\<close>, which the code never iterates over, is a map \<open>'k \<rightharpoonup> 'v\<close>.
  \<^item> \<^verbatim>\<open>Concurrency::concurrent_queue\<close> is a list, pushed at the end and popped at the front.
\<close>

section \<open>Interface: dictionaries\<close>

locale dictionary =
  fixes dict_inv :: "'m \<Rightarrow> bool"
    and dict_find :: "'m \<Rightarrow> 'k \<Rightarrow> 'v option"
    and dict_put :: "'k \<Rightarrow> 'v \<Rightarrow> 'm \<Rightarrow> 'm"
    and dict_erase :: "'k \<Rightarrow> 'm \<Rightarrow> 'm"
  assumes find_put: "dict_inv m \<Longrightarrow> dict_find (dict_put k v m) k' = (if k' = k then Some v else dict_find m k')"
    and find_erase: "dict_inv m \<Longrightarrow> dict_find (dict_erase k m) k' = (if k' = k then None else dict_find m k')"
    and inv_put: "dict_inv m \<Longrightarrow> dict_inv (dict_put k v m)"
    and inv_erase: "dict_inv m \<Longrightarrow> dict_inv (dict_erase k m)"
begin

text \<open>
  A registry adds an entry only under a new key, as \<^verbatim>\<open>find\<close> followed by \<^verbatim>\<open>insert\<close>, or
  \<^verbatim>\<open>emplace\<close> does. The lemmas are about a whole sequence of registrations and removals.
\<close>

definition register :: "'k \<Rightarrow> 'v \<Rightarrow> 'm \<Rightarrow> 'm" where
  "register k v m = (if dict_find m k = None then dict_put k v m else m)"

lemma find_register:
  "dict_inv m \<Longrightarrow> dict_find (register k v m) k' =
     (if k' = k \<and> dict_find m k = None then Some v else dict_find m k')"
  by (auto simp: register_def find_put)

lemma inv_register: "dict_inv m \<Longrightarrow> dict_inv (register k v m)"
  by (simp add: register_def inv_put)

lemma register_keeps: "dict_inv m \<Longrightarrow> dict_find m k' = Some v' \<Longrightarrow> dict_find (register k v m) k' = Some v'"
  by (auto simp: find_register)

lemma find_register_erase:
  "dict_inv m \<Longrightarrow> dict_find m k = None \<Longrightarrow> dict_find (dict_erase k (register k v m)) = dict_find m"
  by (auto simp: fun_eq_iff find_erase find_register inv_register)

lemma register_after_erase:
  "dict_inv m \<Longrightarrow> dict_find (register k v (dict_erase k m)) k = Some v"
  by (simp add: find_register find_erase inv_erase)

end

section \<open>Interface: work queues\<close>

text \<open>
  A producer submits items while the queue is open; a worker takes the oldest. The client
  lemmas say that a queue hands items out in the order they came in and loses none.
\<close>

locale work_queue =
  fixes wq_open :: "'q \<Rightarrow> bool"
    and wq_submit :: "'a \<Rightarrow> 'q \<Rightarrow> 'q"
    and wq_take :: "'q \<Rightarrow> ('a \<times> 'q) option"
    and wq_backlog :: "'q \<Rightarrow> 'a list"
  assumes submit_open: "wq_open q \<Longrightarrow> wq_backlog (wq_submit x q) = wq_backlog q @ [x]"
    and open_submit: "wq_open (wq_submit x q) = wq_open q"
    and submit_closed: "\<not> wq_open q \<Longrightarrow> wq_submit x q = q"
    and take_None: "wq_take q = None \<longleftrightarrow> wq_backlog q = []"
    and take_Some: "wq_take q = Some (x, q') \<Longrightarrow> wq_backlog q = x # wq_backlog q'"
begin

definition submit_all :: "'a list \<Rightarrow> 'q \<Rightarrow> 'q" where
  "submit_all xs q = fold wq_submit xs q"

fun take_n :: "nat \<Rightarrow> 'q \<Rightarrow> 'a list \<times> 'q" where
  "take_n 0 q = ([], q)"
| "take_n (Suc n) q =
     (case wq_take q of None \<Rightarrow> ([], q)
      | Some (x, q') \<Rightarrow> (let (xs, q'') = take_n n q' in (x # xs, q'')))"

lemma submit_all_open: "wq_open (submit_all xs q) = wq_open q"
  by (induction xs arbitrary: q) (simp_all add: submit_all_def open_submit)

lemma backlog_submit_all: "wq_open q \<Longrightarrow> wq_backlog (submit_all xs q) = wq_backlog q @ xs"
  by (induction xs arbitrary: q) (simp_all add: submit_all_def open_submit submit_open)

lemma submit_all_closed: "\<not> wq_open q \<Longrightarrow> submit_all xs q = q"
  by (induction xs) (simp_all add: submit_all_def submit_closed)

lemma take_n_prefix:
  "fst (take_n n q) = take n (wq_backlog q)
   \<and> wq_backlog (snd (take_n n q)) = drop n (wq_backlog q)"
proof (induction n arbitrary: q)
  case 0
  show ?case by simp
next
  case (Suc n)
  show ?case
  proof (cases "wq_take q")
    case None
    then have "wq_backlog q = []" by (simp add: take_None)
    with None show ?thesis by simp
  next
    case (Some p)
    then obtain x q' where p: "wq_take q = Some (x, q')" by (cases p) auto
    from Suc.IH [of q'] take_Some [OF p] p show ?thesis
      by (cases "take_n n q'") simp
  qed
qed

lemma fifo: "wq_open q \<Longrightarrow> wq_backlog q = [] \<Longrightarrow> fst (take_n (length xs) (submit_all xs q)) = xs"
  by (simp add: take_n_prefix backlog_submit_all)

end

section \<open>\<^verbatim>\<open>concurrent_queue\<close>\<close>

definition cq_push :: "'a \<Rightarrow> 'a list \<Rightarrow> 'a list" where
  "cq_push x q = q @ [x]"

fun cq_try_pop :: "'a list \<Rightarrow> ('a \<times> 'a list) option" where
  "cq_try_pop [] = None"
| "cq_try_pop (x # xs) = Some (x, xs)"

lemma cq_try_pop_None [simp]: "cq_try_pop q = None \<longleftrightarrow> q = []"
  by (cases q) simp_all

lemma cq_try_pop_Some [simp]: "cq_try_pop q = Some (x, q') \<longleftrightarrow> q = x # q'"
  by (cases q) auto

section \<open>\<^verbatim>\<open>std::map\<close> and \<^verbatim>\<open>std::multimap\<close>\<close>

definition omap_inv :: "('k::linorder \<times> 'v) list \<Rightarrow> bool" where
  "omap_inv m \<longleftrightarrow> sorted_wrt (<) (map fst m)"

fun omap_put :: "'k::linorder \<Rightarrow> 'v \<Rightarrow> ('k \<times> 'v) list \<Rightarrow> ('k \<times> 'v) list" where
  "omap_put k v [] = [(k, v)]"
| "omap_put k v ((a, b) # m) =
     (if k < a then (k, v) # (a, b) # m
      else if k = a then (k, v) # m
      else (a, b) # omap_put k v m)"

definition omap_erase :: "'k \<Rightarrow> ('k \<times> 'v) list \<Rightarrow> ('k \<times> 'v) list" where
  "omap_erase k m = filter (\<lambda>e. fst e \<noteq> k) m"

definition mmap_inv :: "('k::linorder \<times> 'v) list \<Rightarrow> bool" where
  "mmap_inv m \<longleftrightarrow> sorted (map fst m)"

definition mmap_emplace :: "'k::linorder \<Rightarrow> 'v \<Rightarrow> ('k \<times> 'v) list \<Rightarrow> ('k \<times> 'v) list" where
  "mmap_emplace k v m =
     takeWhile (\<lambda>e. fst e \<le> k) m @ (k, v) # dropWhile (\<lambda>e. fst e \<le> k) m"

lemma set_fst_omap_put [simp]: "fst ` set (omap_put k v m) = insert k (fst ` set m)"
  by (induction k v m rule: omap_put.induct) auto

lemma omap_inv_put: "omap_inv m \<Longrightarrow> omap_inv (omap_put k v m)"
  unfolding omap_inv_def
proof (induction k v m rule: omap_put.induct)
  case (2 k v a b m)
  have "\<forall>x \<in> fst ` set (omap_put k v m). a < x" if "a < k"
    using "2.prems" that by auto
  with 2 show ?case by auto
qed simp

lemma omap_inv_erase: "omap_inv m \<Longrightarrow> omap_inv (omap_erase k m)"
  unfolding omap_inv_def omap_erase_def
  by (induction m) auto

lemma map_of_notin_omap: "\<forall>x \<in> set m. k < fst x \<Longrightarrow> map_of m (k::'k::linorder) = None"
  by (auto simp: map_of_eq_None_iff)

lemma map_of_omap_put:
  "omap_inv m \<Longrightarrow> map_of (omap_put k v m) k' = (if k' = k then Some v else map_of m k')"
  by (induction k v m rule: omap_put.induct) (auto simp: omap_inv_def)

lemma map_of_omap_erase [simp]:
  "map_of (omap_erase k m) k' = (if k' = k then None else map_of m k')"
  by (induction m) (auto simp: omap_erase_def)

interpretation std_map: dictionary omap_inv map_of omap_put omap_erase
  by unfold_locales (auto simp: map_of_omap_put omap_inv_put omap_inv_erase)

interpretation hash_map: dictionary "\<lambda>_. True" "\<lambda>m. m" "\<lambda>k v m. m(k \<mapsto> v)" "\<lambda>k m. m(k := None)"
  by unfold_locales auto

lemma set_mmap_emplace: "set (mmap_emplace k v m) = insert (k, v) (set m)"
proof -
  have "set m = set (takeWhile (\<lambda>e. fst e \<le> k) m) \<union> set (dropWhile (\<lambda>e. fst e \<le> k) m)"
    by (metis set_append takeWhile_dropWhile_id)
  then show ?thesis by (auto simp: mmap_emplace_def)
qed

lemma length_mmap_emplace [simp]: "length (mmap_emplace k v m) = Suc (length m)"
proof -
  have "length m = length (takeWhile (\<lambda>e. fst e \<le> k) m) + length (dropWhile (\<lambda>e. fst e \<le> k) m)"
    by (metis length_append takeWhile_dropWhile_id)
  then show ?thesis by (simp add: mmap_emplace_def)
qed

lemma mmap_inv_emplace: "mmap_inv m \<Longrightarrow> mmap_inv (mmap_emplace k v m)"
proof (induction m)
  case (Cons e m)
  from Cons.prems have m: "mmap_inv m" and e: "\<forall>x \<in> fst ` set m. fst e \<le> x"
    by (simp_all add: mmap_inv_def)
  show ?case
  proof (cases "fst e \<le> k")
    case True
    have "mmap_emplace k v (e # m) = e # mmap_emplace k v m"
      using True by (simp add: mmap_emplace_def)
    with Cons.IH [OF m] e True show ?thesis
      by (auto simp: mmap_inv_def set_mmap_emplace)
  next
    case False
    with m e show ?thesis
      by (fastforce simp: mmap_emplace_def mmap_inv_def)
  qed
qed (simp add: mmap_emplace_def mmap_inv_def)

lemma mmap_inv_erase: "mmap_inv m \<Longrightarrow> mmap_inv (omap_erase k m)"
  unfolding mmap_inv_def omap_erase_def
  by (induction m) auto

text \<open>With every key equal, \<^verbatim>\<open>emplace\<close> appends: a multimap under one key is a list.\<close>

lemma mmap_emplace_same_key: "\<forall>e \<in> set m. fst e \<le> k \<Longrightarrow> mmap_emplace k v m = m @ [(k, v)]"
  by (simp add: mmap_emplace_def takeWhile_eq_all_conv [THEN iffD2] dropWhile_eq_Nil_conv [THEN iffD2])

end
