(* ===== verification/Packet_Pool.thy ===== *)
theory Packet_Pool
  imports Packet_Object Containers
begin

text \<open>
  \<^verbatim>\<open>ServerCore/Pool.h\<close>: the object pool that \<^verbatim>\<open>main\<close> fills with game sessions, and the packet
  pool from which \<^verbatim>\<open>AsioSession::Send\<close> and \<^verbatim>\<open>MakePacket\<close> take packets.
\<close>

section \<open>\<^verbatim>\<open>ObjectPool\<close>\<close>

text \<open>
  The pool is a stack of pooled objects. \<open>dbg\<close> says whether the logger writes debug records
  (\<^verbatim>\<open>main\<close> initialises it so): \<^verbatim>\<open>LOGD << ... << GetSize()\<close> evaluates its arguments only then, and
  \<^verbatim>\<open>GetSize\<close> locks the mutex that \<^verbatim>\<open>Pop\<close> holds. \<open>mk\<close> is \<^verbatim>\<open>new T()\<close>. The custom deleter of the
  pointer that \<^verbatim>\<open>Pop\<close> returns is \<^verbatim>\<open>Push\<close>.
\<close>

type_synonym 'a ObjectPool = "'a list"

definition ObjectPool_InitPool :: "(nat \<Rightarrow> 'a) \<Rightarrow> nat \<Rightarrow> 'a ObjectPool \<Rightarrow> 'a ObjectPool" where
  "ObjectPool_InitPool mk n pool = rev (map mk [0..<n]) @ pool"

definition ObjectPool_GetSize :: "bool \<Rightarrow> 'a ObjectPool \<Rightarrow> nat res" where
  "ObjectPool_GetSize locked pool = (if locked then Inl SelfDeadlock else Inr (length pool))"

definition ObjectPool_Pop :: "bool \<Rightarrow> 'a \<Rightarrow> 'a ObjectPool \<Rightarrow> ('a \<times> 'a ObjectPool) res" where
  "ObjectPool_Pop dbg fresh pool =
     (case pool of
        obj # rest \<Rightarrow> Inr (obj, rest)
      | [] \<Rightarrow> if dbg then bindR (ObjectPool_GetSize True pool) (\<lambda>_. Inr (fresh, pool))
              else Inr (fresh, pool))"

definition ObjectPool_Push :: "'a \<Rightarrow> 'a ObjectPool \<Rightarrow> 'a ObjectPool" where
  "ObjectPool_Push obj pool = obj # pool"

fun ObjectPool_Clean :: "'a ObjectPool \<Rightarrow> 'a ObjectPool" where
  "ObjectPool_Clean pool = (case pool of [] \<Rightarrow> pool | _ # rest \<Rightarrow> ObjectPool_Clean rest)"

declare ObjectPool_Clean.simps [simp del]

lemma ObjectPool_Clean_Nil [simp]: "ObjectPool_Clean pool = []"
  by (induction pool) (simp_all add: ObjectPool_Clean.simps)

lemma ObjectPool_Pop_Push: "ObjectPool_Pop dbg fresh (ObjectPool_Push obj pool) = Inr (obj, pool)"
  by (simp add: ObjectPool_Pop_def ObjectPool_Push_def)

lemma ObjectPool_Pop_empty: "ObjectPool_Pop True fresh [] = Inl SelfDeadlock"
  by (simp add: ObjectPool_Pop_def ObjectPool_GetSize_def)

text \<open>Taking \<open>k\<close> objects out of a pool, as \<open>k\<close> accepted connections do.\<close>

fun ObjectPool_Pop_many :: "bool \<Rightarrow> 'a \<Rightarrow> nat \<Rightarrow> 'a ObjectPool \<Rightarrow> ('a list \<times> 'a ObjectPool) res" where
  "ObjectPool_Pop_many dbg fresh 0 pool = Inr ([], pool)"
| "ObjectPool_Pop_many dbg fresh (Suc k) pool =
     bindR (ObjectPool_Pop dbg fresh pool) (\<lambda>(obj, pool').
     bindR (ObjectPool_Pop_many dbg fresh k pool') (\<lambda>(objs, pool'').
     Inr (obj # objs, pool'')))"

lemma ObjectPool_Pop_many_pooled:
  "k \<le> length pool \<Longrightarrow> ObjectPool_Pop_many dbg fresh k pool = Inr (take k pool, drop k pool)"
proof (induction k arbitrary: pool)
  case (Suc k)
  then show ?case by (cases pool) (simp_all add: ObjectPool_Pop_def)
qed simp

lemma ObjectPool_Pop_many_exhausted:
  "length pool < k \<Longrightarrow> ObjectPool_Pop_many True fresh k pool = Inl SelfDeadlock"
proof (induction k arbitrary: pool)
  case (Suc k)
  then show ?case by (cases pool) (simp_all add: ObjectPool_Pop_def ObjectPool_GetSize_def)
qed simp

section \<open>\<^verbatim>\<open>PacketPool\<close>\<close>

text \<open>
  The queue holds packet objects by value: an object that was popped is only reachable
  through the pointer that \<^verbatim>\<open>Pop\<close> returned. The three counters are \<^verbatim>\<open>size_t\<close>.
\<close>

record PacketPool =
  m_PacketPool :: "Packet list"
  m_UseConut :: uint64
  m_TotalCount :: uint64
  m_AvailableCount :: uint64
  m_PoolSize :: uint32

definition PacketPool_new :: PacketPool where
  "PacketPool_new =
     \<lparr>m_PacketPool = [], m_UseConut = 0, m_TotalCount = 0, m_AvailableCount = 0, m_PoolSize = 0\<rparr>"

definition PacketPool_Init_step :: "PacketPool \<Rightarrow> PacketPool" where
  "PacketPool_Init_step p =
     p\<lparr>m_PacketPool := cq_push Packet_empty (m_PacketPool p),
       m_TotalCount := m_TotalCount p + 1, m_AvailableCount := m_AvailableCount p + 1\<rparr>"

definition PacketPool_Init :: "uint32 \<Rightarrow> PacketPool \<Rightarrow> bool \<times> PacketPool" where
  "PacketPool_Init poolSize p =
     (let p' = (PacketPool_Init_step ^^ unat poolSize) (p\<lparr>m_PoolSize := poolSize\<rparr>)
      in (0 < m_TotalCount p', p'))"

definition PacketPool_Pop :: "PacketPool \<Rightarrow> Packet \<times> PacketPool" where
  "PacketPool_Pop p =
     (case cq_try_pop (m_PacketPool p) of
        Some (packet, rest) \<Rightarrow>
          (packet, p\<lparr>m_PacketPool := rest, m_UseConut := m_UseConut p + 1,
                     m_AvailableCount := m_AvailableCount p - 1\<rparr>)
      | None \<Rightarrow>
          (Packet_empty, p\<lparr>m_TotalCount := m_TotalCount p + 1, m_UseConut := m_UseConut p + 1\<rparr>))"

definition PacketPool_Push :: "Packet option \<Rightarrow> PacketPool \<Rightarrow> PacketPool" where
  "PacketPool_Push packet p =
     (case packet of
        None \<Rightarrow> p
      | Some pk \<Rightarrow>
          let p1 = (if m_AvailableCount p < ucast (m_PoolSize p)
                    then p\<lparr>m_PacketPool := cq_push pk (m_PacketPool p),
                           m_AvailableCount := m_AvailableCount p - 1\<rparr>
                    else p)
          in p1\<lparr>m_UseConut := m_UseConut p1 - 1\<rparr>)"

fun drain_packets :: "Packet list \<Rightarrow> int \<Rightarrow> Packet list \<times> int" where
  "drain_packets q count =
     (case cq_try_pop q of None \<Rightarrow> (q, count) | Some (_, rest) \<Rightarrow> drain_packets rest (i32 (count + 1)))"

definition PacketPool_Clear :: "PacketPool \<Rightarrow> PacketPool" where
  "PacketPool_Clear p =
     p\<lparr>m_PacketPool := fst (drain_packets (m_PacketPool p) 0), m_TotalCount := 0, m_UseConut := 0,
       m_AvailableCount := 0\<rparr>"

declare drain_packets.simps [simp del]

lemma drain_packets_Nil: "fst (drain_packets q c) = []"
  by (induction q arbitrary: c) (simp_all add: drain_packets.simps)

lemma PacketPool_Clear_eq:
  "PacketPool_Clear p = PacketPool_new\<lparr>m_PoolSize := m_PoolSize p\<rparr>"
  by (cases p) (simp add: PacketPool_Clear_def PacketPool_new_def drain_packets_Nil)

lemma Init_steps:
  "(PacketPool_Init_step ^^ n) p =
     p\<lparr>m_PacketPool := m_PacketPool p @ replicate n Packet_empty,
       m_TotalCount := m_TotalCount p + of_nat n,
       m_AvailableCount := m_AvailableCount p + of_nat n\<rparr>"
  by (induction n)
    (simp_all add: PacketPool_Init_step_def cq_push_def replicate_append_same [symmetric] ac_simps)

lemma PacketPool_Init_new:
  "snd (PacketPool_Init n PacketPool_new) =
     \<lparr>m_PacketPool = replicate (unat n) Packet_empty, m_UseConut = 0, m_TotalCount = ucast n,
      m_AvailableCount = ucast n, m_PoolSize = n\<rparr>"
  by (simp add: PacketPool_Init_def Init_steps PacketPool_new_def Let_def)

section \<open>What the pool does over its life\<close>

text \<open>
  A round takes a packet and gives it back. \<open>pool_state p l a\<close>: the pool holds \<open>l\<close> packets and
  its available counter, read as a signed number, is \<open>a\<close>.
\<close>

definition pool_round :: "PacketPool \<Rightarrow> PacketPool" where
  "pool_round p = (let (pk, p') = PacketPool_Pop p in PacketPool_Push (Some pk) p')"

definition pool_state :: "PacketPool \<Rightarrow> nat \<Rightarrow> int \<Rightarrow> bool" where
  "pool_state p l a \<longleftrightarrow> length (m_PacketPool p) = l \<and> m_AvailableCount p = word_of_int a"

fun pool_abs :: "nat \<times> int \<Rightarrow> nat \<times> int" where
  "pool_abs (l, a) = (if l = 0 then (l, a) else if 1 \<le> a then (l, a - 2) else (l - 1, a - 1))"

lemma uint64_less_u32:
  assumes "- 17179869184 \<le> a" "a < 4294967296"
  shows "(word_of_int a :: uint64) < ucast (n :: uint32) \<longleftrightarrow> 0 \<le> a \<and> a < uint n"
proof -
  have n: "uint (ucast n :: uint64) = uint n" by (rule uint_up_ucast) (simp add: is_up)
  have b: "uint n < 4294967296" by (rule uint_u32_less)
  have "uint (word_of_int a :: uint64) = (if 0 \<le> a then a else a + 18446744073709551616)"
  proof (cases "0 \<le> a")
    case True
    with assms show ?thesis by (simp add: uint_word_of_int)
  next
    case False
    have "a mod 18446744073709551616 = (a + 18446744073709551616) mod 18446744073709551616"
      by simp
    also have "\<dots> = a + 18446744073709551616"
      using assms False by (intro mod_pos_pos_trivial) auto
    finally show ?thesis using False by (simp add: uint_word_of_int)
  qed
  with assms b n show ?thesis by (auto simp: word_less_def)
qed

lemma pool_round_abs:
  assumes st: "pool_state p l a" and a: "- 17179869184 < a" "a \<le> uint (m_PoolSize p)"
    and l0: "l = 0 \<Longrightarrow> a < 0"
  shows "pool_state (pool_round p) (fst (pool_abs (l, a))) (snd (pool_abs (l, a)))
    \<and> m_PoolSize (pool_round p) = m_PoolSize p"
proof -
  have b: "uint (m_PoolSize p) < 4294967296" by (rule uint_u32_less)
  show ?thesis
  proof (cases "m_PacketPool p")
    case Nil
    with st have "l = 0" by (simp add: pool_state_def)
    with l0 have "\<not> (word_of_int a :: uint64) < ucast (m_PoolSize p)"
      using a b by (subst uint64_less_u32) auto
    with Nil st \<open>l = 0\<close> show ?thesis
      by (simp add: pool_round_def PacketPool_Pop_def PacketPool_Push_def pool_state_def)
  next
    case (Cons x xs)
    with st have l: "l = Suc (length xs)" by (simp add: pool_state_def)
    have av: "m_AvailableCount p - 1 = word_of_int (a - 1)"
      using st by (simp add: pool_state_def wi_hom_sub [symmetric])
    have lt: "(word_of_int (a - 1) :: uint64) < ucast (m_PoolSize p) \<longleftrightarrow> 1 \<le> a"
      using a b by (subst uint64_less_u32) auto
    have av2: "(word_of_int (a - 1) :: uint64) - 1 = word_of_int (a - 2)"
      by (simp add: wi_hom_sub [symmetric])
    show ?thesis
      using Cons l lt av2
      by (simp add: pool_round_def PacketPool_Pop_def PacketPool_Push_def pool_state_def av cq_push_def)
  qed
qed

definition pool_abs_inv :: "int \<Rightarrow> nat \<times> int \<Rightarrow> bool" where
  "pool_abs_inv n = (\<lambda>(l, a). 0 \<le> n \<and> n < 4294967296 \<and> int l \<le> n \<and> a \<le> n \<and> (l = 0 \<longrightarrow> a < 0)
     \<and> (1 \<le> a \<longrightarrow> int l = n) \<and> int l - n - 2 \<le> a)"

lemma pool_abs_inv_step: "pool_abs_inv n s \<Longrightarrow> pool_abs_inv n (pool_abs s)"
  by (cases s) (auto simp: pool_abs_inv_def)

lemma pool_abs_empty: "(pool_abs ^^ k) (0, a) = (0, a)"
  by (induction k) simp_all

lemma pool_abs_drains: "fst s + nat (snd s) \<le> k \<Longrightarrow> fst ((pool_abs ^^ k) s) = 0"
proof (induction k arbitrary: s)
  case 0
  then show ?case by simp
next
  case (Suc k)
  obtain l a where s: "s = (l, a)" by (cases s)
  show ?case
  proof (cases "l = 0")
    case True
    then show ?thesis using pool_abs_empty [of "Suc k" a] s by simp
  next
    case False
    then have "fst (pool_abs s) + nat (snd (pool_abs s)) \<le> k"
      using Suc.prems s by auto
    from Suc.IH [OF this] show ?thesis by (simp add: funpow_Suc_right del: funpow.simps)
  qed
qed

lemma pool_rounds_abs:
  assumes "pool_state p l a" "pool_abs_inv (uint (m_PoolSize p)) (l, a)"
  shows "pool_state ((pool_round ^^ k) p) (fst ((pool_abs ^^ k) (l, a))) (snd ((pool_abs ^^ k) (l, a)))
    \<and> pool_abs_inv (uint (m_PoolSize p)) ((pool_abs ^^ k) (l, a))
    \<and> m_PoolSize ((pool_round ^^ k) p) = m_PoolSize p"
proof (induction k)
  case 0
  with assms show ?case by simp
next
  case (Suc k)
  let ?p = "(pool_round ^^ k) p" and ?s = "(pool_abs ^^ k) (l, a)"
  from Suc have st: "pool_state ?p (fst ?s) (snd ?s)" and size: "m_PoolSize ?p = m_PoolSize p"
    and inv: "pool_abs_inv (uint (m_PoolSize p)) ?s" by simp_all
  from inv have "- 17179869184 < snd ?s" "snd ?s \<le> uint (m_PoolSize ?p)" "fst ?s = 0 \<Longrightarrow> snd ?s < 0"
    by (auto simp: pool_abs_inv_def size split: prod.splits)
  from pool_round_abs [OF st this] pool_abs_inv_step [OF inv] show ?case
    by (simp add: size)
qed

text \<open>Outstanding packets: what \<^verbatim>\<open>Pop\<close> handed out and \<^verbatim>\<open>Push\<close> did not take back.\<close>

datatype pool_op = Pool_take | Pool_give Packet

fun pool_step :: "pool_op \<Rightarrow> PacketPool \<Rightarrow> PacketPool" where
  "pool_step Pool_take p = snd (PacketPool_Pop p)"
| "pool_step (Pool_give pk) p = PacketPool_Push (Some pk) p"

definition outstanding :: "pool_op list \<Rightarrow> int" where
  "outstanding ops = (\<Sum>op \<leftarrow> ops. case op of Pool_take \<Rightarrow> 1 | Pool_give _ \<Rightarrow> - 1)"

lemma UseCount_step:
  "m_UseConut (pool_step op p) =
     m_UseConut p + word_of_int (case op of Pool_take \<Rightarrow> 1 | Pool_give _ \<Rightarrow> - 1)"
  by (cases op) (auto simp: PacketPool_Pop_def PacketPool_Push_def Let_def split: option.split)

lemma UseCount_fold:
  "m_UseConut (fold pool_step ops p) = m_UseConut p + word_of_int (outstanding ops)"
proof (induction ops arbitrary: p)
  case (Cons op ops)
  then show ?case
    by (simp add: UseCount_step outstanding_def wi_hom_add [symmetric] add.assoc del: wi_hom_syms)
qed (simp add: outstanding_def)

section \<open>Properties\<close>

text \<open>
  C38. The packet pool drains: \<open>Push\<close> counts down where it should count up, so that after at
  most twice as many rounds of taking a packet and giving it back as the pool was filled
  with, the queue is empty and stays empty. From then on every packet is allocated.
\<close>

theorem pool_drains:
  assumes "0 < n" "2 * unat n \<le> k"
  shows "m_PacketPool ((pool_round ^^ k) (snd (PacketPool_Init n PacketPool_new))) = []"
proof -
  define p where "p = snd (PacketPool_Init n PacketPool_new)"
  have p: "m_PoolSize p = n" "length (m_PacketPool p) = unat n" "m_AvailableCount p = ucast n"
    by (simp_all add: p_def PacketPool_Init_new)
  have st: "pool_state p (unat n) (uint n)"
    unfolding pool_state_def p(2,3) by (simp only: ucast_eq)
  have pos: "0 < uint n" using assms(1) by (simp add: word_less_def)
  have posn: "0 < unat n" using assms(1) by (simp add: word_less_nat_alt)
  have inv: "pool_abs_inv (uint (m_PoolSize p)) (unat n, uint n)"
    unfolding p(1) using uint_u32_less [of n] pos posn by (auto simp: pool_abs_inv_def)
  have "fst ((pool_abs ^^ k) (unat n, uint n)) = 0"
    using assms(2) by (intro pool_abs_drains) simp
  with pool_rounds_abs [OF st inv, of k] show ?thesis by (simp add: pool_state_def p_def)
qed

theorem pool_drains_witness:
  "m_PacketPool ((pool_round ^^ 4) (snd (PacketPool_Init 2 PacketPool_new))) = []"
  using pool_drains [of 2 4] by simp

text \<open>
  Taking more objects out of the object pool than it holds, while the logger writes
  debug records, blocks for ever: \<open>Pop\<close> locks the mutex and then logs the size, which locks it
  again. Taking at most as many yields the pooled objects, the most recent first.
\<close>

lemma object_pool_exhaustion:
  "ObjectPool_Pop_many True fresh k pool =
     (if k \<le> length pool then Inr (take k pool, drop k pool) else Inl SelfDeadlock)"
  by (simp add: ObjectPool_Pop_many_pooled ObjectPool_Pop_many_exhausted)

text \<open>
  The use counter of the packet pool counts the packets that are outstanding, modulo
  \<open>2^64\<close>, over any sequence of takes and returns.
\<close>

lemma use_count_outstanding:
  "m_UseConut (fold pool_step ops (snd (PacketPool_Init n PacketPool_new))) = word_of_int (outstanding ops)"
  by (simp add: UseCount_fold PacketPool_Init_new)

end
