(* ===== verification/Core_Types.thy ===== *)
theory Core_Types
  imports Containers
begin

text \<open>
  Types that several parts of ServerCore share: addresses of session objects, the network
  state of a session, the items of the two queues, and the counters of
  \<^verbatim>\<open>ServerCore/ServerAnalyzer.h\<close>.
\<close>

section \<open>Session addresses\<close>

text \<open>
  An \<^verbatim>\<open>AsioSessionPtr\<close> is the address of a session object. \<^verbatim>\<open>std::set<AsioSessionPtr>\<close> orders
  its elements by address, hence the order below.
\<close>

datatype session_ptr = SessionPtr (address: nat)

instantiation session_ptr :: linorder
begin

definition less_eq_session_ptr :: "session_ptr \<Rightarrow> session_ptr \<Rightarrow> bool" where
  "less_eq_session_ptr p q \<longleftrightarrow> address p \<le> address q"

definition less_session_ptr :: "session_ptr \<Rightarrow> session_ptr \<Rightarrow> bool" where
  "less_session_ptr p q \<longleftrightarrow> address p < address q"

instance
  by standard (auto simp: less_eq_session_ptr_def less_session_ptr_def intro: session_ptr.expand)

end

section \<open>Network state and queue items\<close>

datatype NetState = NetState_None | NetState_Connected | NetState_Disconnect | NetState_Reconnect

record IoTask =
  task_sessionUID :: int
  task_state :: NetState

definition IoTask_default :: IoTask where
  "IoTask_default = \<lparr>task_sessionUID = - 1, task_state = NetState_None\<rparr>"

definition IoTask_of :: "int \<Rightarrow> NetState \<Rightarrow> IoTask" where
  "IoTask_of uid st = \<lparr>task_sessionUID = uid, task_state = st\<rparr>"

text \<open>
  A \<^verbatim>\<open>BYTE*\<close> that a queue item carries points into the receive buffer that
  \<^verbatim>\<open>SessionPacketBuffer\<close> keeps for a session: the key of the buffer and an offset in it.
  The bytes are not copied.
\<close>

type_synonym buf_ptr = "int \<times> int"

record PacketQueueItem =
  item_sessionId :: int
  item_buffer :: buf_ptr
  item_len :: int

definition PacketQueueItem_of :: "int \<Rightarrow> buf_ptr \<Rightarrow> int \<Rightarrow> PacketQueueItem" where
  "PacketQueueItem_of sid buf n = \<lparr>item_sessionId = sid, item_buffer = buf, item_len = n\<rparr>"

section \<open>\<^verbatim>\<open>ServerAnalyzer\<close>\<close>

record ServerAnalyzer =
  m_SendCount :: int
  m_RecvCount :: int
  m_TotalRecvCount :: int
  m_TotalSendCount :: int

definition ServerAnalyzer_new :: ServerAnalyzer where
  "ServerAnalyzer_new =
     \<lparr>m_SendCount = 0, m_RecvCount = 0, m_TotalRecvCount = 0, m_TotalSendCount = 0\<rparr>"

definition IncrementSendCnt :: "ServerAnalyzer \<Rightarrow> ServerAnalyzer" where
  "IncrementSendCnt a =
     a\<lparr>m_SendCount := i32 (m_SendCount a + 1), m_TotalSendCount := i32 (m_TotalSendCount a + 1)\<rparr>"

definition IncrementRecvCnt :: "ServerAnalyzer \<Rightarrow> ServerAnalyzer" where
  "IncrementRecvCnt a =
     a\<lparr>m_RecvCount := i32 (m_RecvCount a + 1), m_TotalRecvCount := i32 (m_TotalRecvCount a + 1)\<rparr>"

definition ResetSendCount :: "ServerAnalyzer \<Rightarrow> ServerAnalyzer" where
  "ResetSendCount a = a\<lparr>m_SendCount := 0\<rparr>"

definition ResetRecvCount :: "ServerAnalyzer \<Rightarrow> ServerAnalyzer" where
  "ResetRecvCount a = a\<lparr>m_RecvCount := 0\<rparr>"

datatype analyzer_op = Op_IncSend | Op_IncRecv | Op_ResetSend | Op_ResetRecv

fun analyzer_step :: "analyzer_op \<Rightarrow> ServerAnalyzer \<Rightarrow> ServerAnalyzer" where
  "analyzer_step Op_IncSend a = IncrementSendCnt a"
| "analyzer_step Op_IncRecv a = IncrementRecvCnt a"
| "analyzer_step Op_ResetSend a = ResetSendCount a"
| "analyzer_step Op_ResetRecv a = ResetRecvCount a"

lemma i32_add: "i32 (i32 x + y) = i32 (x + y)"
proof -
  have "i32 x + y + 2147483648 = (x + 2147483648) mod 4294967296 + y"
    by (simp add: i32_def)
  also have "\<dots> mod 4294967296 = (x + y + 2147483648) mod 4294967296"
    by (simp add: mod_simps algebra_simps)
  finally show ?thesis by (simp add: i32_def)
qed

lemma total_recv_fold:
  "i32 (m_TotalRecvCount a) = m_TotalRecvCount a \<Longrightarrow>
   m_TotalRecvCount (fold analyzer_step ops a)
     = i32 (m_TotalRecvCount a + int (count_list ops Op_IncRecv))"
proof (induction ops arbitrary: a)
  case (Cons x xs)
  then show ?case
    by (cases x)
      (simp_all add: Cons.IH IncrementSendCnt_def IncrementRecvCnt_def ResetSendCount_def
        ResetRecvCount_def i32_add add.assoc)
qed simp

end
