(* ===== verification/Packet_Router.thy ===== *)
theory Packet_Router
  imports Core_Types
begin

text \<open>
  \<^verbatim>\<open>ServerCore/PacketRouter.h\<close> and \<^verbatim>\<open>PacketRouter.cpp\<close>: one queue and one worker thread per
  index; a session's packets all go to the queue with index \<^verbatim>\<open>sessionUID % m_NumWorkers\<close>.
\<close>

section \<open>State and operations\<close>

record PacketProcessor =
  pp_Id :: int
  pp_ProcessQueue :: nat

record PacketRouter =
  r_IsRunning :: bool
  r_NumWorkers :: int
  r_WorkerThreads :: "PacketProcessor list"
  r_PacketQueue :: "PacketQueueItem list list"
  r_CreateFunc :: bool

text \<open>
  \<open>r_CreateFunc\<close>: whether the factory is set. A worker thread is its processor; the queue a
  processor reads is \<^verbatim>\<open>m_PacketQueue[id].get()\<close>, so its index.
\<close>

definition PacketRouter_new :: PacketRouter where
  "PacketRouter_new =
     \<lparr>r_IsRunning = False, r_NumWorkers = 0, r_WorkerThreads = [], r_PacketQueue = [],
      r_CreateFunc = False\<rparr>"

definition PacketRouter_CreatePacketHandler :: "int \<Rightarrow> PacketRouter \<Rightarrow> PacketProcessor res" where
  "PacketRouter_CreatePacketHandler wid r =
     (if \<not> r_CreateFunc r then Inl BadFunctionCall
      else bindR (subscript (r_PacketQueue r) wid) (\<lambda>_.
           Inr \<lparr>pp_Id = wid, pp_ProcessQueue = nat wid\<rparr>))"

fun start_workers :: "nat \<Rightarrow> nat \<Rightarrow> PacketRouter \<Rightarrow> PacketRouter res" where
  "start_workers i 0 r = Inr r"
| "start_workers i (Suc n) r =
     bindR (PacketRouter_CreatePacketHandler (int i) r) (\<lambda>proc.
       start_workers (Suc i) n (r\<lparr>r_WorkerThreads := r_WorkerThreads r @ [proc]\<rparr>))"

text \<open>\<open>hw\<close> is \<^verbatim>\<open>std::thread::hardware_concurrency()\<close>; \<open>initfunc\<close>: whether a factory is given.\<close>

definition PacketRouter_Init :: "nat \<Rightarrow> int \<Rightarrow> bool \<Rightarrow> PacketRouter \<Rightarrow> PacketRouter res" where
  "PacketRouter_Init hw numThread initfunc r =
     (if r_IsRunning r then Inr r
      else let n = (if numThread \<le> 0
                    then let t = int (hw div 2) in if t < 1 then 1 else t
                    else numThread);
               r1 = r\<lparr>r_IsRunning := True, r_CreateFunc := initfunc, r_NumWorkers := n,
                      r_PacketQueue := r_PacketQueue r @ replicate (nat n) []\<rparr>
           in start_workers 0 (nat n) r1)"

definition PacketRouter_Shutdown :: "PacketRouter \<Rightarrow> PacketRouter" where
  "PacketRouter_Shutdown r =
     (if \<not> r_IsRunning r then r
      else r\<lparr>r_IsRunning := False, r_PacketQueue := [], r_WorkerThreads := []\<rparr>)"

text \<open>The remainder of C++ truncates towards zero; a zero divisor is a fault.\<close>

definition PacketRouter_GetWorkerIndex :: "int \<Rightarrow> PacketRouter \<Rightarrow> int res" where
  "PacketRouter_GetWorkerIndex sessionUID r =
     (if r_NumWorkers r = 0 then Inl DivByZero else Inr (sessionUID smod r_NumWorkers r))"

definition PacketRouter_Dispatch ::
    "int option \<Rightarrow> buf_ptr \<Rightarrow> int \<Rightarrow> PacketRouter \<Rightarrow> PacketRouter res" where
  "PacketRouter_Dispatch session buffer len r =
     (case session of
        None \<Rightarrow> Inr r
      | Some sessionId \<Rightarrow>
          if \<not> r_IsRunning r then Inr r
          else bindR (PacketRouter_GetWorkerIndex sessionId r) (\<lambda>workerIdx.
               bindR (subscript (r_PacketQueue r) workerIdx) (\<lambda>q.
               Inr (r\<lparr>r_PacketQueue := (r_PacketQueue r)
                        [nat workerIdx := cq_push (PacketQueueItem_of sessionId buffer len) q]\<rparr>))))"

text \<open>
  One round of \<^verbatim>\<open>PacketProcessor::Run\<close>, up to the call of the handler: stop when the router
  has stopped, sleep when the queue is empty, else the oldest item.
\<close>

datatype run_round = Run_stopped | Run_sleeps | Run_item PacketQueueItem

definition PacketProcessor_Run ::
    "PacketProcessor \<Rightarrow> PacketRouter \<Rightarrow> (run_round \<times> PacketRouter) res" where
  "PacketProcessor_Run proc r =
     (if \<not> r_IsRunning r then Inr (Run_stopped, r)
      else bindR (subscript (r_PacketQueue r) (int (pp_ProcessQueue proc))) (\<lambda>q.
           case cq_try_pop q of
             None \<Rightarrow> Inr (Run_sleeps, r)
           | Some (item, rest) \<Rightarrow>
               Inr (Run_item item,
                    r\<lparr>r_PacketQueue := (r_PacketQueue r)[pp_ProcessQueue proc := rest]\<rparr>)))"

definition PacketProcessor_HandlePacket :: bool where
  "PacketProcessor_HandlePacket = True"

section \<open>Invariant\<close>

definition router_inv :: "PacketRouter \<Rightarrow> bool" where
  "router_inv r \<longleftrightarrow>
     (if r_IsRunning r
      then 0 < r_NumWorkers r \<and> int (length (r_PacketQueue r)) = r_NumWorkers r
        \<and> r_WorkerThreads r = map (\<lambda>i. \<lparr>pp_Id = int i, pp_ProcessQueue = i\<rparr>) [0..<nat (r_NumWorkers r)]
      else r_PacketQueue r = [] \<and> r_WorkerThreads r = [])"

definition worker_of :: "PacketRouter \<Rightarrow> int \<Rightarrow> nat" where
  "worker_of r uid = nat (uid mod r_NumWorkers r)"

definition router_push :: "nat \<Rightarrow> PacketQueueItem list \<Rightarrow> PacketRouter \<Rightarrow> PacketRouter" where
  "router_push w items r =
     r\<lparr>r_PacketQueue := (r_PacketQueue r)[w := r_PacketQueue r ! w @ items]\<rparr>"

lemma smod_nonneg: "0 \<le> (a::int) \<Longrightarrow> 0 < b \<Longrightarrow> a smod b = a mod b"
  by (cases "a = 0") (simp_all add: signed_modulo_int_def)

lemma worker_of_less:
  "router_inv r \<Longrightarrow> r_IsRunning r \<Longrightarrow> worker_of r uid < length (r_PacketQueue r)"
proof -
  assume h: "router_inv r" "r_IsRunning r"
  then have p: "0 < r_NumWorkers r" and l: "int (length (r_PacketQueue r)) = r_NumWorkers r"
    by (auto simp: router_inv_def)
  from p have "0 \<le> uid mod r_NumWorkers r" "uid mod r_NumWorkers r < r_NumWorkers r" by simp_all
  with l show ?thesis unfolding worker_of_def by linarith
qed

lemma Dispatch_running:
  assumes "router_inv r" "r_IsRunning r" "0 \<le> uid"
  shows "PacketRouter_Dispatch (Some uid) buf n r =
    Inr (router_push (worker_of r uid) [PacketQueueItem_of uid buf n] r)"
proof -
  have p: "0 < r_NumWorkers r" using assms by (auto simp: router_inv_def)
  have idx: "PacketRouter_GetWorkerIndex uid r = Inr (uid mod r_NumWorkers r)"
    using p assms(3) by (simp add: PacketRouter_GetWorkerIndex_def smod_nonneg)
  have "in_vec (r_PacketQueue r) (uid mod r_NumWorkers r)"
    using worker_of_less [OF assms(1,2), of uid] p by (simp add: in_vec_def worker_of_def nat_less_iff)
  then show ?thesis
    using assms(2)
    by (simp add: PacketRouter_Dispatch_def idx subscript_def router_push_def worker_of_def cq_push_def)
qed

lemma Dispatch_stopped [simp]: "\<not> r_IsRunning r \<Longrightarrow> PacketRouter_Dispatch s buf n r = Inr r"
  by (simp add: PacketRouter_Dispatch_def split: option.split)

lemma router_push_fields [simp]:
  "r_IsRunning (router_push w is r) = r_IsRunning r"
  "r_NumWorkers (router_push w is r) = r_NumWorkers r"
  "length (r_PacketQueue (router_push w is r)) = length (r_PacketQueue r)"
  "worker_of (router_push w is r) uid = worker_of r uid"
  "router_push w [] r = r"
  by (simp_all add: router_push_def worker_of_def)

lemma router_inv_push [simp]: "router_inv (router_push w is r) = router_inv r"
  by (auto simp: router_inv_def router_push_def)

lemma router_push_append:
  "w < length (r_PacketQueue r) \<Longrightarrow>
   router_push w js (router_push w is r) = router_push w (is @ js) r"
  by (simp add: router_push_def)

lemma queue_router_push:
  "w < length (r_PacketQueue r) \<Longrightarrow>
   r_PacketQueue (router_push w is r) ! v =
     (if v = w then r_PacketQueue r ! w @ is else r_PacketQueue r ! v)"
  by (simp add: router_push_def)

text \<open>\<^verbatim>\<open>Init\<close> starts exactly one worker per queue; the default number is at least one.\<close>

lemma start_workers_ok:
  assumes "r_CreateFunc r" "i + n \<le> length (r_PacketQueue r)"
  shows "start_workers i n r =
    Inr (r\<lparr>r_WorkerThreads := r_WorkerThreads r
            @ map (\<lambda>i. \<lparr>pp_Id = int i, pp_ProcessQueue = i\<rparr>) [i..<i + n]\<rparr>)"
  using assms
proof (induction n arbitrary: i r)
  case (Suc n)
  have c: "PacketRouter_CreatePacketHandler (int i) r = Inr \<lparr>pp_Id = int i, pp_ProcessQueue = i\<rparr>"
    using Suc.prems by (simp add: PacketRouter_CreatePacketHandler_def subscript_def in_vec_def)
  have "[i..<i + Suc n] = i # [Suc i..<Suc i + n]"
    by (simp add: upt_conv_Cons)
  with Suc c show ?case by simp
qed simp

lemma router_inv_Init:
  assumes "router_inv r"
  shows "\<exists>r'. PacketRouter_Init hw k True r = Inr r' \<and> router_inv r' \<and> r_IsRunning r'"
proof (cases "r_IsRunning r")
  case True
  with assms show ?thesis by (simp add: PacketRouter_Init_def)
next
  case False
  let ?n = "if k \<le> 0 then let t = int (hw div 2) in if t < 1 then 1 else t else k"
  have n: "0 < ?n" by (simp add: Let_def)
  let ?r = "r\<lparr>r_IsRunning := True, r_CreateFunc := True, r_NumWorkers := ?n,
              r_PacketQueue := r_PacketQueue r @ replicate (nat ?n) []\<rparr>"
  have q: "r_PacketQueue r = []" "r_WorkerThreads r = []"
    using assms False by (auto simp: router_inv_def)
  have "start_workers 0 (nat ?n) ?r =
    Inr (?r\<lparr>r_WorkerThreads := r_WorkerThreads ?r
          @ map (\<lambda>i. \<lparr>pp_Id = int i, pp_ProcessQueue = i\<rparr>) [0..<0 + nat ?n]\<rparr>)"
    by (rule start_workers_ok) simp_all
  moreover have "PacketRouter_Init hw k True r = start_workers 0 (nat ?n) ?r"
    using False by (simp add: PacketRouter_Init_def Let_def)
  ultimately show ?thesis using n q by (auto simp: router_inv_def)
qed

lemma router_inv_Shutdown: "router_inv r \<Longrightarrow> router_inv (PacketRouter_Shutdown r)"
  by (simp add: router_inv_def PacketRouter_Shutdown_def)

lemma router_inv_new: "router_inv PacketRouter_new"
  by (simp add: router_inv_def PacketRouter_new_def)

lemma router_inv_Run:
  assumes "router_inv r" "PacketProcessor_Run proc r = Inr (out, r')"
  shows "router_inv r'"
proof (cases "r_IsRunning r")
  case True
  with assms(2) obtain q where
    "(case cq_try_pop q of None \<Rightarrow> Inr (Run_sleeps, r)
      | Some (item, rest) \<Rightarrow>
          Inr (Run_item item, r\<lparr>r_PacketQueue := (r_PacketQueue r)[pp_ProcessQueue proc := rest]\<rparr>))
     = (Inr (out, r') :: (run_round \<times> PacketRouter) res)"
    by (auto simp: PacketProcessor_Run_def bindR_Inr_iff)
  with assms(1) show ?thesis by (cases q) (auto simp: router_inv_def)
next
  case False
  with assms show ?thesis by (simp add: PacketProcessor_Run_def)
qed

section \<open>Each worker's queue is a work queue\<close>

definition wk_open :: "nat \<Rightarrow> PacketRouter \<Rightarrow> bool" where
  "wk_open w r \<longleftrightarrow> r_IsRunning r \<and> w < length (r_PacketQueue r)"

definition wk_submit :: "nat \<Rightarrow> PacketQueueItem \<Rightarrow> PacketRouter \<Rightarrow> PacketRouter" where
  "wk_submit w item r = (if wk_open w r then router_push w [item] r else r)"

definition wk_backlog :: "nat \<Rightarrow> PacketRouter \<Rightarrow> PacketQueueItem list" where
  "wk_backlog w r = (if w < length (r_PacketQueue r) then r_PacketQueue r ! w else [])"

definition wk_take :: "nat \<Rightarrow> PacketRouter \<Rightarrow> (PacketQueueItem \<times> PacketRouter) option" where
  "wk_take w r =
     (case cq_try_pop (wk_backlog w r) of
        None \<Rightarrow> None
      | Some (item, rest) \<Rightarrow> Some (item, r\<lparr>r_PacketQueue := (r_PacketQueue r)[w := rest]\<rparr>))"

interpretation wk: work_queue "wk_open w" "wk_submit w" "wk_take w" "wk_backlog w"
proof unfold_locales
  fix q x q'
  assume "wk_take w q = Some (x, q')"
  then show "wk_backlog w q = x # wk_backlog w q'"
    by (auto simp: wk_take_def wk_backlog_def split: option.splits if_splits)
qed (auto simp: wk_open_def wk_submit_def wk_backlog_def wk_take_def queue_router_push
      split: option.split if_split)

lemma Run_wk_take:
  "wk_open w r \<Longrightarrow> PacketProcessor_Run \<lparr>pp_Id = int w, pp_ProcessQueue = w\<rparr> r =
     Inr (case wk_take w r of None \<Rightarrow> (Run_sleeps, r) | Some (x, r') \<Rightarrow> (Run_item x, r'))"
  by (auto simp: PacketProcessor_Run_def wk_open_def wk_take_def wk_backlog_def subscript_def
      in_vec_def split: option.split)

section \<open>Properties\<close>

text \<open>A sequence of calls of \<^verbatim>\<open>Dispatch\<close>: session UID, buffer position and length.\<close>

fun dispatch_all :: "(int \<times> buf_ptr \<times> int) list \<Rightarrow> PacketRouter \<Rightarrow> PacketRouter res" where
  "dispatch_all [] r = Inr r"
| "dispatch_all ((uid, buf, n) # ds) r =
     bindR (PacketRouter_Dispatch (Some uid) buf n r) (dispatch_all ds)"

text \<open>
  C32. Packets of one session all go to one worker, in the order in which they were
  dispatched: after any sequence of dispatches, the queue of worker \<open>w\<close> has grown by exactly
  the packets of the sessions with UID congruent to \<open>w\<close> modulo the number of workers, in
  order, and every subscript was in range.
\<close>

theorem dispatch_affinity:
  assumes "router_inv r" "r_IsRunning r" "\<forall>d \<in> set ds. 0 \<le> fst d"
  shows "\<exists>r'. dispatch_all ds r = Inr r' \<and> router_inv r' \<and> r_NumWorkers r' = r_NumWorkers r
    \<and> (\<forall>w < length (r_PacketQueue r). r_PacketQueue r' ! w = r_PacketQueue r ! w
         @ map (\<lambda>(uid, buf, n). PacketQueueItem_of uid buf n)
             (filter (\<lambda>(uid, _). nat (uid mod r_NumWorkers r) = w) ds))"
  using assms
proof (induction ds arbitrary: r)
  case (Cons d ds)
  obtain uid buf n where d: "d = (uid, buf, n)" by (cases d)
  let ?w = "worker_of r uid"
  let ?r = "router_push ?w [PacketQueueItem_of uid buf n] r"
  have D: "PacketRouter_Dispatch (Some uid) buf n r = Inr ?r"
    using Cons.prems d by (intro Dispatch_running) auto
  have wl: "?w < length (r_PacketQueue r)" using worker_of_less Cons.prems by blast
  obtain r' where "dispatch_all ds ?r = Inr r'" "router_inv r'" "r_NumWorkers r' = r_NumWorkers ?r"
    "\<forall>w < length (r_PacketQueue ?r). r_PacketQueue r' ! w = r_PacketQueue ?r ! w
         @ map (\<lambda>(uid, buf, n). PacketQueueItem_of uid buf n)
             (filter (\<lambda>(uid, _). nat (uid mod r_NumWorkers ?r) = w) ds)"
    using Cons.IH [of ?r] Cons.prems by auto
  then show ?case
    using D d queue_router_push [OF wl] by (auto simp: worker_of_def)
qed simp

definition example_router :: PacketRouter where
  "example_router =
     \<lparr>r_IsRunning = True, r_NumWorkers = 2, r_WorkerThreads = [\<lparr>pp_Id = 0, pp_ProcessQueue = 0\<rparr>, \<lparr>pp_Id = 1, pp_ProcessQueue = 1\<rparr>],
      r_PacketQueue = [[], []], r_CreateFunc = True\<rparr>"

lemma example_router_inv: "router_inv example_router"
  by (simp add: router_inv_def example_router_def eval_nat_numeral)

theorem dispatch_affinity_witness:
  "\<exists>r'. dispatch_all [(3, (3, 0), 12), (4, (4, 0), 20), (3, (3, 12), 16)] example_router = Inr r'
     \<and> r_PacketQueue r' ! 1 = [PacketQueueItem_of 3 (3, 0) 12, PacketQueueItem_of 3 (3, 12) 16]"
proof -
  have "r_IsRunning example_router" "r_NumWorkers example_router = 2" "r_PacketQueue example_router = [[], []]"
    by (simp_all add: example_router_def)
  with dispatch_affinity [OF example_router_inv, of "[(3, (3, 0), 12), (4, (4, 0), 20), (3, (3, 12), 16)]"]
  show ?thesis by auto
qed

text \<open>
  Starting the router makes as many queues as workers, at least one, and gives worker
  \<open>i\<close> queue \<open>i\<close>; a second start changes nothing; after a shutdown there are no queues, and a
  dispatch is dropped instead of touching them; the router can then be started again.
\<close>

lemma router_life:
  assumes "\<not> r_IsRunning r" "router_inv r"
  shows "\<exists>r1. PacketRouter_Init hw k True r = Inr r1 \<and> r_IsRunning r1 \<and> 0 < length (r_PacketQueue r1)
    \<and> map pp_ProcessQueue (r_WorkerThreads r1) = [0..<length (r_PacketQueue r1)]
    \<and> PacketRouter_Init hw' k' f r1 = Inr r1
    \<and> r_PacketQueue (PacketRouter_Shutdown r1) = []
    \<and> PacketRouter_Dispatch s buf n (PacketRouter_Shutdown r1) = Inr (PacketRouter_Shutdown r1)
    \<and> \<not> r_IsRunning (PacketRouter_Shutdown r1) \<and> router_inv (PacketRouter_Shutdown r1)"
proof -
  obtain r1 where r1: "PacketRouter_Init hw k True r = Inr r1" "router_inv r1" "r_IsRunning r1"
    using router_inv_Init [OF assms(2)] by blast
  have n: "0 < r_NumWorkers r1" "int (length (r_PacketQueue r1)) = r_NumWorkers r1"
    "r_WorkerThreads r1 = map (\<lambda>i. \<lparr>pp_Id = int i, pp_ProcessQueue = i\<rparr>) [0..<nat (r_NumWorkers r1)]"
    using r1(2,3) by (auto simp: router_inv_def)
  then have "nat (r_NumWorkers r1) = length (r_PacketQueue r1)" "0 < length (r_PacketQueue r1)" by linarith+
  with n have "map pp_ProcessQueue (r_WorkerThreads r1) = [0..<length (r_PacketQueue r1)]"
    by (simp add: comp_def)
  with r1 \<open>0 < length (r_PacketQueue r1)\<close> router_inv_Shutdown [OF r1(2)] show ?thesis
    by (auto simp: PacketRouter_Init_def PacketRouter_Shutdown_def)
qed

lemma router_life_example:
  "\<exists>r1. PacketRouter_Init 8 0 True PacketRouter_new = Inr r1 \<and> r_IsRunning r1
     \<and> r_PacketQueue (PacketRouter_Shutdown r1) = []"
  using router_life [of PacketRouter_new 8 0 8 0 True None "(0, 0)" 0] router_inv_new
  by (auto simp: PacketRouter_new_def)

end
