(* ===== verification/Packet_Framing.thy ===== *)
theory Packet_Framing
  imports Packet_Object Packet_Router
begin

text \<open>
  \<^verbatim>\<open>AsioSession::ProcessPacket\<close>: cutting the received bytes into packets by the length
  field of the header. The first part is the specification: what the byte stream says. The
  second part is the loop of the code, and its relation to the specification.
\<close>

section \<open>What a byte stream says\<close>

definition frame_size :: "byte list \<Rightarrow> nat" where
  "frame_size bs =
     (case PacketHeader_read bs 0 of Inr h \<Rightarrow> unat (packetSize h) | Inl _ \<Rightarrow> 0)"

definition frame_ready :: "byte list \<Rightarrow> bool" where
  "frame_ready bs \<longleftrightarrow> 12 \<le> length bs \<and> frame_size bs \<le> length bs"

text \<open>
  \<open>frames bs\<close> are the complete packets at the front of \<open>bs\<close>, \<open>leftover bs\<close> the bytes
  behind them, and \<open>stalls bs\<close> says that a header with length 0 stops the cutting.
\<close>

function frames :: "byte list \<Rightarrow> byte list list" where
  "frames bs =
     (if frame_ready bs \<and> 0 < frame_size bs
      then take (frame_size bs) bs # frames (drop (frame_size bs) bs) else [])"
  by pat_completeness auto
termination
  by (relation "measure length") (auto simp: frame_ready_def)

function leftover :: "byte list \<Rightarrow> byte list" where
  "leftover bs =
     (if frame_ready bs \<and> 0 < frame_size bs then leftover (drop (frame_size bs) bs) else bs)"
  by pat_completeness auto
termination
  by (relation "measure length") (auto simp: frame_ready_def)

definition stalls :: "byte list \<Rightarrow> bool" where
  "stalls bs \<longleftrightarrow> frame_ready (leftover bs)"

declare frames.simps [simp del] leftover.simps [simp del]

lemma frames_step:
  "frame_ready bs \<Longrightarrow> 0 < frame_size bs \<Longrightarrow>
   frames bs = take (frame_size bs) bs # frames (drop (frame_size bs) bs)"
  by (simp add: frames.simps [of bs])

lemma leftover_step:
  "frame_ready bs \<Longrightarrow> 0 < frame_size bs \<Longrightarrow> leftover bs = leftover (drop (frame_size bs) bs)"
  by (simp add: leftover.simps [of bs])

lemma stalls_step:
  "frame_ready bs \<Longrightarrow> 0 < frame_size bs \<Longrightarrow> stalls bs = stalls (drop (frame_size bs) bs)"
  by (simp add: stalls_def leftover_step)

lemma frames_stop: "\<not> frame_ready bs \<Longrightarrow> frames bs = [] \<and> leftover bs = bs \<and> \<not> stalls bs"
  by (simp add: frames.simps [of bs] leftover.simps [of bs] stalls_def)

lemma stalls_zero: "frame_ready bs \<Longrightarrow> frame_size bs = 0 \<Longrightarrow> stalls bs"
  by (simp add: leftover.simps [of bs] stalls_def)

text \<open>Nothing is lost and nothing is invented: the packets and the rest are the stream.\<close>

lemma concat_frames: "concat (frames bs) @ leftover bs = bs"
proof (induction bs rule: frames.induct)
  case (1 bs)
  then show ?case
    by (cases "frame_ready bs \<and> 0 < frame_size bs")
      (auto simp: frames.simps [of bs] leftover.simps [of bs])
qed

lemma length_frames: "length (concat (frames bs)) + length (leftover bs) = length bs"
  by (metis concat_frames length_append)

lemma frame_size_append: "12 \<le> length bs \<Longrightarrow> frame_size (bs @ cs) = frame_size bs"
  by (simp add: frame_size_def PacketHeader_read_append)

lemma frame_ready_append: "frame_ready bs \<Longrightarrow> frame_ready (bs @ cs)"
  by (simp add: frame_ready_def frame_size_append)

text \<open>
  Bytes that arrive later change nothing about the packets that are complete, and the rest
  is where the cutting goes on. This is what makes the result independent of how the
  network splits the stream.
\<close>

lemma frames_append:
  assumes "\<not> stalls bs"
  shows "frames (bs @ cs) = frames bs @ frames (leftover bs @ cs)
    \<and> leftover (bs @ cs) = leftover (leftover bs @ cs)
    \<and> stalls (bs @ cs) = stalls (leftover bs @ cs)"
  using assms
proof (induction bs rule: frames.induct)
  case (1 bs)
  show ?case
  proof (cases "frame_ready bs")
    case False
    then show ?thesis by (simp add: frames_stop)
  next
    case True
    then have pos: "0 < frame_size bs"
      using "1.prems" stalls_zero [of bs] by auto
    have len: "12 \<le> length bs" "frame_size bs \<le> length bs" using True by (auto simp: frame_ready_def)
    have ready: "frame_ready (bs @ cs)" and size: "frame_size (bs @ cs) = frame_size bs"
      using True len by (simp_all add: frame_ready_append frame_size_append)
    have "\<not> stalls (drop (frame_size bs) bs)"
      using "1.prems" True pos by (simp add: stalls_step)
    with "1.IH" True pos have IH:
      "frames (drop (frame_size bs) bs @ cs) = frames (drop (frame_size bs) bs)
         @ frames (leftover (drop (frame_size bs) bs) @ cs)"
      "leftover (drop (frame_size bs) bs @ cs) = leftover (leftover (drop (frame_size bs) bs) @ cs)"
      "stalls (drop (frame_size bs) bs @ cs) = stalls (leftover (drop (frame_size bs) bs) @ cs)"
      by auto
    show ?thesis
      using frames_step [OF ready] leftover_step [OF ready] stalls_step [OF ready] size pos len
        frames_step [OF True pos] leftover_step [OF True pos] IH
      by simp
  qed
qed

lemma not_stalls_prefix: "\<not> stalls (bs @ cs) \<Longrightarrow> \<not> stalls bs"
proof (induction bs rule: frames.induct)
  case (1 bs)
  show ?case
  proof (cases "frame_ready bs")
    case False
    then show ?thesis by (simp add: frames_stop)
  next
    case True
    have len: "12 \<le> length bs" "frame_size bs \<le> length bs" using True by (auto simp: frame_ready_def)
    have ready: "frame_ready (bs @ cs)" and size: "frame_size (bs @ cs) = frame_size bs"
      using True len by (simp_all add: frame_ready_append frame_size_append)
    have pos: "0 < frame_size bs"
      using "1.prems" stalls_zero [OF ready] size by auto
    then have "\<not> stalls (drop (frame_size bs) bs @ cs)"
      using "1.prems" stalls_step [OF ready] size len by simp
    with "1.IH" True pos stalls_step [OF True pos] show ?thesis by simp
  qed
qed

lemma leftover_not_ready: "\<not> stalls bs \<Longrightarrow> \<not> frame_ready (leftover bs)"
  by (simp add: stalls_def)

section \<open>The loop\<close>

text \<open>
  \<open>buffer\<close> is the memory from the pointer argument on; \<open>base\<close> is that pointer as the receive
  buffer of session \<open>fst base\<close> and an offset, for the queue items that point into it. \<open>None\<close>
  means that the loop does not end.
\<close>

partial_function (option) ProcessPacket_loop ::
    "int \<Rightarrow> buf_ptr \<Rightarrow> byte list \<Rightarrow> int \<Rightarrow> int \<Rightarrow> PacketRouter \<Rightarrow> (int \<times> PacketRouter) res option" where
  "ProcessPacket_loop uid base buffer len processLen r =
     (let dataSize = word_of_int (len - processLen) :: uint32
      in if dataSize < of_nat sizeof_PacketHeader then Some (Inr (processLen, r))
         else case PacketHeader_read buffer processLen of
                Inl e \<Rightarrow> Some (Inl e)
              | Inr header \<Rightarrow>
                  if dataSize < packetSize header then Some (Inr (processLen, r))
                  else case PacketRouter_Dispatch (Some uid) (fst base, snd base + processLen)
                              (i32 (uint (packetSize header))) r of
                         Inl e \<Rightarrow> Some (Inl e)
                       | Inr r' \<Rightarrow>
                           ProcessPacket_loop uid base buffer len
                             (i32 (processLen + uint (packetSize header))) r')"

definition AsioSession_ProcessPacket ::
    "int \<Rightarrow> buf_ptr \<Rightarrow> byte list \<Rightarrow> int \<Rightarrow> PacketRouter \<Rightarrow> (int \<times> PacketRouter) res option" where
  "AsioSession_ProcessPacket uid base buffer len r = ProcessPacket_loop uid base buffer len 0 r"

text \<open>The items for a list of packets that lie one behind the other from an offset on.\<close>

fun frame_items :: "int \<Rightarrow> buf_ptr \<Rightarrow> byte list list \<Rightarrow> PacketQueueItem list" where
  "frame_items uid base [] = []"
| "frame_items uid base (f # fs) =
     PacketQueueItem_of uid base (int (length f))
       # frame_items uid (fst base, snd base + int (length f)) fs"

definition push_items :: "int \<Rightarrow> PacketQueueItem list \<Rightarrow> PacketRouter \<Rightarrow> PacketRouter" where
  "push_items uid items r =
     (if r_IsRunning r then router_push (worker_of r uid) items r else r)"

lemma push_items_fields [simp]:
  "r_IsRunning (push_items uid items r) = r_IsRunning r"
  "router_inv (push_items uid items r) = router_inv r"
  "push_items uid [] r = r"
  by (simp_all add: push_items_def)

lemma push_items_append:
  "router_inv r \<Longrightarrow> push_items uid js (push_items uid is r) = push_items uid (is @ js) r"
  by (simp add: push_items_def router_push_append worker_of_less)

lemma Dispatch_push_items:
  "router_inv r \<Longrightarrow> 0 \<le> uid \<Longrightarrow>
   PacketRouter_Dispatch (Some uid) buf n r = Inr (push_items uid [PacketQueueItem_of uid buf n] r)"
  by (simp add: push_items_def Dispatch_running)

text \<open>One round of the loop in the terms of the specification, whatever goes on after it.\<close>

definition window :: "byte list \<Rightarrow> int \<Rightarrow> int \<Rightarrow> byte list" where
  "window buffer p len = take (nat (len - p)) (drop (nat p) buffer)"

definition loop_pre :: "int \<Rightarrow> byte list \<Rightarrow> int \<Rightarrow> int \<Rightarrow> PacketRouter \<Rightarrow> bool" where
  "loop_pre uid buffer len p r \<longleftrightarrow> 0 \<le> p \<and> p \<le> len \<and> len \<le> int (length buffer)
     \<and> len < 2147483648 \<and> router_inv r \<and> 0 \<le> uid"

lemma length_window:
  "0 \<le> p \<Longrightarrow> p \<le> len \<Longrightarrow> len \<le> int (length buffer) \<Longrightarrow> int (length (window buffer p len)) = len - p"
  by (simp add: window_def)

lemma window_drop:
  assumes "0 \<le> p"
  shows "drop n (window buffer p len) = window buffer (p + int n) len"
proof -
  have a: "nat (p + int n) = n + nat p" using assms by simp
  have b: "nat (len - (p + int n)) = nat (len - p) - n" by simp
  show ?thesis unfolding window_def a b by (simp add: drop_take)
qed

lemma window_prefix:
  "0 \<le> p \<Longrightarrow> drop (nat p) buffer = window buffer p len @ drop (nat (len - p)) (drop (nat p) buffer)"
  by (simp add: window_def del: drop_drop)

lemma loop_round:
  assumes pre: "loop_pre uid buffer len p r" and bs: "bs = window buffer p len"
  shows "(let dataSize = word_of_int (len - p) :: uint32
      in if dataSize < of_nat sizeof_PacketHeader then Some (Inr (p, r))
         else case PacketHeader_read buffer p of
                Inl e \<Rightarrow> Some (Inl e)
              | Inr header \<Rightarrow>
                  if dataSize < packetSize header then Some (Inr (p, r))
                  else case PacketRouter_Dispatch (Some uid) (fst base, snd base + p)
                              (i32 (uint (packetSize header))) r of
                         Inl e \<Rightarrow> Some (Inl e)
                       | Inr r' \<Rightarrow> k (i32 (p + uint (packetSize header))) r')
   = (if frame_ready bs
      then k (p + int (frame_size bs))
            (push_items uid [PacketQueueItem_of uid (fst base, snd base + p) (int (frame_size bs))] r)
      else Some (Inr (p, r)))"
proof -
  let ?d = "word_of_int (len - p) :: uint32"
  from pre have p: "0 \<le> p" "p \<le> len" and len: "len \<le> int (length buffer)" "len < 2147483648"
    and r: "router_inv r" "0 \<le> uid" by (auto simp: loop_pre_def)
  have lbs: "int (length bs) = len - p" using bs p len by (simp add: length_window)
  have d: "uint ?d = len - p" using p len by (intro uint_of_int32) auto
  have hdr: "?d < of_nat sizeof_PacketHeader \<longleftrightarrow> length bs < 12"
    unfolding word_less_def d using lbs by (auto simp: sizeof_PacketHeader_def)
  show ?thesis
  proof (cases "length bs < 12")
    case True
    then show ?thesis using hdr by (simp add: frame_ready_def)
  next
    case False
    then obtain h where h: "PacketHeader_read bs 0 = Inr h"
      using PacketHeader_read_ok [of bs] by auto
    have "PacketHeader_read (drop (nat p) buffer) 0 = Inr h"
      using PacketHeader_read_append [of bs] False h bs window_prefix [OF p(1), of buffer len] by simp
    then have h': "PacketHeader_read buffer p = Inr h"
      using p len by (subst PacketHeader_read_shift) auto
    have size: "frame_size bs = unat (packetSize h)" by (simp add: frame_size_def h)
    have usize: "int (frame_size bs) = uint (packetSize h)" by (simp add: size)
    have fits: "?d < packetSize h \<longleftrightarrow> length bs < frame_size bs"
        unfolding word_less_def d using lbs usize by auto
    show ?thesis
    proof (cases "length bs < frame_size bs")
      case True
      with False fits hdr h' show ?thesis by (simp add: frame_ready_def)
    next
      case le: False
      then have w: "i32 (uint (packetSize h)) = int (frame_size bs)"
        "i32 (p + uint (packetSize h)) = p + int (frame_size bs)"
        using usize lbs p len by (auto intro!: i32_id)
      from le False fits hdr h' w show ?thesis
        by (simp add: frame_ready_def Dispatch_push_items r)
    qed
  qed
qed

lemma loop_unfold:
  assumes pre: "loop_pre uid buffer len p r" and bs: "bs = window buffer p len"
  shows "ProcessPacket_loop uid base buffer len p r =
    (if frame_ready bs
     then ProcessPacket_loop uid base buffer len (p + int (frame_size bs))
            (push_items uid [PacketQueueItem_of uid (fst base, snd base + p) (int (frame_size bs))] r)
     else Some (Inr (p, r)))"
  unfolding ProcessPacket_loop.simps [of uid base buffer len p r] by (rule loop_round [OF assms])

lemma loop_pre_step:
  assumes "loop_pre uid buffer len p r" "frame_ready (window buffer p len)"
  shows "loop_pre uid buffer len (p + int (frame_size (window buffer p len))) (push_items uid items r)"
  using assms length_window [of p len buffer] by (auto simp: loop_pre_def frame_ready_def)

text \<open>
  With a stream that does not stall the loop ends; it has pushed one item per complete
  packet, in order, and reports exactly the bytes these packets take.
\<close>

lemma loop_ends:
  assumes "loop_pre uid buffer len p r" "bs = window buffer p len" "\<not> stalls bs"
  shows "ProcessPacket_loop uid base buffer len p r =
    Some (Inr (len - int (length (leftover bs)),
               push_items uid (frame_items uid (fst base, snd base + p) (frames bs)) r))"
  using assms
proof (induction bs arbitrary: p r rule: frames.induct)
  case (1 bs)
  note unf = loop_unfold [OF "1.prems"(1,2), of base]
  have p: "0 \<le> p" and lbs: "int (length bs) = len - p" and inv: "router_inv r"
    using "1.prems"(1,2) length_window [of p len buffer] by (auto simp: loop_pre_def)
  show ?case
  proof (cases "frame_ready bs")
    case False
    then show ?thesis using unf lbs by (simp add: frames_stop)
  next
    case True
    let ?n = "frame_size bs"
    let ?r = "push_items uid [PacketQueueItem_of uid (fst base, snd base + p) (int ?n)] r"
    have pos: "0 < ?n" using "1.prems"(3) True stalls_zero [of bs] by auto
    have le: "?n \<le> length bs" using True by (simp add: frame_ready_def)
    have pre: "loop_pre uid buffer len (p + int ?n) ?r"
      using loop_pre_step [OF "1.prems"(1)] True "1.prems"(2) by simp
    have bs': "drop ?n bs = window buffer (p + int ?n) len"
      using "1.prems"(2) window_drop [OF p] by simp
    have ns: "\<not> stalls (drop ?n bs)" using "1.prems"(3) True pos by (simp add: stalls_step)
    have IH: "ProcessPacket_loop uid base buffer len (p + int ?n) ?r =
      Some (Inr (len - int (length (leftover (drop ?n bs))),
        push_items uid (frame_items uid (fst base, snd base + (p + int ?n)) (frames (drop ?n bs))) ?r))"
      using "1.IH" [OF _ pre bs' ns] True pos by simp
    show ?thesis
      using True le
      by (simp only: unf if_True IH frames_step [OF True pos] leftover_step [OF True pos])
        (simp add: push_items_append [OF inv] min_absorb2 add.assoc)
  qed
qed

text \<open>
  A loop that ends met no header with length 0. At such a header the code goes round
  without end and pushes one more item each time.
\<close>

lemma loop_ends_only_if:
  assumes ret: "ProcessPacket_loop uid base buffer len p r = Some out"
  shows "loop_pre uid buffer len p r \<longrightarrow> \<not> stalls (window buffer p len)"
proof (rule ProcessPacket_loop.raw_induct
    [where P = "\<lambda>uid base buffer len p r out.
       loop_pre uid buffer len p r \<longrightarrow> \<not> stalls (window buffer p len)", OF _ ret], rule impI)
  fix f uid base buffer len p r out
  let ?bs = "window buffer p len"
  assume IH: "\<And>uid base buffer len p r out. f uid base buffer len p r = Some out \<Longrightarrow>
      loop_pre uid buffer len p r \<longrightarrow> \<not> stalls (window buffer p len)"
    and pre: "loop_pre uid buffer len p r"
    and eq: "(let dataSize = word_of_int (len - p) :: uint32
      in if dataSize < of_nat sizeof_PacketHeader then Some (Inr (p, r))
         else case PacketHeader_read buffer p of
                Inl e \<Rightarrow> Some (Inl e)
              | Inr header \<Rightarrow>
                  if dataSize < packetSize header then Some (Inr (p, r))
                  else case PacketRouter_Dispatch (Some uid) (fst base, snd base + p)
                              (i32 (uint (packetSize header))) r of
                         Inl e \<Rightarrow> Some (Inl e)
                       | Inr r' \<Rightarrow> f uid base buffer len (i32 (p + uint (packetSize header))) r') = Some out"
  show "\<not> stalls ?bs"
  proof (cases "frame_ready ?bs")
    case False
    then show ?thesis by (simp add: frames_stop)
  next
    case True
    let ?q = "p + int (frame_size ?bs)"
    let ?r = "push_items uid [PacketQueueItem_of uid (fst base, snd base + p) (int (frame_size ?bs))] r"
    have "f uid base buffer len ?q ?r = Some out"
      using eq True unfolding loop_round [OF pre refl, where base = base and k = "f uid base buffer len"] by simp
    then have "\<not> stalls (window buffer ?q len)"
      using IH loop_pre_step [OF pre True] by blast
    moreover have "window buffer ?q len = drop (frame_size ?bs) ?bs"
      using pre by (simp add: window_drop loop_pre_def)
    ultimately show ?thesis
      using stalls_step [OF True] by (cases "frame_size ?bs = 0") simp_all
  qed
qed

lemma window_0: "len \<le> int (length buffer) \<Longrightarrow> window buffer 0 len = take (nat len) buffer"
  by (simp add: window_def)

lemma ProcessPacket_ends:
  assumes "0 \<le> len" "len \<le> int (length buffer)" "len < 2147483648" "router_inv r" "0 \<le> uid"
    "\<not> stalls (take (nat len) buffer)"
  shows "AsioSession_ProcessPacket uid base buffer len r =
    Some (Inr (int (length (concat (frames (take (nat len) buffer)))),
               push_items uid (frame_items uid base (frames (take (nat len) buffer))) r))"
proof -
  let ?bs = "take (nat len) buffer"
  have pre: "loop_pre uid buffer len 0 r" using assms by (simp add: loop_pre_def)
  have "len = int (length ?bs)" using assms by simp
  also have "\<dots> = int (length (concat (frames ?bs))) + int (length (leftover ?bs))"
    using length_frames [of ?bs] by linarith
  finally have "len - int (length (leftover ?bs)) = int (length (concat (frames ?bs)))" by simp
  then show ?thesis
    using loop_ends [OF pre refl, of base] assms
    by (simp add: AsioSession_ProcessPacket_def window_0)
qed

lemma ProcessPacket_diverges:
  assumes "0 \<le> len" "len \<le> int (length buffer)" "len < 2147483648" "router_inv r" "0 \<le> uid"
    "stalls (take (nat len) buffer)"
  shows "AsioSession_ProcessPacket uid base buffer len r = None"
proof (rule ccontr)
  assume "AsioSession_ProcessPacket uid base buffer len r \<noteq> None"
  then obtain out where "ProcessPacket_loop uid base buffer len 0 r = Some out"
    by (auto simp: AsioSession_ProcessPacket_def)
  then have "loop_pre uid buffer len 0 r \<longrightarrow> \<not> stalls (window buffer 0 len)"
    by (rule loop_ends_only_if)
  with assms show False by (simp add: loop_pre_def window_0)
qed

section \<open>Properties\<close>

text \<open>
  C22. The packet loop returns exactly when the received bytes have no complete header with
  length 0 at a packet boundary. Then it has consumed the complete packets at the front, all
  of them and nothing else, and queued one item per packet, in order, for the worker of the
  session. Otherwise it runs for ever, with the lock of the receive buffers held.
\<close>

theorem ProcessPacket_terminates_iff:
  assumes "len = int (length buffer)" "length buffer < 2147483648" "router_inv r" "0 \<le> uid"
  shows "AsioSession_ProcessPacket uid base buffer len r =
    (if stalls buffer then None
     else Some (Inr (int (length (concat (frames buffer))), push_items uid (frame_items uid base (frames buffer)) r)))
    \<and> concat (frames buffer) @ leftover buffer = buffer"
  using ProcessPacket_ends [of len buffer r uid base] ProcessPacket_diverges [of len buffer r uid base]
    concat_frames [of buffer] assms
  by simp

text \<open>A stream of one packet of 13 bytes, and one with a header of length 0.\<close>

definition example_frame :: "byte list" where
  "example_frame = [0, 0, 0, 0, 13, 0, 0, 0, 1, 0, 0, 0, 42]"

definition example_stall :: "byte list" where
  "example_stall = [0, 0, 0, 0, 0, 0, 0, 0, 1, 0, 0, 0]"

lemma example_frame_size:
  "frame_size (example_frame @ rest) = 13" "frame_ready (example_frame @ rest)"
  by (simp_all add: frame_ready_def frame_size_def PacketHeader_read_def example_frame_def le32_value_def)

lemma example_frames:
  "frames example_frame = [example_frame]" "leftover example_frame = []" "\<not> stalls example_frame"
proof -
  have e: "frame_ready example_frame" "frame_size example_frame = 13" "drop 13 example_frame = []"
    "take 13 example_frame = example_frame"
    using example_frame_size [of "[]"] by (simp_all add: example_frame_def)
  have n: "\<not> frame_ready []" by (simp add: frame_ready_def)
  show "frames example_frame = [example_frame]" "leftover example_frame = []" "\<not> stalls example_frame"
    using frames_step [OF e(1)] leftover_step [OF e(1)] stalls_step [OF e(1)] frames_stop [OF n] e
    by simp_all
qed

lemma example_stalls: "stalls example_stall"
  by (rule stalls_zero)
    (simp_all add: frame_ready_def frame_size_def PacketHeader_read_def example_stall_def le32_value_def)

theorem ProcessPacket_terminates_iff_witness:
  "AsioSession_ProcessPacket 3 (3, 0) example_frame 13 example_router =
     Some (Inr (13, push_items 3 [PacketQueueItem_of 3 (3, 0) 13] example_router))
   \<and> AsioSession_ProcessPacket 3 (3, 0) example_stall 12 example_router = None"
proof -
  have l: "length example_frame = 13" "length example_stall = 12"
    by (simp_all add: example_frame_def example_stall_def)
  show ?thesis
    using ProcessPacket_terminates_iff [of 13 example_frame example_router 3 "(3, 0)"]
      ProcessPacket_terminates_iff [of 12 example_stall example_router 3 "(3, 0)"]
      example_router_inv example_frames example_stalls l
    by simp
qed

text \<open>A byte string is one packet when its header says its length.\<close>

definition is_packet :: "byte list \<Rightarrow> bool" where
  "is_packet f \<longleftrightarrow> 12 \<le> length f \<and> frame_size f = length f"

lemma frames_packet:
  assumes "is_packet f"
  shows "frames (f @ rest) = f # frames rest" "leftover (f @ rest) = leftover rest"
    "stalls (f @ rest) = stalls rest"
proof -
  have f: "12 \<le> length f" "frame_size (f @ rest) = length f" "frame_ready (f @ rest)" "0 < length f"
    using assms frame_size_append [of f rest] by (auto simp: is_packet_def frame_ready_def)
  show "frames (f @ rest) = f # frames rest" "leftover (f @ rest) = leftover rest"
    "stalls (f @ rest) = stalls rest"
    using frames_step [OF f(3)] leftover_step [OF f(3)] stalls_step [OF f(3)] f by auto
qed



end
