(* ===== verification/Session_Manager.thy ===== *)
theory Session_Manager
  imports Core_Types
begin

text \<open>
  \<^verbatim>\<open>ServerCore/SessionManager.cpp\<close>: the process-wide table from session UID to session. Each
  method runs under the mutex of the manager, so each is one atomic step. The UID is read
  from the session object: \<open>uidOf\<close> is that read.
\<close>

type_synonym SessionManager = "int \<rightharpoonup> session_ptr"

definition SessionManager_AddSession ::
    "(session_ptr \<Rightarrow> int) \<Rightarrow> session_ptr option \<Rightarrow> SessionManager \<Rightarrow> SessionManager" where
  "SessionManager_AddSession uidOf session m =
     (case session of None \<Rightarrow> m
      | Some s \<Rightarrow>
          let sessionUID = uidOf s
          in case m sessionUID of None \<Rightarrow> m(sessionUID \<mapsto> s) | Some _ \<Rightarrow> m)"

definition SessionManager_RemoveSession ::
    "(session_ptr \<Rightarrow> int) \<Rightarrow> session_ptr option \<Rightarrow> SessionManager \<Rightarrow> SessionManager" where
  "SessionManager_RemoveSession uidOf session m =
     (case session of None \<Rightarrow> m | Some s \<Rightarrow> m(uidOf s := None))"

definition SessionManager_GetSession :: "int \<Rightarrow> SessionManager \<Rightarrow> session_ptr option" where
  "SessionManager_GetSession sessionUID m = m sessionUID"

section \<open>The manager is a registry\<close>

lemma AddSession_register:
  "SessionManager_AddSession uidOf (Some s) m = hash_map.register (uidOf s) s m"
  by (simp add: SessionManager_AddSession_def hash_map.register_def Let_def split: option.split)

lemma GetSession_Add:
  "SessionManager_GetSession u (SessionManager_AddSession uidOf (Some s) m) =
     (if u = uidOf s \<and> m u = None then Some s else m u)"
  by (auto simp: AddSession_register SessionManager_GetSession_def hash_map.find_register)

lemma GetSession_Remove:
  "SessionManager_GetSession u (SessionManager_RemoveSession uidOf (Some s) m) =
     (if u = uidOf s then None else m u)"
  by (simp add: SessionManager_RemoveSession_def SessionManager_GetSession_def)

text \<open>
  The table agrees with the sessions: what it stores under a UID is a session that has it.
  Adding keeps this; so does removing. A session that reports another UID later breaks it.
\<close>

definition sm_inv :: "(session_ptr \<Rightarrow> int) \<Rightarrow> SessionManager \<Rightarrow> bool" where
  "sm_inv uidOf m \<longleftrightarrow> (\<forall>u s. m u = Some s \<longrightarrow> uidOf s = u)"

lemma sm_inv_empty [simp]: "sm_inv uidOf Map.empty"
  by (simp add: sm_inv_def)

lemma sm_inv_Add: "sm_inv uidOf m \<Longrightarrow> sm_inv uidOf (SessionManager_AddSession uidOf s m)"
  by (auto simp: sm_inv_def SessionManager_AddSession_def Let_def split: option.splits)

lemma sm_inv_Remove: "sm_inv uidOf m \<Longrightarrow> sm_inv uidOf (SessionManager_RemoveSession uidOf s m)"
  by (auto simp: sm_inv_def SessionManager_RemoveSession_def split: option.splits)

lemma sm_inv_inj: "sm_inv uidOf m \<Longrightarrow> m u = Some s \<Longrightarrow> m u' = Some s \<Longrightarrow> u = u'"
  by (auto simp: sm_inv_def)

end
