(* ===== verification/Task_Queue.thy ===== *)
theory Task_Queue
  imports Core_Types
begin

text \<open>
  \<^verbatim>\<open>ServerCore/TaskQueue.h\<close>: the queue of session-state tasks and its worker threads. What a
  worker does with a task (\<^verbatim>\<open>ProcessIoTask\<close>) touches sessions and the session table; it is in
  the theory of the server.
\<close>

record TaskQueue =
  tq_IsRunning :: bool
  tq_TaskQueue :: "IoTask list"
  tq_WorkerThreads :: nat

definition TaskQueue_new :: TaskQueue where
  "TaskQueue_new = \<lparr>tq_IsRunning = False, tq_TaskQueue = [], tq_WorkerThreads = 0\<rparr>"

text \<open>\<open>hw\<close> is what \<^verbatim>\<open>std::thread::hardware_concurrency\<close> returns.\<close>

definition default_threads :: "nat \<Rightarrow> int \<Rightarrow> int" where
  "default_threads hw threadCount =
     (if threadCount \<le> 0 then let t = int (hw div 2) in if t < 1 then 1 else t else threadCount)"

definition TaskQueue_Initialize :: "nat \<Rightarrow> int \<Rightarrow> TaskQueue \<Rightarrow> TaskQueue" where
  "TaskQueue_Initialize hw threadCount q =
     (if tq_IsRunning q then q
      else q\<lparr>tq_IsRunning := True,
             tq_WorkerThreads := tq_WorkerThreads q + nat (default_threads hw threadCount)\<rparr>)"

definition TaskQueue_PushTask :: "int \<Rightarrow> NetState \<Rightarrow> TaskQueue \<Rightarrow> TaskQueue" where
  "TaskQueue_PushTask sessionUID st q =
     (if \<not> tq_IsRunning q then q
      else q\<lparr>tq_TaskQueue := cq_push (IoTask_of sessionUID st) (tq_TaskQueue q)\<rparr>)"

definition TaskQueue_GetQueueSize :: "TaskQueue \<Rightarrow> nat" where
  "TaskQueue_GetQueueSize q = length (tq_TaskQueue q)"

text \<open>One round of \<^verbatim>\<open>WorkerThread\<close>: the task it takes, if the queue runs and is not empty.\<close>

definition TaskQueue_WorkerThread :: "TaskQueue \<Rightarrow> IoTask option \<times> TaskQueue" where
  "TaskQueue_WorkerThread q =
     (if \<not> tq_IsRunning q then (None, q)
      else case cq_try_pop (tq_TaskQueue q) of
             None \<Rightarrow> (None, q)
           | Some (task, rest) \<Rightarrow> (Some task, q\<lparr>tq_TaskQueue := rest\<rparr>))"

text \<open>
  \<^verbatim>\<open>Shutdown\<close> wakes the workers with one default task each, joins them (a worker leaves its
  loop on the cleared flag; tasks a worker still took are no longer in the queue, which is
  emptied in any case) and drains what is left.
\<close>

fun drain :: "IoTask list \<Rightarrow> IoTask list" where
  "drain q = (case cq_try_pop q of None \<Rightarrow> q | Some (_, rest) \<Rightarrow> drain rest)"

definition TaskQueue_Shutdown :: "TaskQueue \<Rightarrow> TaskQueue" where
  "TaskQueue_Shutdown q =
     (if \<not> tq_IsRunning q then q
      else let woken = tq_TaskQueue q @ replicate (tq_WorkerThreads q) IoTask_default
           in q\<lparr>tq_IsRunning := False, tq_WorkerThreads := 0, tq_TaskQueue := drain woken\<rparr>)"

declare drain.simps [simp del]

lemma drain_Nil [simp]: "drain q = []"
  by (induction q) (simp_all add: drain.simps)

definition tq_take :: "TaskQueue \<Rightarrow> (IoTask \<times> TaskQueue) option" where
  "tq_take q = map_option (\<lambda>(t, rest). (t, q\<lparr>tq_TaskQueue := rest\<rparr>)) (cq_try_pop (tq_TaskQueue q))"

definition tq_submit :: "IoTask \<Rightarrow> TaskQueue \<Rightarrow> TaskQueue" where
  "tq_submit t = TaskQueue_PushTask (task_sessionUID t) (task_state t)"

interpretation tq: work_queue tq_IsRunning tq_submit tq_take tq_TaskQueue
proof unfold_locales
  fix q x q'
  assume "tq_take q = Some (x, q')"
  then show "tq_TaskQueue q = x # tq_TaskQueue q'" by (auto simp: tq_take_def)
qed (auto simp: tq_submit_def TaskQueue_PushTask_def cq_push_def IoTask_of_def tq_take_def)

lemma WorkerThread_take:
  "tq_IsRunning q \<Longrightarrow> TaskQueue_WorkerThread q =
     (case tq_take q of None \<Rightarrow> (None, q) | Some (t, q') \<Rightarrow> (Some t, q'))"
  by (auto simp: TaskQueue_WorkerThread_def tq_take_def split: option.split)

text \<open>A running queue has a worker: \<^verbatim>\<open>Initialize\<close> never starts with none.\<close>

definition tq_inv :: "TaskQueue \<Rightarrow> bool" where
  "tq_inv q \<longleftrightarrow> (tq_IsRunning q \<longrightarrow> 0 < tq_WorkerThreads q)
     \<and> (\<not> tq_IsRunning q \<longrightarrow> tq_WorkerThreads q = 0 \<and> tq_TaskQueue q = [])"

lemma default_threads_pos: "1 \<le> default_threads hw n"
  by (simp add: default_threads_def Let_def)

lemma tq_inv_new: "tq_inv TaskQueue_new"
  by (simp add: tq_inv_def TaskQueue_new_def)

lemma tq_inv_Initialize: "tq_inv q \<Longrightarrow> tq_inv (TaskQueue_Initialize hw n q)"
  using default_threads_pos [of hw n] by (auto simp: tq_inv_def TaskQueue_Initialize_def)

lemma tq_inv_PushTask: "tq_inv q \<Longrightarrow> tq_inv (TaskQueue_PushTask u st q)"
  by (simp add: tq_inv_def TaskQueue_PushTask_def)

lemma tq_inv_WorkerThread: "tq_inv q \<Longrightarrow> tq_inv (snd (TaskQueue_WorkerThread q))"
  by (auto simp: tq_inv_def TaskQueue_WorkerThread_def split: option.split)

lemma tq_inv_Shutdown: "tq_inv q \<Longrightarrow> tq_inv (TaskQueue_Shutdown q)"
  by (simp add: tq_inv_def TaskQueue_Shutdown_def Let_def)

section \<open>Properties\<close>


definition example_queue :: TaskQueue where
  "example_queue = TaskQueue_Initialize 4 0 TaskQueue_new"


end
