(* ===== verification/Asio_Service.thy ===== *)
theory Asio_Service
  imports Core_Types
begin

text \<open>
  \<^verbatim>\<open>ServerCore/AsioService.h\<close> and \<^verbatim>\<open>AsioService.cpp\<close>: the set of live sessions, their count
  and the source of session UIDs. \<^verbatim>\<open>std::set\<close> of session pointers is a sorted list
  without duplicates.
\<close>

datatype ServiceType = ServiceType_Server | ServiceType_Client

record AsioService =
  m_type :: ServiceType
  m_Sessions :: "session_ptr list"
  m_SessionCount :: int
  m_MaxSessionCount :: int
  m_NextSessionUID :: int
  m_SessionMaker :: bool
  m_Acceptor :: bool
  m_IoStopped :: bool

definition AsioService_new :: "ServiceType \<Rightarrow> bool \<Rightarrow> int \<Rightarrow> AsioService" where
  "AsioService_new ty maker maxSessionCount =
     \<lparr>m_type = ty, m_Sessions = [], m_SessionCount = 0, m_MaxSessionCount = maxSessionCount,
      m_NextSessionUID = 0, m_SessionMaker = maker, m_Acceptor = False, m_IoStopped = False\<rparr>"

definition AsioService_CanStart :: "AsioService \<Rightarrow> bool" where
  "AsioService_CanStart sv = m_SessionMaker sv"

definition AsioService_GetSessionSize :: "AsioService \<Rightarrow> nat" where
  "AsioService_GetSessionSize sv = length (m_Sessions sv)"

text \<open>
  \<open>locked\<close>: whether the calling thread already holds the mutex of the service, which is not
  recursive.
\<close>

definition AsioService_AddSession :: "bool \<Rightarrow> session_ptr \<Rightarrow> AsioService \<Rightarrow> AsioService res" where
  "AsioService_AddSession locked session sv =
     (if locked then Inl SelfDeadlock
      else Inr (sv\<lparr>m_Sessions := (if session \<in> set (m_Sessions sv) then m_Sessions sv
                                  else insort session (m_Sessions sv)),
                  m_SessionCount := i32 (m_SessionCount sv + 1)\<rparr>))"

definition AsioService_ReleaseSession :: "bool \<Rightarrow> session_ptr \<Rightarrow> AsioService \<Rightarrow> AsioService res" where
  "AsioService_ReleaseSession locked session sv =
     (if locked then Inl SelfDeadlock
      else Inr (sv\<lparr>m_Sessions := remove1 session (m_Sessions sv),
                  m_SessionCount := i32 (m_SessionCount sv - 1)\<rparr>))"

text \<open>\<^verbatim>\<open>m_SessionUID.fetch_add(1)\<close>: the old value, and the service with the next one.\<close>

definition AsioService_fetch_uid :: "AsioService \<Rightarrow> int \<times> AsioService" where
  "AsioService_fetch_uid sv =
     (m_NextSessionUID sv, sv\<lparr>m_NextSessionUID := i32 (m_NextSessionUID sv + 1)\<rparr>)"

section \<open>The count is the size of the set\<close>

definition service_inv :: "AsioService \<Rightarrow> bool" where
  "service_inv sv \<longleftrightarrow> sorted (m_Sessions sv) \<and> distinct (m_Sessions sv)
     \<and> m_SessionCount sv = int (length (m_Sessions sv)) \<and> length (m_Sessions sv) < 2147483647"

lemma service_inv_new: "service_inv (AsioService_new ty mk n)"
  by (simp add: service_inv_def AsioService_new_def)

lemma service_inv_Add:
  assumes "service_inv sv" "session \<notin> set (m_Sessions sv)" "Suc (length (m_Sessions sv)) < 2147483647"
    "AsioService_AddSession False session sv = Inr sv'"
  shows "service_inv sv' \<and> set (m_Sessions sv') = insert session (set (m_Sessions sv))"
  using assms
  by (auto simp: service_inv_def AsioService_AddSession_def sorted_insort distinct_insort
      set_insort_key i32_id)

lemma service_inv_Release:
  assumes "service_inv sv" "session \<in> set (m_Sessions sv)"
    "AsioService_ReleaseSession False session sv = Inr sv'"
  shows "service_inv sv' \<and> set (m_Sessions sv') = set (m_Sessions sv) - {session}"
proof -
  have "0 < length (m_Sessions sv)" using assms(2) by (cases "m_Sessions sv") auto
  then have "int (length (m_Sessions sv) - Suc 0) = int (length (m_Sessions sv)) - 1"
    by linarith
  with assms show ?thesis
    by (auto simp: service_inv_def AsioService_ReleaseSession_def sorted_remove1 length_remove1
        i32_id)
qed

text \<open>A second release of the same session, which nothing in the code rules out.\<close>

lemma Release_absent:
  assumes "service_inv sv" "session \<notin> set (m_Sessions sv)"
    "AsioService_ReleaseSession False session sv = Inr sv'"
  shows "m_Sessions sv' = m_Sessions sv \<and> m_SessionCount sv' = int (length (m_Sessions sv')) - 1"
  using assms
  by (auto simp: service_inv_def AsioService_ReleaseSession_def remove1_idem i32_id)

end
