(* ===== verification/Asio_Acceptor.thy ===== *)
theory Asio_Acceptor
  imports YJ_Prelude
begin

text \<open>
  \<^verbatim>\<open>ServerCore/AsioAcceptor.h\<close> and \<^verbatim>\<open>AsioAcceptor.cpp\<close>: the listening socket. The state is
  whether \<^verbatim>\<open>m_Acceptor\<close> is open and how many \<^verbatim>\<open>async_accept\<close> operations are outstanding.
  \<^verbatim>\<open>HandleAccept\<close>, which creates sessions, is in the theory of the server.
\<close>

record AsioAcceptor =
  ac_open :: bool
  ac_port :: int
  ac_accepts :: nat

text \<open>
  The constructor hands an endpoint to \<^verbatim>\<open>tcp::acceptor\<close>, which opens, binds and listens, or
  throws: \<open>port\<close> is what \<^verbatim>\<open>stoi(port)\<close> yields, if it yields a number, and \<open>listens\<close> says
  whether the rest succeeds.
\<close>

definition AsioAcceptor_new :: "int option \<Rightarrow> bool \<Rightarrow> AsioAcceptor res" where
  "AsioAcceptor_new port listens =
     bindR (the_or Thrown port) (\<lambda>p.
       if listens then Inr \<lparr>ac_open = True, ac_port = p, ac_accepts = 0\<rparr> else Inl Thrown)"

definition AsioAcceptor_DoAccept :: "AsioAcceptor \<Rightarrow> AsioAcceptor" where
  "AsioAcceptor_DoAccept a = a\<lparr>ac_accepts := Suc (ac_accepts a)\<rparr>"

text \<open>What the system calls of \<^verbatim>\<open>Start\<close> report: true is an error code.\<close>

record listen_errors =
  ec_open :: bool
  ec_option :: bool
  ec_bind :: bool
  ec_listen :: bool

definition AsioAcceptor_Start :: "listen_errors \<Rightarrow> AsioAcceptor \<Rightarrow> AsioAcceptor" where
  "AsioAcceptor_Start ec a =
     (let a1 = (if ac_open a then a\<lparr>ac_open := False\<rparr> else a)
      in if ec_open ec then a1
         else let a2 = a1\<lparr>ac_open := True\<rparr>
              in if ec_option ec then a2
                 else if ec_bind ec then a2
                 else let a3 = a2\<lparr>ac_port := 7777\<rparr>
                      in if ec_listen ec then a3 else AsioAcceptor_DoAccept a3)"

definition AsioAcceptor_Stop :: "AsioAcceptor \<Rightarrow> AsioAcceptor" where
  "AsioAcceptor_Stop a = (if ac_open a then a\<lparr>ac_open := False\<rparr> else a)"

definition no_listen_errors :: listen_errors where
  "no_listen_errors = \<lparr>ec_open = False, ec_option = False, ec_bind = False, ec_listen = False\<rparr>"

text \<open>An accept is outstanding after \<^verbatim>\<open>Start\<close> exactly when no system call failed.\<close>

lemma Start_accepting:
  "ac_accepts (AsioAcceptor_Start ec a) =
     (if ec_open ec \<or> ec_option ec \<or> ec_bind ec \<or> ec_listen ec then ac_accepts a else Suc (ac_accepts a))"
  by (simp add: AsioAcceptor_Start_def AsioAcceptor_DoAccept_def Let_def)

lemma Start_open: "ac_open (AsioAcceptor_Start ec a) \<longleftrightarrow> \<not> ec_open ec"
  by (simp add: AsioAcceptor_Start_def AsioAcceptor_DoAccept_def Let_def)

text \<open>The port that was configured is given up for 7777.\<close>

lemma Start_port: "\<not> ec_open ec \<Longrightarrow> \<not> ec_option ec \<Longrightarrow> \<not> ec_bind ec \<Longrightarrow> ac_port (AsioAcceptor_Start ec a) = 7777"
  by (simp add: AsioAcceptor_Start_def AsioAcceptor_DoAccept_def Let_def)

lemma Stop_closed [simp]:
  "\<not> ac_open (AsioAcceptor_Stop a)" "ac_accepts (AsioAcceptor_Stop a) = ac_accepts a"
  by (simp_all add: AsioAcceptor_Stop_def)

end
