(* ===== verification/Server_Core.thy ===== *)
theory Server_Core
  imports Packet_Buffer Packet_Pool Packet_Framing Session_Manager Task_Queue Asio_Service
    Asio_Acceptor
begin

text \<open>
  The state of a process that links ServerCore, and the session operations that change it:
  \<^verbatim>\<open>ServerCore/AsioSession.cpp\<close>, \<^verbatim>\<open>SessionPacketBuffer.cpp\<close>, \<^verbatim>\<open>NetworkHandler.cpp\<close>,
  \<^verbatim>\<open>TaskQueue.cpp\<close> and the parts of \<^verbatim>\<open>AsioService.cpp\<close> and \<^verbatim>\<open>AsioAcceptor.cpp\<close> that reach into
  sessions.

  Sessions live in a heap. A derived session class extends the record; its overrides of the
  virtual hooks are arguments. What the operating system and Boost.Asio do is not modelled:
  a completion handler is an operation that receives what the completion reports.
\<close>

section \<open>State\<close>

text \<open>
  \<open>m_Socket\<close> is null or a socket that is open or closed; \<open>m_Service\<close> says whether the weak
  pointer can be locked; \<open>m_ReadPending\<close> records an \<^verbatim>\<open>async_read_some\<close> that was started.
\<close>

record AsioSession =
  m_SessionUID :: int
  m_NetState :: NetState
  m_IsRunning :: bool
  m_Socket :: "bool option"
  m_Resolver :: bool
  m_Service :: bool
  m_PacketBuffer :: PacketBuffer
  m_SeqNum :: uint32
  m_ReadPending :: bool

record 's Core =
  c_heap :: "session_ptr \<rightharpoonup> 's AsioSession_scheme"
  c_manager :: SessionManager
  c_tasks :: TaskQueue
  c_router :: PacketRouter
  c_buffers :: "int \<rightharpoonup> PacketBuffer"
  c_analyzer :: ServerAnalyzer
  c_pool :: PacketPool
  c_service :: AsioService
  c_acceptor :: AsioAcceptor
  c_next_uid :: int
  c_writes :: "(session_ptr \<times> Packet) list"

text \<open>
  \<open>c_buffers\<close> is \<^verbatim>\<open>SessionPacketBuffer::m_SessionBuffers\<close>; \<open>c_acceptor\<close> is meaningful when the
  service has an acceptor; \<open>c_next_uid\<close> is the global \<^verbatim>\<open>SessionUID\<close> of \<^verbatim>\<open>AsioSession.cpp\<close>, from
  which connecting sessions are numbered; \<open>c_writes\<close> are the writes that were started and not
  yet completed, in the order they were started.
\<close>

abbreviation sess :: "('s, 'z) Core_scheme \<Rightarrow> session_ptr \<Rightarrow> 's AsioSession_scheme res" where
  "sess c s \<equiv> the_or NullDeref (c_heap c s)"

definition upd_sess :: "session_ptr \<Rightarrow> ('s AsioSession_scheme \<Rightarrow> 's AsioSession_scheme) \<Rightarrow> ('s, 'z) Core_scheme \<Rightarrow> ('s, 'z) Core_scheme" where
  "upd_sess s f c = c\<lparr>c_heap := (c_heap c)(s := map_option f (c_heap c s))\<rparr>"

lemma upd_sess_fields [simp]:
  "c_router (upd_sess s f c) = c_router c" "c_buffers (upd_sess s f c) = c_buffers c"
  "c_tasks (upd_sess s f c) = c_tasks c" "c_manager (upd_sess s f c) = c_manager c"
  "c_analyzer (upd_sess s f c) = c_analyzer c" "c_service (upd_sess s f c) = c_service c"
  "c_acceptor (upd_sess s f c) = c_acceptor c" "c_next_uid (upd_sess s f c) = c_next_uid c"
  "c_pool (upd_sess s f c) = c_pool c" "c_writes (upd_sess s f c) = c_writes c"
  "c_heap (upd_sess s f c) s' = (if s' = s then map_option f (c_heap c s) else c_heap c s')"
  by (simp_all add: upd_sess_def)

definition uid_of :: "('s, 'z) Core_scheme \<Rightarrow> session_ptr \<Rightarrow> int" where
  "uid_of c s = (case c_heap c s of None \<Rightarrow> 0 | Some x \<Rightarrow> m_SessionUID x)"

section \<open>Sessions\<close>

text \<open>
  \<open>uid\<close> and \<open>seq\<close> are what the memory of the atomics held: the default constructor does not
  set the UID, the other one sets neither.
\<close>

definition AsioSession_new :: "int \<Rightarrow> AsioSession res" where
  "AsioSession_new uid =
     bindR PacketBuffer_new (\<lambda>b.
       Inr \<lparr>m_SessionUID = uid, m_NetState = NetState_None, m_IsRunning = False, m_Socket = None,
            m_Resolver = False, m_Service = False, m_PacketBuffer = b, m_SeqNum = 0,
            m_ReadPending = False\<rparr>)"

definition AsioSession_new_with :: "int \<Rightarrow> bool option \<Rightarrow> uint32 \<Rightarrow> AsioSession res" where
  "AsioSession_new_with uid socket seq =
     bindR (PacketBuffer_new_sized 65536) (\<lambda>b.
       Inr \<lparr>m_SessionUID = uid, m_NetState = NetState_None, m_IsRunning = False, m_Socket = socket,
            m_Resolver = False, m_Service = False, m_PacketBuffer = b, m_SeqNum = seq,
            m_ReadPending = False\<rparr>)"

definition AsioSession_InitSession ::
    "bool option \<Rightarrow> 's AsioSession_scheme \<Rightarrow> 's AsioSession_scheme res" where
  "AsioSession_InitSession socket x =
     bindR (PacketBuffer_Init 65536 (m_PacketBuffer x)) (\<lambda>b.
       Inr (x\<lparr>m_Socket := socket, m_PacketBuffer := b\<rparr>))"

definition AsioSession_Reset :: "'s AsioSession_scheme \<Rightarrow> 's AsioSession_scheme" where
  "AsioSession_Reset x = x\<lparr>m_Socket := None, m_Resolver := False\<rparr>"

definition AsioSession_ProcessDisconnect :: "session_ptr \<Rightarrow> ('s, 'z) Core_scheme \<Rightarrow> ('s, 'z) Core_scheme res" where
  "AsioSession_ProcessDisconnect s c =
     bindR (sess c s) (\<lambda>x.
       if m_NetState x = NetState_Disconnect then Inr c
       else let c1 = upd_sess s (\<lambda>y. y\<lparr>m_NetState := NetState_Disconnect\<rparr>) c
            in Inr (c1\<lparr>c_tasks := TaskQueue_PushTask (m_SessionUID x) NetState_Disconnect (c_tasks c1)\<rparr>))"

definition AsioSession_DoRead :: "session_ptr \<Rightarrow> ('s, 'z) Core_scheme \<Rightarrow> ('s, 'z) Core_scheme res" where
  "AsioSession_DoRead s c =
     (let c1 = c\<lparr>c_analyzer := ResetRecvCount (c_analyzer c)\<rparr>
      in bindR (sess c1 s) (\<lambda>x.
         bindR (the_or NullDeref (m_Socket x)) (\<lambda>_.
         bindR (PacketBuffer_WritePos (m_PacketBuffer x)) (\<lambda>_.
         Inr (upd_sess s (\<lambda>y. y\<lparr>m_ReadPending := True\<rparr>) c1)))))"

text \<open>\<open>onConnected\<close> is the override of the derived class.\<close>

definition AsioSession_ProcessRecv ::
    "(session_ptr \<Rightarrow> ('s, 'z) Core_scheme \<Rightarrow> ('s, 'z) Core_scheme res) \<Rightarrow> session_ptr \<Rightarrow> ('s, 'z) Core_scheme \<Rightarrow> ('s, 'z) Core_scheme res" where
  "AsioSession_ProcessRecv onConnected s c = bindR (onConnected s c) (AsioSession_DoRead s)"

text \<open>
  \<^verbatim>\<open>Connect\<close> replaces the socket by a new one and starts to connect it: \<open>resolves\<close> says
  whether the name is resolved or the resolver throws. The handler of the completion numbers
  the session from the global counter.
\<close>

definition AsioSession_Connect :: "bool \<Rightarrow> session_ptr \<Rightarrow> ('s, 'z) Core_scheme \<Rightarrow> (bool \<times> ('s, 'z) Core_scheme) res" where
  "AsioSession_Connect resolves s c =
     bindR (sess c s) (\<lambda>_.
     let c1 = upd_sess s (\<lambda>y. y\<lparr>m_Resolver := True, m_Socket := Some False\<rparr>) c
     in if resolves then Inr (True, c1) else Inl Thrown)"

definition AsioSession_HandleConnect ::
    "(session_ptr \<Rightarrow> ('s, 'z) Core_scheme \<Rightarrow> ('s, 'z) Core_scheme res) \<Rightarrow> bool \<Rightarrow> session_ptr \<Rightarrow> ('s, 'z) Core_scheme \<Rightarrow> ('s, 'z) Core_scheme res" where
  "AsioSession_HandleConnect onConnected ec s c =
     bindR (sess c s) (\<lambda>_.
     if ec then Inr c
     else let uid = c_next_uid c;
              c1 = upd_sess s (\<lambda>y. y\<lparr>m_Socket := Some True, m_SessionUID := uid\<rparr>)
                     (c\<lparr>c_next_uid := i32 (uid + 1)\<rparr>)
          in AsioSession_ProcessRecv onConnected s c1)"

text \<open>
  \<open>locked\<close>: whether the thread that closes the session holds the mutex of the service.
  The error codes of \<^verbatim>\<open>cancel\<close>, \<^verbatim>\<open>shutdown\<close> and \<^verbatim>\<open>close\<close> are only logged.
\<close>

definition AsioSession_CloseSession ::
    "(session_ptr \<Rightarrow> ('s, 'z) Core_scheme \<Rightarrow> ('s, 'z) Core_scheme res) \<Rightarrow> bool \<Rightarrow> session_ptr \<Rightarrow> ('s, 'z) Core_scheme \<Rightarrow> ('s, 'z) Core_scheme res" where
  "AsioSession_CloseSession onDisconnected locked s c =
     bindR (sess c s) (\<lambda>x.
       if m_Socket x = None then Inr c
       else bindR (onDisconnected s c) (\<lambda>c1.
            let c2 = upd_sess s (\<lambda>y. y\<lparr>m_Socket := Some False\<rparr>) c1
            in if m_Service x
               then bindR (AsioService_ReleaseSession locked s (c_service c2)) (\<lambda>sv.
                    Inr (c2\<lparr>c_service := sv\<rparr>))
               else Inr c2))"

definition AsioSession_Disconnect ::
    "(session_ptr \<Rightarrow> ('s, 'z) Core_scheme \<Rightarrow> ('s, 'z) Core_scheme res) \<Rightarrow> bool \<Rightarrow> session_ptr \<Rightarrow> ('s, 'z) Core_scheme \<Rightarrow> ('s, 'z) Core_scheme res" where
  "AsioSession_Disconnect onDisconnected locked s c =
     bindR (onDisconnected s c) (AsioSession_CloseSession onDisconnected locked s)"

text \<open>
  \<^verbatim>\<open>Send\<close> takes a packet object from the pool, moves the argument into it and starts a
  write; \<^verbatim>\<open>HandleWrite\<close> runs when the write is done and gives the object back.
\<close>

definition AsioSession_Send :: "session_ptr \<Rightarrow> Packet \<Rightarrow> ('s, 'z) Core_scheme \<Rightarrow> ('s, 'z) Core_scheme res" where
  "AsioSession_Send s packet c =
     (let (sendPacket, pool) = PacketPool_Pop (c_pool c);
          sendPacket' = fst (Packet_move_assign sendPacket packet)
      in bindR (sess c s) (\<lambda>x.
         bindR (the_or NullDeref (m_Socket x)) (\<lambda>_.
         Inr (c\<lparr>c_pool := pool, c_writes := c_writes c @ [(s, sendPacket')]\<rparr>))))"

definition AsioSession_HandleWrite ::
    "(session_ptr \<Rightarrow> int \<Rightarrow> ('s, 'z) Core_scheme \<Rightarrow> ('s, 'z) Core_scheme) \<Rightarrow> bool \<Rightarrow> int \<Rightarrow> session_ptr \<Rightarrow> Packet option
       \<Rightarrow> ('s, 'z) Core_scheme \<Rightarrow> ('s, 'z) Core_scheme res" where
  "AsioSession_HandleWrite onSend ec len s packet c =
     bindR (if ec then AsioSession_ProcessDisconnect s c else Inr (onSend s len c)) (\<lambda>c1.
     Inr (c1\<lparr>c_pool := PacketPool_Push packet (c_pool c1)\<rparr>))"

section \<open>The receive path\<close>

definition SessionPacketBuffer_AddData ::
    "session_ptr option \<Rightarrow> byte list option \<Rightarrow> nat \<Rightarrow> ('s, 'z) Core_scheme \<Rightarrow> ('s, 'z) Core_scheme res" where
  "SessionPacketBuffer_AddData session dat len c =
     (case (session, dat) of
        (Some s, Some bytes) \<Rightarrow>
          if len = 0 then Inr c
          else bindR (sess c s) (\<lambda>x.
               let sessionId = m_SessionUID x
               in bindR (case c_buffers c sessionId of
                           None \<Rightarrow> PacketBuffer_new | Some b \<Rightarrow> Inr b) (\<lambda>buffer.
                  bindR (PacketBuffer_OnWrite_copy bytes (i32 (int len)) buffer) (\<lambda>(ok, buffer').
                  let c1 = c\<lparr>c_buffers := (c_buffers c)(sessionId \<mapsto> buffer')\<rparr>
                  in if ok then Inr c1 else AsioSession_ProcessDisconnect s c1)))
      | _ \<Rightarrow> Inr c)"

definition SessionPacketBuffer_ProcessSessionBuffer ::
    "session_ptr option \<Rightarrow> ('s, 'z) Core_scheme \<Rightarrow> ('s, 'z) Core_scheme run" where
  "SessionPacketBuffer_ProcessSessionBuffer session c =
     (case session of
        None \<Rightarrow> Some (Inr c)
      | Some s \<Rightarrow>
          bindO (Some (sess c s)) (\<lambda>x.
          let sessionId = m_SessionUID x
          in case c_buffers c sessionId of
               None \<Rightarrow> Some (Inr c)
             | Some buffer \<Rightarrow>
                 bindO (Some (PacketBuffer_ReadPos buffer)) (\<lambda>pos.
                 bindO (AsioSession_ProcessPacket sessionId (sessionId, pos)
                          (drop (nat pos) (m_Buffer buffer)) (PacketBuffer_DataSize buffer)
                          (c_router c)) (\<lambda>(processLen, r).
                 let c1 = c\<lparr>c_router := r\<rparr>
                 in if processLen \<le> 0 then Some (Inr c1)
                    else let (ok, buffer1) = PacketBuffer_OnRead processLen buffer
                         in if \<not> ok then Some (Inr (c1\<lparr>c_buffers := (c_buffers c1)(sessionId \<mapsto> buffer1)\<rparr>))
                            else bindO (Some (PacketBuffer_Clear buffer1)) (\<lambda>buffer2.
                                 Some (Inr (c1\<lparr>c_buffers := (c_buffers c1)(sessionId \<mapsto> buffer2)\<rparr>)))))))"

definition NetworkHandler_RecvData ::
    "session_ptr option \<Rightarrow> byte list option \<Rightarrow> nat \<Rightarrow> ('s, 'z) Core_scheme \<Rightarrow> ('s, 'z) Core_scheme run" where
  "NetworkHandler_RecvData session buffer len c =
     (if session = None \<or> buffer = None \<or> len = 0 then Some (Inr c)
      else let c1 = c\<lparr>c_analyzer := IncrementRecvCnt (c_analyzer c)\<rparr>
           in bindO (Some (SessionPacketBuffer_AddData session buffer len c1))
                (SessionPacketBuffer_ProcessSessionBuffer session))"

text \<open>What a read completion reports.\<close>

datatype read_result = Read_ok | Read_eof | Read_aborted | Read_reset | Read_other

definition AsioSession_HandleRead :: "read_result \<Rightarrow> int \<Rightarrow> session_ptr \<Rightarrow> ('s, 'z) Core_scheme \<Rightarrow> ('s, 'z) Core_scheme run" where
  "AsioSession_HandleRead ec len s c =
     (case ec of
        Read_ok \<Rightarrow>
          bindO (Some (sess c s)) (\<lambda>x.
          let (ok, b) = PacketBuffer_OnWrite len (m_PacketBuffer x);
              c1 = upd_sess s (\<lambda>y. y\<lparr>m_PacketBuffer := b\<rparr>) c
          in if \<not> ok then Some (AsioSession_ProcessDisconnect s c1)
             else bindO (Some (PacketBuffer_ReadPos b)) (\<lambda>pos.
                  let dataSize = PacketBuffer_DataSize b;
                      dataCopy = take (nat dataSize) (drop (nat pos) (m_Buffer b))
                  in bindO (NetworkHandler_RecvData (Some s) (Some dataCopy) (nat dataSize) c1) (\<lambda>c2.
                     bindO (Some (sess c2 s)) (\<lambda>y.
                     let (_, b2) = PacketBuffer_OnRead len (m_PacketBuffer y)
                     in bindO (Some (PacketBuffer_Clear b2)) (\<lambda>b3.
                        Some (AsioSession_DoRead s
                          (upd_sess s (\<lambda>z. z\<lparr>m_PacketBuffer := b3\<rparr>) c2)))))))
      | Read_eof \<Rightarrow> Some (AsioSession_ProcessDisconnect s c)
      | Read_aborted \<Rightarrow> Some (AsioSession_ProcessDisconnect s c)
      | Read_reset \<Rightarrow> Some (AsioSession_ProcessDisconnect s c)
      | Read_other \<Rightarrow> Some (AsioSession_ProcessDisconnect s c))"

text \<open>
  The completion of a read of \<open>chunk\<close>: the runtime has put the bytes at the write position
  of the session's own buffer, then the handler runs.
\<close>

definition read_completes :: "byte list \<Rightarrow> session_ptr \<Rightarrow> ('s, 'z) Core_scheme \<Rightarrow> ('s, 'z) Core_scheme run" where
  "read_completes chunk s c =
     bindO (Some (sess c s)) (\<lambda>x.
     bindO (Some (memcpy (m_Buffer (m_PacketBuffer x)) (m_WritePos (m_PacketBuffer x)) chunk
                    (int (length chunk)))) (\<lambda>v.
     AsioSession_HandleRead Read_ok (int (length chunk)) s
       (upd_sess s (\<lambda>y. y\<lparr>m_PacketBuffer := (m_PacketBuffer y)\<lparr>m_Buffer := v\<rparr>,
                          m_ReadPending := False\<rparr>) c)))"

section \<open>Tasks, service and acceptor\<close>

definition TaskQueue_ProcessIoTask ::
    "(session_ptr \<Rightarrow> ('s, 'z) Core_scheme \<Rightarrow> ('s, 'z) Core_scheme res) \<Rightarrow> IoTask \<Rightarrow> ('s, 'z) Core_scheme \<Rightarrow> ('s, 'z) Core_scheme res" where
  "TaskQueue_ProcessIoTask onDisconnected task c =
     (case SessionManager_GetSession (task_sessionUID task) (c_manager c) of
        None \<Rightarrow> Inr c
      | Some s \<Rightarrow>
          (case task_state task of
             NetState_Disconnect \<Rightarrow> AsioSession_CloseSession onDisconnected False s c
           | NetState_Reconnect \<Rightarrow> Inr c
           | st \<Rightarrow> bindR (sess c s) (\<lambda>_. Inr (upd_sess s (\<lambda>y. y\<lparr>m_NetState := st\<rparr>) c))))"

text \<open>\<open>maker\<close> is \<^verbatim>\<open>m_SessionMaker\<close>: it yields the address of the session and may fault.\<close>

definition AsioService_CreateSession ::
    "(('s, 'z) Core_scheme \<Rightarrow> (session_ptr \<times> ('s, 'z) Core_scheme) res) \<Rightarrow> ('s, 'z) Core_scheme \<Rightarrow> (session_ptr \<times> ('s, 'z) Core_scheme) res" where
  "AsioService_CreateSession maker c =
     bindR (maker c) (\<lambda>(s, c1).
     let c2 = upd_sess s (\<lambda>y. y\<lparr>m_Service := True\<rparr>) c1
     in bindR (AsioService_AddSession False s (c_service c2)) (\<lambda>sv.
        let (uid, sv') = AsioService_fetch_uid sv
        in Inr (s, upd_sess s (\<lambda>y. y\<lparr>m_SessionUID := uid\<rparr>) (c2\<lparr>c_service := sv'\<rparr>))))"

definition AsioAcceptor_HandleAccept ::
    "(session_ptr \<Rightarrow> ('s, 'z) Core_scheme \<Rightarrow> ('s, 'z) Core_scheme res) \<Rightarrow> (('s, 'z) Core_scheme \<Rightarrow> (session_ptr \<times> ('s, 'z) Core_scheme) res) \<Rightarrow> bool
       \<Rightarrow> ('s, 'z) Core_scheme \<Rightarrow> (session_ptr option \<times> ('s, 'z) Core_scheme) res" where
  "AsioAcceptor_HandleAccept onConnected maker ec c =
     (if \<not> ec
      then bindR (AsioService_CreateSession maker c) (\<lambda>(s, c1).
           bindR (AsioSession_ProcessRecv onConnected s c1) (\<lambda>c2.
           Inr (Some s, c2\<lparr>c_acceptor := AsioAcceptor_DoAccept (c_acceptor c2)\<rparr>)))
      else Inr (None, c))"

fun close_all ::
    "(session_ptr \<Rightarrow> ('s, 'z) Core_scheme \<Rightarrow> ('s, 'z) Core_scheme res) \<Rightarrow> session_ptr list \<Rightarrow> ('s, 'z) Core_scheme \<Rightarrow> ('s, 'z) Core_scheme res" where
  "close_all onDisconnected [] c = Inr c"
| "close_all onDisconnected (s # ss) c =
     bindR (AsioSession_Disconnect onDisconnected True s c) (\<lambda>c1.
     close_all onDisconnected ss (upd_sess s AsioSession_Reset c1))"

definition AsioService_CloseService ::
    "(session_ptr \<Rightarrow> ('s, 'z) Core_scheme \<Rightarrow> ('s, 'z) Core_scheme res) \<Rightarrow> ('s, 'z) Core_scheme \<Rightarrow> ('s, 'z) Core_scheme res" where
  "AsioService_CloseService onDisconnected c =
     bindR (close_all onDisconnected (m_Sessions (c_service c)) c) (\<lambda>c1.
     Inr (c1\<lparr>c_service := (c_service c1)\<lparr>m_Sessions := [], m_SessionCount := 0,
                                        m_IoStopped := True\<rparr>\<rparr>))"

text \<open>The two kinds of service. \<open>port\<close>, \<open>listens\<close> and \<open>ec\<close> are what the system reports.\<close>

definition AsioService_Start :: bool where
  "AsioService_Start = True"

definition AsioServerService_Start ::
    "int option \<Rightarrow> bool \<Rightarrow> listen_errors \<Rightarrow> ('s, 'z) Core_scheme \<Rightarrow> (bool \<times> ('s, 'z) Core_scheme) res" where
  "AsioServerService_Start port listens ec c =
     (if \<not> AsioService_CanStart (c_service c) then Inr (False, c)
      else bindR (AsioAcceptor_new port listens) (\<lambda>a.
           Inr (True, c\<lparr>c_service := (c_service c)\<lparr>m_Acceptor := True\<rparr>,
                        c_acceptor := AsioAcceptor_Start ec a\<rparr>)))"

definition AsioServerService_CloseService ::
    "(session_ptr \<Rightarrow> ('s, 'z) Core_scheme \<Rightarrow> ('s, 'z) Core_scheme res) \<Rightarrow> ('s, 'z) Core_scheme \<Rightarrow> ('s, 'z) Core_scheme res" where
  "AsioServerService_CloseService onDisconnected c =
     (let c1 = (if m_Acceptor (c_service c)
                then c\<lparr>c_acceptor := AsioAcceptor_Stop (c_acceptor c)\<rparr> else c)
      in AsioService_CloseService onDisconnected c1)"

fun start_clients ::
    "(('s, 'z) Core_scheme \<Rightarrow> (session_ptr \<times> ('s, 'z) Core_scheme) res) \<Rightarrow> (nat \<Rightarrow> bool) \<Rightarrow> nat \<Rightarrow> nat \<Rightarrow> ('s, 'z) Core_scheme \<Rightarrow> (bool \<times> ('s, 'z) Core_scheme) res" where
  "start_clients maker resolves i 0 c = Inr (True, c)"
| "start_clients maker resolves i (Suc n) c =
     bindR (AsioService_CreateSession maker c) (\<lambda>(s, c1).
     bindR (AsioSession_Connect (resolves i) s c1) (\<lambda>(ok, c2).
     if \<not> ok then Inr (False, c2)
     else start_clients maker resolves (Suc i) n c2))"

definition AsioClientService_Start ::
    "(('s, 'z) Core_scheme \<Rightarrow> (session_ptr \<times> ('s, 'z) Core_scheme) res) \<Rightarrow> (nat \<Rightarrow> bool) \<Rightarrow> ('s, 'z) Core_scheme \<Rightarrow> (bool \<times> ('s, 'z) Core_scheme) res" where
  "AsioClientService_Start maker resolves c =
     (if \<not> AsioService_CanStart (c_service c) then Inr (False, c)
      else start_clients maker resolves 0 (nat (m_MaxSessionCount (c_service c))) c)"

end
