(* ===== verification/Session_Hooks.thy ===== *)
theory Session_Hooks
  imports Server_Core
begin

text \<open>
  What closing a session does, for any derived class of \<^verbatim>\<open>AsioSession\<close>: the two that the program
  has differ in their \<^verbatim>\<open>OnDisconnected\<close>, and the base class relies on what that override
  promises. The promise is the locale \<open>session_hook\<close>; the game server and the client are
  instances of it.
\<close>

section \<open>Disconnecting\<close>

lemma ProcessDisconnect_first:
  "c_heap c s = Some x \<Longrightarrow> m_NetState x \<noteq> NetState_Disconnect \<Longrightarrow>
   AsioSession_ProcessDisconnect s c =
     Inr ((upd_sess s (\<lambda>y. y\<lparr>m_NetState := NetState_Disconnect\<rparr>) c)
       \<lparr>c_tasks := TaskQueue_PushTask (m_SessionUID x) NetState_Disconnect (c_tasks c)\<rparr>)"
  by (simp add: AsioSession_ProcessDisconnect_def Let_def)

lemma ProcessDisconnect_done:
  "c_heap c s = Some x \<Longrightarrow> m_NetState x = NetState_Disconnect \<Longrightarrow> AsioSession_ProcessDisconnect s c = Inr c"
  by (simp add: AsioSession_ProcessDisconnect_def)

lemma ProcessDisconnect_state:
  "AsioSession_ProcessDisconnect s c = Inr c' \<Longrightarrow>
   \<exists>x. c_heap c' s = Some x \<and> m_NetState x = NetState_Disconnect"
  by (cases "c_heap c s"; cases "m_NetState (the (c_heap c s)) = NetState_Disconnect")
    (auto simp: ProcessDisconnect_first ProcessDisconnect_done,
      simp_all add: AsioSession_ProcessDisconnect_def)

lemma ProcessDisconnect_idem:
  "AsioSession_ProcessDisconnect s c = Inr c' \<Longrightarrow> AsioSession_ProcessDisconnect s c' = Inr c'"
  using ProcessDisconnect_state ProcessDisconnect_done by blast

lemma HandleRead_error:
  "r \<noteq> Read_ok \<Longrightarrow> AsioSession_HandleRead r len s c = Some (AsioSession_ProcessDisconnect s c)"
  by (cases r) (simp_all add: AsioSession_HandleRead_def)

section \<open>Live sessions\<close>

text \<open>Connected, registered under its UID, known to the service, and not yet disconnected.\<close>

definition live :: "('s, 'z) Core_scheme \<Rightarrow> session_ptr \<Rightarrow> bool" where
  "live c s \<longleftrightarrow>
     (\<exists>x. c_heap c s = Some x \<and> m_Socket x \<noteq> None \<and> m_Service x \<and> m_NetState x \<noteq> NetState_Disconnect
        \<and> c_manager c (m_SessionUID x) = Some s \<and> s \<in> set (m_Sessions (c_service c)))"

text \<open>Gone: unregistered everywhere, the socket closed.\<close>

definition gone :: "('s, 'z) Core_scheme \<Rightarrow> session_ptr \<Rightarrow> bool" where
  "gone c s \<longleftrightarrow> SessionManager_GetSession (uid_of c s) (c_manager c) = None
     \<and> s \<notin> set (m_Sessions (c_service c))
     \<and> (\<exists>x. c_heap c s = Some x \<and> m_Socket x = Some False)"

text \<open>A session on which \<^verbatim>\<open>Disconnect\<close> comes back to the service.\<close>

definition blocks :: "('s, 'z) Core_scheme \<Rightarrow> session_ptr \<Rightarrow> bool" where
  "blocks c s \<longleftrightarrow> (\<exists>x. c_heap c s = Some x \<and> m_Socket x \<noteq> None \<and> m_Service x)"

text \<open>A task for a UID that is not registered changes nothing.\<close>

lemma ProcessIoTask_unknown:
  "SessionManager_GetSession (task_sessionUID t) (c_manager c) = None \<Longrightarrow>
   TaskQueue_ProcessIoTask h t c = Inr c"
  by (simp add: TaskQueue_ProcessIoTask_def)

section \<open>The interface of a derived session class\<close>

text \<open>
  \<open>hook\<close> is \<^verbatim>\<open>OnDisconnected\<close>: it unregisters the session from the manager, may change its running
  flag, and leaves the service, the task queue and all other sessions alone.
\<close>

locale session_hook =
  fixes hook :: "session_ptr \<Rightarrow> ('s, 'z) Core_scheme \<Rightarrow> ('s, 'z) Core_scheme res"
  assumes hook_ok: "c_heap c s = Some x \<Longrightarrow>
    \<exists>c1 r. hook s c = Inr c1 \<and> c_service c1 = c_service c \<and> c_tasks c1 = c_tasks c
      \<and> c_manager c1 = (c_manager c)(m_SessionUID x := None)
      \<and> c_heap c1 = (c_heap c)(s \<mapsto> x\<lparr>m_IsRunning := r\<rparr>)"
begin

lemma CloseSession_live:
  assumes "c_heap c s = Some x" "m_Socket x \<noteq> None" "m_Service x"
    "s \<in> set (m_Sessions (c_service c))" "service_inv (c_service c)"
  obtains c' where "AsioSession_CloseSession hook False s c = Inr c'"
    "gone c' s" "service_inv (c_service c')"
    "set (m_Sessions (c_service c')) = set (m_Sessions (c_service c)) - {s}"
    "uid_of c' s = m_SessionUID x" "c_tasks c' = c_tasks c"
    "c_manager c' = (c_manager c)(m_SessionUID x := None)"
    "\<forall>t. t \<noteq> s \<longrightarrow> c_heap c' t = c_heap c t"
proof -
  obtain c1 r where c1: "hook s c = Inr c1" "c_service c1 = c_service c" "c_tasks c1 = c_tasks c"
    "c_manager c1 = (c_manager c)(m_SessionUID x := None)" "c_heap c1 = (c_heap c)(s \<mapsto> x\<lparr>m_IsRunning := r\<rparr>)"
    using hook_ok [OF assms(1)] by blast
  let ?c2 = "upd_sess s (\<lambda>y. y\<lparr>m_Socket := Some False\<rparr>) c1"
  obtain sv where sv: "AsioService_ReleaseSession False s (c_service c) = Inr sv"
    by (simp add: AsioService_ReleaseSession_def)
  have inv: "service_inv sv \<and> set (m_Sessions sv) = set (m_Sessions (c_service c)) - {s}"
    by (rule service_inv_Release [OF assms(5,4) sv])
  have run: "AsioSession_CloseSession hook False s c = Inr (?c2\<lparr>c_service := sv\<rparr>)"
    using assms(1-3) sv c1(1,2) by (auto simp: AsioSession_CloseSession_def Let_def)
  have uid: "uid_of (?c2\<lparr>c_service := sv\<rparr>) s = m_SessionUID x"
    using c1(5) by (simp add: uid_of_def)
  show thesis
  proof (rule that [OF run])
    show "gone (?c2\<lparr>c_service := sv\<rparr>) s"
      using inv c1 uid by (simp add: gone_def SessionManager_GetSession_def)
  qed (use inv uid c1 in simp_all)
qed

text \<open>The whole way of a session that the peer leaves.\<close>

lemma disconnect_path:
  assumes "live c s" "service_inv (c_service c)" "tq_IsRunning (c_tasks c)" "r \<noteq> Read_ok"
  obtains c1 c2 where
    "AsioSession_HandleRead r len s c = Some (Inr c1)"
    "tq_TaskQueue (c_tasks c1) = tq_TaskQueue (c_tasks c) @ [IoTask_of (uid_of c s) NetState_Disconnect]"
    "TaskQueue_ProcessIoTask hook (IoTask_of (uid_of c s) NetState_Disconnect) c1 = Inr c2"
    "gone c2 s" "uid_of c2 s = uid_of c s" "service_inv (c_service c2)"
    "set (m_Sessions (c_service c2)) = set (m_Sessions (c_service c)) - {s}"
proof -
  obtain x where x: "c_heap c s = Some x" "m_Socket x \<noteq> None" "m_Service x"
    "m_NetState x \<noteq> NetState_Disconnect" "c_manager c (m_SessionUID x) = Some s"
    "s \<in> set (m_Sessions (c_service c))"
    using assms(1) by (auto simp: live_def)
  let ?c1 = "(upd_sess s (\<lambda>y. y\<lparr>m_NetState := NetState_Disconnect\<rparr>) c)
       \<lparr>c_tasks := TaskQueue_PushTask (m_SessionUID x) NetState_Disconnect (c_tasks c)\<rparr>"
  let ?x1 = "x\<lparr>m_NetState := NetState_Disconnect\<rparr>"
  have uid: "uid_of c s = m_SessionUID x" using x(1) by (simp add: uid_of_def)
  have run: "AsioSession_HandleRead r len s c = Some (Inr ?c1)"
    by (simp add: HandleRead_error [OF assms(4)] ProcessDisconnect_first [OF x(1,4)])
  have h1: "c_heap ?c1 s = Some ?x1" "m_Socket ?x1 \<noteq> None" "m_Service ?x1"
    "s \<in> set (m_Sessions (c_service ?c1))" "service_inv (c_service ?c1)"
    using x assms(2) by simp_all
  obtain c2 where c2: "AsioSession_CloseSession hook False s ?c1 = Inr c2"
    "gone c2 s" "service_inv (c_service c2)"
    "set (m_Sessions (c_service c2)) = set (m_Sessions (c_service ?c1)) - {s}"
    "uid_of c2 s = m_SessionUID ?x1"
    by (rule CloseSession_live [OF h1]) blast
  show thesis
  proof (rule that [OF run])
    show "TaskQueue_ProcessIoTask hook (IoTask_of (uid_of c s) NetState_Disconnect) ?c1 = Inr c2"
      using c2(1) x(5) uid
      by (simp add: TaskQueue_ProcessIoTask_def IoTask_of_def SessionManager_GetSession_def)
  qed (use c2 assms(3) uid in \<open>simp_all add: TaskQueue_PushTask_def cq_push_def\<close>)
qed

lemma Disconnect_locked:
  assumes x: "c_heap c s = Some x"
  shows "blocks c s \<Longrightarrow> AsioSession_Disconnect hook True s c = Inl SelfDeadlock"
    "\<not> blocks c s \<Longrightarrow> \<exists>c1 y. AsioSession_Disconnect hook True s c = Inr c1 \<and> c_service c1 = c_service c
       \<and> c_heap c1 = (c_heap c)(s \<mapsto> y)"
proof -
  obtain c1 r where c1: "hook s c = Inr c1" "c_service c1 = c_service c" "c_heap c1 = (c_heap c)(s \<mapsto> x\<lparr>m_IsRunning := r\<rparr>)"
    using hook_ok [OF x] by blast
  have h: "c_heap c1 s = Some (x\<lparr>m_IsRunning := r\<rparr>)" using c1(3) by simp
  obtain c2 r2 where c2: "hook s c1 = Inr c2" "c_service c2 = c_service c1"
    "c_heap c2 = (c_heap c1)(s \<mapsto> x\<lparr>m_IsRunning := r\<rparr>\<lparr>m_IsRunning := r2\<rparr>)"
    using hook_ok [OF h] by blast
  have run: "AsioSession_Disconnect hook True s c =
      (if m_Socket x = None then Inr c1
       else if m_Service x then Inl SelfDeadlock
       else Inr (upd_sess s (\<lambda>y. y\<lparr>m_Socket := Some False\<rparr>) c2))"
    using c1(1) h c2(1) by (simp add: AsioSession_Disconnect_def AsioSession_CloseSession_def
        AsioService_ReleaseSession_def Let_def)
  show "AsioSession_Disconnect hook True s c = Inl SelfDeadlock" if "blocks c s"
    using that run x by (auto simp: blocks_def)
  show "\<exists>c1 y. AsioSession_Disconnect hook True s c = Inr c1 \<and> c_service c1 = c_service c \<and> c_heap c1 = (c_heap c)(s \<mapsto> y)"
    if "\<not> blocks c s"
    using that run x c1(2,3) c2(2,3) by (cases "m_Socket x") (auto simp: blocks_def upd_sess_def)
qed

text \<open>Without the mutex a session that blocks is released; the others stay in the set.\<close>

lemma Disconnect_unlocked:
  assumes x: "c_heap c s = Some x"
  obtains c1 y where "AsioSession_Disconnect hook False s c = Inr c1" "c_heap c1 = (c_heap c)(s \<mapsto> y)"
    "m_Sessions (c_service c1) = (if blocks c s then remove1 s (m_Sessions (c_service c)) else m_Sessions (c_service c))"
proof -
  obtain c1 r where c1: "hook s c = Inr c1" "c_service c1 = c_service c" "c_heap c1 = (c_heap c)(s \<mapsto> x\<lparr>m_IsRunning := r\<rparr>)"
    using hook_ok [OF x] by blast
  have h: "c_heap c1 s = Some (x\<lparr>m_IsRunning := r\<rparr>)" using c1(3) by simp
  obtain c2 r2 where c2: "hook s c1 = Inr c2" "c_service c2 = c_service c1"
    "c_heap c2 = (c_heap c1)(s \<mapsto> x\<lparr>m_IsRunning := r\<rparr>\<lparr>m_IsRunning := r2\<rparr>)"
    using hook_ok [OF h] by blast
  let ?c3 = "upd_sess s (\<lambda>y. y\<lparr>m_Socket := Some False\<rparr>) c2"
  let ?sv = "(c_service c2)\<lparr>m_Sessions := remove1 s (m_Sessions (c_service c2)),
                  m_SessionCount := i32 (m_SessionCount (c_service c2) - 1)\<rparr>"
  have run: "AsioSession_Disconnect hook False s c =
      (if m_Socket x = None then Inr c1
       else if m_Service x then Inr (?c3\<lparr>c_service := ?sv\<rparr>) else Inr ?c3)"
    using c1(1) h c2(1) by (simp add: AsioSession_Disconnect_def AsioSession_CloseSession_def
        AsioService_ReleaseSession_def Let_def)
  have b: "blocks c s \<longleftrightarrow> m_Socket x \<noteq> None \<and> m_Service x" using x by (simp add: blocks_def)
  show thesis
  proof (cases "m_Socket x = None")
    case True
    then show thesis using that [of c1] run c1 b by simp
  next
    case False
    have "c_heap ?c3 = (c_heap c)(s \<mapsto> x\<lparr>m_IsRunning := r\<rparr>\<lparr>m_IsRunning := r2\<rparr>\<lparr>m_Socket := Some False\<rparr>)"
      using c1(3) c2(3) by (simp add: upd_sess_def)
    then show thesis
      using False that [of "if m_Service x then ?c3\<lparr>c_service := ?sv\<rparr> else ?c3"] run c1(2) c2(2) b
      by (cases "m_Service x") auto
  qed
qed

lemma close_all_blocked:
  assumes "\<forall>s \<in> set ss. c_heap c s \<noteq> None" "distinct ss" "\<exists>s \<in> set ss. blocks c s"
  shows "close_all hook ss c = Inl SelfDeadlock"
  using assms
proof (induction ss arbitrary: c)
  case (Cons s ss)
  obtain x where x: "c_heap c s = Some x" using Cons.prems(1) by auto
  show ?case
  proof (cases "blocks c s")
    case True
    then show ?thesis using Disconnect_locked(1) [OF x] by simp
  next
    case False
    then obtain c1 where c1: "AsioSession_Disconnect hook True s c = Inr c1"
      "\<forall>t. t \<noteq> s \<longrightarrow> c_heap c1 t = c_heap c t"
      using Disconnect_locked(2) [OF x] by auto
    let ?c2 = "upd_sess s AsioSession_Reset c1"
    have same: "\<forall>t \<in> set ss. c_heap ?c2 t = c_heap c t" using c1(2) Cons.prems(2) by auto
    have "close_all hook ss ?c2 = Inl SelfDeadlock"
      using Cons.prems False same by (intro Cons.IH) (auto simp: blocks_def)
    with c1(1) show ?thesis by simp
  qed
qed simp

lemma close_all_ok:
  assumes "\<forall>s \<in> set ss. c_heap c s \<noteq> None \<and> \<not> blocks c s" "distinct ss"
  shows "\<exists>c'. close_all hook ss c = Inr c' \<and> c_service c' = c_service c"
  using assms
proof (induction ss arbitrary: c)
  case (Cons s ss)
  obtain x where x: "c_heap c s = Some x" using Cons.prems(1) by auto
  from Cons.prems(1) have "\<not> blocks c s" by simp
  then obtain c1 where c1: "AsioSession_Disconnect hook True s c = Inr c1"
    "\<forall>t. t \<noteq> s \<longrightarrow> c_heap c1 t = c_heap c t" "c_service c1 = c_service c"
    using Disconnect_locked(2) [OF x] by auto
  let ?c2 = "upd_sess s AsioSession_Reset c1"
  have same: "\<forall>t \<in> set ss. c_heap ?c2 t = c_heap c t" using c1(2) Cons.prems(2) by auto
  have "\<exists>c'. close_all hook ss ?c2 = Inr c' \<and> c_service c' = c_service ?c2"
    using Cons.prems same by (intro Cons.IH) (auto simp: blocks_def)
  with c1 show ?case by auto
qed simp

lemma CloseService_result:
  assumes "\<forall>s \<in> set (m_Sessions (c_service c)). c_heap c s \<noteq> None" "distinct (m_Sessions (c_service c))"
  shows "(\<exists>s \<in> set (m_Sessions (c_service c)). blocks c s) \<Longrightarrow>
      AsioService_CloseService hook c = Inl SelfDeadlock"
    "\<not> (\<exists>s \<in> set (m_Sessions (c_service c)). blocks c s) \<Longrightarrow>
      \<exists>c'. AsioService_CloseService hook c = Inr c'
        \<and> m_Sessions (c_service c') = [] \<and> m_SessionCount (c_service c') = 0 \<and> m_IoStopped (c_service c')"
  using close_all_blocked [OF assms] close_all_ok [of "m_Sessions (c_service c)" c] assms
  by (auto simp: AsioService_CloseService_def)

end

end
