(* ===== verification/Proto_Wire.thy ===== *)
theory Proto_Wire
  imports YJ_Prelude
begin

unbundle bit_operations_syntax

text \<open>
  The protobuf wire format as the vendored runtime reads and writes it
  (\<^verbatim>\<open>Libraries/include/google/protobuf/parse_context.h\<close>, \<^verbatim>\<open>parse_context.cc\<close>,
  \<^verbatim>\<open>io/coded_stream.h\<close>): varints, tags, length-delimited fields, and the loop of the generated
  parsers. A read that runs past the end of its message fails. The runtime notices that at
  the next \<^verbatim>\<open>Done\<close>, when it has read bytes of its own padding; either way the parse fails and
  the message is dropped. Whether a string is UTF-8 is decided by a table of the runtime: it
  is an argument of the string reader. Values of unknown fields are skipped, not stored: no
  message that was parsed is ever serialised again.
\<close>

section \<open>Varints\<close>

text \<open>\<^verbatim>\<open>UnsafeVarint\<close>, on the value of the unsigned argument.\<close>

fun UnsafeVarint :: "nat \<Rightarrow> byte list" where
  "UnsafeVarint v = (if v < 128 then [of_nat v] else of_nat (v mod 128 + 128) # UnsafeVarint (v div 128))"

declare UnsafeVarint.simps [simp del]

text \<open>
  The number of bytes of a varint, as its writer makes them; it stands for the size of a
  length, which the runtime casts to 32 bits (strings here are below 2 GB).
\<close>

fun VarintSize :: "nat \<Rightarrow> nat" where
  "VarintSize v = (if v < 128 then 1 else Suc (VarintSize (v div 128)))"

declare VarintSize.simps [simp del]

text \<open>
  The runtime's own size functions use the position of the highest bit (\<^verbatim>\<open>_BitScanReverse\<close> on
  this platform) and a multiplication instead of a division by 7.
\<close>

fun Log2FloorNonZero :: "nat \<Rightarrow> nat" where
  "Log2FloorNonZero n = (if n < 2 then 0 else Suc (Log2FloorNonZero (n div 2)))"

declare Log2FloorNonZero.simps [simp del]

definition VarintSize32 :: "uint32 \<Rightarrow> nat" where
  "VarintSize32 v = (Log2FloorNonZero (unat (v OR 1)) * 9 + 73) div 64"

definition VarintSize64 :: "uint64 \<Rightarrow> nat" where
  "VarintSize64 v = (Log2FloorNonZero (unat (v OR 1)) * 9 + 73) div 64"

definition VarintSize32SignExtended :: "uint32 \<Rightarrow> nat" where
  "VarintSize32SignExtended v = (if v <s 0 then 10 else VarintSize32 v)"

text \<open>At most \<open>n\<close> bytes, least significant group first.\<close>

fun VarintParse :: "nat \<Rightarrow> byte list \<Rightarrow> (nat \<times> byte list) option" where
  "VarintParse 0 bs = None"
| "VarintParse (Suc n) [] = None"
| "VarintParse (Suc n) (b # bs) =
     (if unat b < 128 then Some (unat b, bs)
      else case VarintParse n bs of
             None \<Rightarrow> None
           | Some (v, rest) \<Rightarrow> Some (unat b - 128 + 128 * v, rest))"

definition ReadTag :: "byte list \<Rightarrow> (uint32 \<times> byte list) option" where
  "ReadTag bs = map_option (\<lambda>(v, r). (of_nat v, r)) (VarintParse 5 bs)"

definition ReadVarint32 :: "byte list \<Rightarrow> (uint32 \<times> byte list) option" where
  "ReadVarint32 bs = map_option (\<lambda>(v, r). (of_nat v, r)) (VarintParse 10 bs)"

definition ReadVarint64 :: "byte list \<Rightarrow> (uint64 \<times> byte list) option" where
  "ReadVarint64 bs = map_option (\<lambda>(v, r). (of_nat v, r)) (VarintParse 10 bs)"

definition ReadSize :: "byte list \<Rightarrow> (nat \<times> byte list) option" where
  "ReadSize bs =
     (case VarintParse 5 bs of
        None \<Rightarrow> None
      | Some (v, r) \<Rightarrow> if v \<le> 2147483631 then Some (v, r) else None)"

lemma VarintParse_shorter: "VarintParse n bs = Some (v, r) \<Longrightarrow> length r < length bs"
proof (induction n bs arbitrary: v r rule: VarintParse.induct)
  case (3 n b bs)
  then show ?case
    by (cases "unat b < 128") (auto split: option.splits intro: less_SucI)
qed simp_all

lemma read_shorter:
  "ReadTag bs = Some (t, r) \<Longrightarrow> length r < length bs"
  "ReadVarint32 bs = Some (v, r) \<Longrightarrow> length r < length bs"
  "ReadVarint64 bs = Some (w, r) \<Longrightarrow> length r < length bs"
  "ReadSize bs = Some (n, r) \<Longrightarrow> length r < length bs"
  by (auto simp: ReadTag_def ReadVarint32_def ReadVarint64_def ReadSize_def
      dest: VarintParse_shorter split: option.splits if_splits)

lemma VarintParse_UnsafeVarint:
  "v < 128 ^ n \<Longrightarrow> 0 < n \<Longrightarrow> VarintParse n (UnsafeVarint v @ rest) = Some (v, rest)"
proof (induction n arbitrary: v)
  case (Suc n)
  show ?case
  proof (cases "v < 128")
    case True
    then have "unat (of_nat v :: byte) = v" by (simp add: unat_of_nat)
    with True show ?thesis by (simp add: UnsafeVarint.simps [of v])
  next
    case False
    have b: "unat (of_nat (v mod 128 + 128) :: byte) = v mod 128 + 128"
      using mod_less_divisor [of 128 v] by (simp add: unat_of_nat del: of_nat_add mod_less_divisor)
    have "v div 128 < 128 ^ n" using Suc.prems by (simp add: less_mult_imp_div_less mult.commute)
    moreover from this False have "0 < n" by (cases n) auto
    ultimately have "VarintParse n (UnsafeVarint (v div 128) @ rest) = Some (v div 128, rest)"
      by (rule Suc.IH)
    with False b show ?thesis
      by (simp add: UnsafeVarint.simps [of v] del: of_nat_add)
  qed
qed simp

lemma length_UnsafeVarint: "length (UnsafeVarint v) = VarintSize v"
proof (induction v rule: UnsafeVarint.induct)
  case (1 v)
  then show ?case by (simp add: UnsafeVarint.simps [of v] VarintSize.simps [of v])
qed

lemma VarintSize_le: "v < 128 ^ n \<Longrightarrow> 0 < n \<Longrightarrow> VarintSize v \<le> n"
proof (induction n arbitrary: v)
  case (Suc n)
  show ?case
  proof (cases "v < 128")
    case False
    have "v div 128 < 128 ^ n" using Suc.prems by (simp add: less_mult_imp_div_less mult.commute)
    moreover from this False have "0 < n" by (cases n) auto
    ultimately show ?thesis using Suc.IH False by (simp add: VarintSize.simps [of v])
  qed (simp add: VarintSize.simps [of v])
qed simp

text \<open>The formula counts the bytes of the writer.\<close>

lemma Log2FloorNonZero_less: "n < 2 ^ k \<Longrightarrow> 0 < k \<Longrightarrow> Log2FloorNonZero n < k"
proof (induction k arbitrary: n)
  case (Suc k)
  show ?case
  proof (cases "n < 2")
    case False
    then have "n div 2 < 2 ^ k" "0 < k" using Suc.prems by (auto intro: gr0I)
    with Suc.IH False show ?thesis by (simp add: Log2FloorNonZero.simps [of n])
  qed (simp add: Log2FloorNonZero.simps [of n])
qed simp

lemma Log2FloorNonZero_128:
  assumes "128 \<le> n"
  shows "Log2FloorNonZero n = 7 + Log2FloorNonZero (n div 128)"
proof -
  have step: "Log2FloorNonZero m = Suc (Log2FloorNonZero (m div 2))" if "2 \<le> m" for m
    using that by (simp add: Log2FloorNonZero.simps [of m])
  have h: "2 \<le> n" "2 \<le> n div 2" "2 \<le> n div 4" "2 \<le> n div 8" "2 \<le> n div 16" "2 \<le> n div 32" "2 \<le> n div 64"
    using assms by (simp_all add: less_eq_div_iff_mult_less_eq)
  have d: "n div 2 div 2 = n div 4" "n div 4 div 2 = n div 8" "n div 8 div 2 = n div 16" "n div 16 div 2 = n div 32"
    "n div 32 div 2 = n div 64" "n div 64 div 2 = n div 128"
    by (simp_all only: div_mult2_eq [symmetric]) simp_all
  show ?thesis
    unfolding step [OF h(1)] step [OF h(2)] d(1) step [OF h(3)] d(2) step [OF h(4)] d(3) step [OF h(5)] d(4)
      step [OF h(6)] d(5) step [OF h(7)] d(6)
    by simp
qed

lemma Log2FloorNonZero_or_1: "Log2FloorNonZero (n OR 1) = Log2FloorNonZero n"
proof -
  have e: "n OR 1 = n + of_bool (even n)" by (rule or_one_eq)
  have "(n OR 1) div 2 = n div 2" unfolding e by (cases "even n") (auto elim: evenE)
  moreover have "n OR 1 < 2 \<longleftrightarrow> n < 2" unfolding e by (cases "even n") (auto elim: evenE)
  ultimately show ?thesis
    by (metis Log2FloorNonZero.simps)
qed

lemma VarintSize_log: "VarintSize v = Log2FloorNonZero v div 7 + 1"
proof (induction v rule: VarintSize.induct)
  case (1 v)
  show ?case
  proof (cases "v < 128")
    case True
    then have "Log2FloorNonZero v < 7" using Log2FloorNonZero_less [of v 7] by simp
    with True show ?thesis by (simp add: VarintSize.simps [of v])
  next
    case False
    with 1 Log2FloorNonZero_128 [of v] show ?thesis by (simp add: VarintSize.simps [of v])
  qed
qed

lemma VarintSize_formula: "v < 2 ^ 64 \<Longrightarrow> (Log2FloorNonZero v * 9 + 73) div 64 = VarintSize v"
proof -
  assume "v < 2 ^ 64"
  then have "Log2FloorNonZero v < 64" using Log2FloorNonZero_less [of v 64] by simp
  then have "Log2FloorNonZero v \<in> set [0..<64]" by simp
  moreover have "\<forall>k \<in> set [0..<64]. (k * 9 + 73) div 64 = k div 7 + (1 :: nat)" by code_simp
  ultimately show ?thesis by (simp add: VarintSize_log)
qed

lemma VarintSize32_eq: "VarintSize32 v = VarintSize (unat v)"
  using VarintSize_formula [of "unat v"] unsigned_less [of v, where ?'a = nat] Log2FloorNonZero_or_1 [of "unat v"]
  by (simp add: VarintSize32_def unsigned_or_eq)

lemma VarintSize64_eq: "VarintSize64 v = VarintSize (unat v)"
  using VarintSize_formula [of "unat v"] unsigned_less [of v, where ?'a = nat] Log2FloorNonZero_or_1 [of "unat v"]
  by (simp add: VarintSize64_def unsigned_or_eq)

lemma VarintSize_ge: "128 ^ n \<le> v \<Longrightarrow> n < VarintSize v"
proof (induction n arbitrary: v)
  case 0
  then show ?case by (simp add: VarintSize.simps [of v])
next
  case (Suc n)
  then have "128 ^ n \<le> v div 128" by (simp add: less_eq_div_iff_mult_less_eq mult.commute)
  moreover have "\<not> v < 128"
    using order_trans [OF _ Suc.prems [unfolded power_Suc], of 128] by (simp add: not_less)
  ultimately show ?case using Suc.IH by (simp add: VarintSize.simps [of v])
qed

lemma VarintSize32SignExtended_eq: "VarintSize32SignExtended v = VarintSize (unat (scast v :: uint64))"
proof -
  have r: "- 2147483648 \<le> sint v" "sint v < 2147483648"
    using sint_greater_eq [of v] sint_lt [of v] by simp_all
  have u: "uint (scast v :: uint64) = sint v mod 18446744073709551616"
    by (simp only: scast_eq uint_word_of_int) simp
  show ?thesis
  proof (cases "v <s 0")
    case True
    then have "sint v < 0" by (simp add: word_sless_alt)
    then have "(sint v + 18446744073709551616) mod 18446744073709551616 = sint v + 18446744073709551616"
      using r by (intro mod_pos_pos_trivial) simp_all
    then have "uint (scast v :: uint64) = sint v + 18446744073709551616" using u by simp
    then have n: "128 ^ 9 \<le> unat (scast v :: uint64)" using r by (simp add: unat_eq_nat_uint)
    have "unat (scast v :: uint64) < 128 ^ 10"
      using unsigned_less [of "scast v :: uint64", where ?'a = nat] by simp
    with VarintSize_ge [OF n] VarintSize_le [of "unat (scast v :: uint64)" 10] True show ?thesis
      by (simp add: VarintSize32SignExtended_def)
  next
    case False
    then have p: "0 \<le> sint v" by (simp add: word_sless_alt)
    then have "uint (scast v :: uint64) = sint v" using u r by simp
    moreover have "uint (word_of_int (sint v) :: uint32) = sint v mod 4294967296"
      by (simp only: uint_word_of_int) simp
    then have "uint v = sint v" using p r by simp
    ultimately have "unat (scast v :: uint64) = unat v" by (simp add: unat_eq_nat_uint)
    with False show ?thesis by (simp add: VarintSize32SignExtended_def VarintSize32_eq)
  qed
qed

lemma ReadVarint32_write: "ReadVarint32 (UnsafeVarint (unat (w :: uint32)) @ rest) = Some (w, rest)"
  using VarintParse_UnsafeVarint [of "unat w" 10 rest] unsigned_less [of w, where ?'a = nat]
  by (simp add: ReadVarint32_def)

lemma ReadVarint64_write: "ReadVarint64 (UnsafeVarint (unat (w :: uint64)) @ rest) = Some (w, rest)"
  using VarintParse_UnsafeVarint [of "unat w" 10 rest] unsigned_less [of w, where ?'a = nat]
  by (simp add: ReadVarint64_def)

lemma ReadSize_write: "n \<le> 2147483631 \<Longrightarrow> ReadSize (UnsafeVarint n @ rest) = Some (n, rest)"
  using VarintParse_UnsafeVarint [of n 5 rest] by (simp add: ReadSize_def)

section \<open>Fields\<close>

text \<open>Length-delimited bytes: a size, then as many bytes.\<close>

definition ReadString :: "byte list \<Rightarrow> (byte list \<times> byte list) option" where
  "ReadString bs =
     (case ReadSize bs of
        None \<Rightarrow> None
      | Some (n, r) \<Rightarrow> if n \<le> length r then Some (take n r, drop n r) else None)"

text \<open>\<^verbatim>\<open>InlineGreedyStringParser\<close> and \<^verbatim>\<open>VerifyUTF8\<close>, as the generated code calls them.\<close>

definition ReadUtf8 :: "(byte list \<Rightarrow> bool) \<Rightarrow> byte list \<Rightarrow> (byte list \<times> byte list) option" where
  "ReadUtf8 utf8 bs =
     (case ReadString bs of
        None \<Rightarrow> None
      | Some (s, r) \<Rightarrow> if utf8 s then Some (s, r) else None)"

lemma ReadString_shorter: "ReadString bs = Some (s, r) \<Longrightarrow> length r < length bs"
  by (fastforce simp: ReadString_def dest: read_shorter(4) split: option.splits if_splits)

lemma ReadUtf8_shorter: "ReadUtf8 utf8 bs = Some (s, r) \<Longrightarrow> length r < length bs"
  by (auto simp: ReadUtf8_def dest: ReadString_shorter split: option.splits if_splits)

text \<open>The value of a field that the message does not know, by the wire type of its tag.\<close>

definition skip_bytes :: "nat \<Rightarrow> byte list \<Rightarrow> byte list option" where
  "skip_bytes n bs = (if n \<le> length bs then Some (drop n bs) else None)"

definition FieldParser_scalar :: "uint32 \<Rightarrow> byte list \<Rightarrow> byte list option" where
  "FieldParser_scalar tag bs =
     (if drop_bit 3 tag = 0 then None
      else if tag AND 7 = 0 then map_option snd (ReadVarint64 bs)
      else if tag AND 7 = 1 then skip_bytes 8 bs
      else if tag AND 7 = 2 then map_option snd (ReadString bs)
      else if tag AND 7 = 5 then skip_bytes 4 bs
      else None)"

text \<open>
  \<^verbatim>\<open>ParseGroup\<close> and \<^verbatim>\<open>WireFormatParser\<close>: the fields up to the end tag that matches \<open>start\<close>. The
  test on the lengths always holds, see \<open>ParseGroup_shorter\<close>.
\<close>

function ParseGroup :: "nat \<Rightarrow> uint32 \<Rightarrow> byte list \<Rightarrow> byte list option" where
  "ParseGroup depth start bs =
     (case ReadTag bs of
        None \<Rightarrow> None
      | Some (tag, r) \<Rightarrow>
          if tag = 0 \<or> tag AND 7 = 4 then if tag - 1 = start then Some r else None
          else if tag AND 7 = 3 then
            if drop_bit 3 tag = 0 \<or> depth = 0 then None
            else case ParseGroup (depth - 1) tag r of
                   None \<Rightarrow> None
                 | Some r' \<Rightarrow> if length r' < length bs then ParseGroup depth start r' else None
          else case FieldParser_scalar tag r of
                 None \<Rightarrow> None
               | Some r' \<Rightarrow> if length r' < length bs then ParseGroup depth start r' else None)"
  by pat_completeness auto
termination
  by (relation "measure (length \<circ> snd \<circ> snd)") (auto dest: read_shorter(1))

declare ParseGroup.simps [simp del]

definition UnknownFieldParse :: "nat \<Rightarrow> uint32 \<Rightarrow> byte list \<Rightarrow> byte list option" where
  "UnknownFieldParse depth tag bs =
     (if tag AND 7 = 3
      then if drop_bit 3 tag = 0 \<or> depth = 0 then None else ParseGroup (depth - 1) tag bs
      else FieldParser_scalar tag bs)"

lemma FieldParser_scalar_shorter: "FieldParser_scalar tag bs = Some r \<Longrightarrow> length r \<le> length bs"
  by (auto simp: FieldParser_scalar_def skip_bytes_def split: if_splits
      dest!: read_shorter(3) ReadString_shorter)

lemma ParseGroup_shorter: "ParseGroup depth start bs = Some r \<Longrightarrow> length r < length bs"
proof (induction depth start bs arbitrary: r rule: ParseGroup.induct)
  case (1 depth start bs)
  from "1.prems" obtain tag r0 where t: "ReadTag bs = Some (tag, r0)"
    by (auto simp: ParseGroup.simps [of depth] split: option.splits)
  have s: "length r0 < length bs" using read_shorter(1) [OF t] .
  show ?case
  proof (cases "tag = 0 \<or> tag AND 7 = 4")
    case True
    with "1.prems" t s show ?thesis
      by (auto simp: ParseGroup.simps [of depth] split: if_splits)
  next
    case False
    show ?thesis
    proof (cases "tag AND 7 = 3")
      case True
      with "1.prems" t False obtain r1 where
        "length r1 < length bs" "ParseGroup depth start r1 = Some r"
        "ParseGroup (depth - 1) tag r0 = Some r1" "drop_bit 3 tag \<noteq> 0" "depth \<noteq> 0"
        by (auto simp: ParseGroup.simps [of depth _ bs] split: option.splits if_splits)
      then show ?thesis using "1.IH"(2) [OF t refl False True] by fastforce
    next
      case no: False
      with "1.prems" t False obtain r1 where
        "length r1 < length bs" "ParseGroup depth start r1 = Some r" "FieldParser_scalar tag r0 = Some r1"
        by (auto simp: ParseGroup.simps [of depth _ bs] split: option.splits if_splits)
      then show ?thesis using "1.IH"(3) [OF t refl False no] by fastforce
    qed
  qed
qed

lemma UnknownFieldParse_shorter: "UnknownFieldParse depth tag bs = Some r \<Longrightarrow> length r \<le> length bs"
  by (auto simp: UnknownFieldParse_def dest: FieldParser_scalar_shorter ParseGroup_shorter
      split: if_splits)

section \<open>The loop of a generated parser\<close>

text \<open>
  The \<^verbatim>\<open>switch\<close> of a message is a function of the tag, the input behind it and the message so
  far: it does not know the tag (\<^verbatim>\<open>goto handle_unusual\<close>), fails, or yields the rest of the
  input and the message.
\<close>

datatype 'm field_result = Unusual | Failure | Field "byte list" 'm

definition field_of :: "('v \<times> byte list) option \<Rightarrow> ('v \<Rightarrow> 'm) \<Rightarrow> 'm field_result" where
  "field_of r f = (case r of None \<Rightarrow> Failure | Some (v, rest) \<Rightarrow> Field rest (f v))"

function parse_loop ::
    "nat \<Rightarrow> (uint32 \<Rightarrow> byte list \<Rightarrow> 'm \<Rightarrow> 'm field_result) \<Rightarrow> byte list \<Rightarrow> 'm \<Rightarrow> 'm option" where
  "parse_loop depth sw bs m =
     (if bs = [] then Some m
      else case ReadTag bs of
        None \<Rightarrow> None
      | Some (tag, r) \<Rightarrow>
          (case sw tag r m of
             Field r' m' \<Rightarrow> if length r' < length bs then parse_loop depth sw r' m' else None
           | Failure \<Rightarrow> None
           | Unusual \<Rightarrow>
               if tag = 0 \<or> tag AND 7 = 4 then None
               else case UnknownFieldParse depth tag r of
                      None \<Rightarrow> None
                    | Some r' \<Rightarrow> if length r' < length bs then parse_loop depth sw r' m else None))"
  by pat_completeness auto
termination
  by (relation "measure (length \<circ> fst \<circ> snd \<circ> snd)") auto

declare parse_loop.simps [simp del]

lemma parse_loop_Nil [simp]: "parse_loop depth sw [] m = Some m"
  by (simp add: parse_loop.simps)

lemma ReadTag_byte: "unat tag < 128 \<Longrightarrow> ReadTag (tag # r) = Some (ucast tag, r)"
proof -
  assume "unat tag < 128"
  moreover have "(of_nat (unat tag) :: uint32) = ucast tag" by simp
  ultimately show ?thesis by (simp add: ReadTag_def eval_nat_numeral)
qed

text \<open>One field in front: the tag byte of the field, and what the switch makes of it.\<close>

lemma parse_loop_field:
  assumes "unat tag < 128" "sw (ucast tag) r m = Field r' m'" "length r' \<le> length r"
  shows "parse_loop depth sw (tag # r) m = parse_loop depth sw r' m'"
proof -
  show ?thesis using assms(2,3) ReadTag_byte [OF assms(1)]
    by (simp add: parse_loop.simps [of _ _ "tag # r"])
qed

text \<open>A field that the message does not know is skipped, whatever is in it.\<close>

lemma parse_loop_unknown:
  assumes "ReadTag bs = Some (tag, r)" "sw tag r m = Unusual" "tag \<noteq> 0" "tag AND 7 \<noteq> 4"
    "UnknownFieldParse depth tag r = Some r'"
  shows "parse_loop depth sw bs m = parse_loop depth sw r' m"
proof -
  have "length r' < length bs"
    using read_shorter(1) [OF assms(1)] UnknownFieldParse_shorter [OF assms(5)] by simp
  moreover have "bs \<noteq> []" using assms(1) by (auto simp: ReadTag_def eval_nat_numeral)
  ultimately show ?thesis using assms by (simp add: parse_loop.simps [of _ _ bs])
qed

section \<open>Writing a field\<close>

text \<open>
  A field with the default value of its type is not written. \<open>tag\<close> is the tag byte: every
  field number here is below 16.
\<close>

definition put_uint32 :: "byte \<Rightarrow> uint32 \<Rightarrow> byte list" where
  "put_uint32 tag v = (if v \<noteq> 0 then tag # UnsafeVarint (unat v) else [])"

text \<open>A negative \<^verbatim>\<open>int32\<close> is sign extended to 64 bits, hence ten bytes long.\<close>

definition put_int32 :: "byte \<Rightarrow> uint32 \<Rightarrow> byte list" where
  "put_int32 tag v = (if v \<noteq> 0 then tag # UnsafeVarint (unat (scast v :: uint64)) else [])"

definition put_bool :: "byte \<Rightarrow> bool \<Rightarrow> byte list" where
  "put_bool tag b = (if b then [tag, 1] else [])"

definition put_bytes :: "byte \<Rightarrow> byte list \<Rightarrow> byte list" where
  "put_bytes tag s = tag # UnsafeVarint (length s) @ s"

definition put_string :: "byte \<Rightarrow> byte list \<Rightarrow> byte list" where
  "put_string tag s = (if s \<noteq> [] then put_bytes tag s else [])"

definition size_uint32 :: "uint32 \<Rightarrow> nat" where
  "size_uint32 v = (if v \<noteq> 0 then 1 + VarintSize32 v else 0)"

definition size_int32 :: "uint32 \<Rightarrow> nat" where
  "size_int32 v = (if v \<noteq> 0 then 1 + VarintSize32SignExtended v else 0)"

definition size_bool :: "bool \<Rightarrow> nat" where
  "size_bool b = (if b then 1 + 1 else 0)"

definition size_bytes :: "nat \<Rightarrow> nat" where
  "size_bytes n = VarintSize n + n"

definition size_string :: "byte list \<Rightarrow> nat" where
  "size_string s = (if s \<noteq> [] then 1 + size_bytes (length s) else 0)"

named_theorems put_sizes \<open>the size functions count what the writers write\<close>

lemma put_size [put_sizes]:
  "length (put_uint32 tag v) = size_uint32 v" "length (put_int32 tag v) = size_int32 v"
  "length (put_bool tag b) = size_bool b" "length (put_bytes tag s) = 1 + size_bytes (length s)"
  "length (put_string tag s) = size_string s"
  by (simp_all add: put_uint32_def put_int32_def put_bool_def put_bytes_def put_string_def size_uint32_def
      size_int32_def size_bool_def size_bytes_def size_string_def length_UnsafeVarint
      VarintSize32_eq VarintSize32SignExtended_eq)

lemma size_uint32_le: "size_uint32 v \<le> 6"
  using VarintSize_le [of "unat v" 5] unsigned_less [of v, where ?'a = nat]
  by (simp add: size_uint32_def VarintSize32_eq)

lemma size_string_le: "length s \<le> 2147483631 \<Longrightarrow> size_string s \<le> 6 + length s"
  using VarintSize_le [of "length s" 5] by (simp add: size_string_def size_bytes_def)

lemma put_default [simp]: "put_uint32 tag 0 = []" "put_int32 tag 0 = []" "put_bool tag False = []" "put_string tag [] = []"
  by (simp_all add: put_uint32_def put_int32_def put_bool_def put_string_def)

text \<open>
  Reading back one written field: the message is set to the value, or was not written because
  it is the default, and then the message stays as it is.
\<close>

lemma parse_put_uint32:
  assumes "unat tag < 128" "\<And>r. sw (ucast tag) r m = field_of (ReadVarint32 r) f"
  shows "parse_loop depth sw (put_uint32 tag v @ rest) m = parse_loop depth sw rest (if v \<noteq> 0 then f v else m)"
proof (cases "v = 0")
  case False
  have "sw (ucast tag) (UnsafeVarint (unat v) @ rest) m = Field rest (f v)"
    by (simp add: assms(2) ReadVarint32_write field_of_def)
  with False show ?thesis using parse_loop_field [OF assms(1), of sw _ m rest "f v"]
    by (simp add: put_uint32_def)
qed simp

lemma parse_put_int32:
  assumes "unat tag < 128" "\<And>r. sw (ucast tag) r m = field_of (ReadVarint64 r) (\<lambda>w. f (ucast w))"
  shows "parse_loop depth sw (put_int32 tag v @ rest) m = parse_loop depth sw rest (if v \<noteq> 0 then f v else m)"
proof (cases "v = 0")
  case False
  have "ucast (scast v :: uint64) = v" by (rule bit_word_eqI) (simp add: bit_simps)
  then have "sw (ucast tag) (UnsafeVarint (unat (scast v :: uint64)) @ rest) m = Field rest (f v)"
    by (simp add: assms(2) ReadVarint64_write field_of_def)
  with False show ?thesis using parse_loop_field [OF assms(1), of sw _ m rest "f v"]
    by (simp add: put_int32_def)
qed simp

lemma parse_put_bool:
  assumes "unat tag < 128" "\<And>r. sw (ucast tag) r m = field_of (ReadVarint64 r) (\<lambda>w. f (w \<noteq> 0))"
  shows "parse_loop depth sw (put_bool tag b @ rest) m = parse_loop depth sw rest (if b then f b else m)"
proof (cases b)
  case True
  have "ReadVarint64 (1 # rest) = Some (1, rest)"
    using ReadVarint64_write [of 1 rest] by (simp add: UnsafeVarint.simps)
  then have "sw (ucast tag) (1 # rest) m = Field rest (f True)"
    by (simp add: assms(2) field_of_def)
  with True show ?thesis using parse_loop_field [OF assms(1), of sw _ m rest "f True"]
    by (simp add: put_bool_def)
qed simp

lemma ReadString_write: "length s \<le> 2147483631 \<Longrightarrow> ReadString (UnsafeVarint (length s) @ s @ rest) = Some (s, rest)"
  by (simp add: ReadString_def ReadSize_write)

lemma parse_put_string:
  assumes "unat tag < 128" "\<And>r. sw (ucast tag) r m = field_of (ReadUtf8 valid r) f"
    "s = [] \<or> valid s" "length s \<le> 2147483631"
  shows "parse_loop depth sw (put_string tag s @ rest) m = parse_loop depth sw rest (if s \<noteq> [] then f s else m)"
proof (cases "s = []")
  case False
  have "sw (ucast tag) (UnsafeVarint (length s) @ s @ rest) m = Field rest (f s)"
    using False assms(3,4) by (simp add: assms(2) ReadUtf8_def ReadString_write field_of_def)
  with False show ?thesis using parse_loop_field [OF assms(1), of sw _ m rest "f s"]
    by (simp add: put_string_def put_bytes_def)
qed simp

text \<open>A repeated field: every element is written, and read back behind those before it.\<close>

lemma parse_put_repeated:
  assumes "unat tag < 128"
    "\<And>x r m. x \<in> set xs \<Longrightarrow> sw (ucast tag) (UnsafeVarint (length (g x)) @ g x @ r) m = Field r (upd (get m @ [x]) m)"
    "\<And>v m. get (upd v m) = v" "\<And>v w m. upd v (upd w m) = upd v m" "\<And>m. upd (get m) m = m"
  shows "parse_loop depth sw (concat (map (\<lambda>x. put_bytes tag (g x)) xs) @ rest) m =
    parse_loop depth sw rest (upd (get m @ xs) m)"
  using assms(2)
proof (induction xs arbitrary: m)
  case Nil
  then show ?case by (simp add: assms(5))
next
  case (Cons x xs)
  let ?r = "concat (map (\<lambda>x. put_bytes tag (g x)) xs) @ rest"
  have "sw (ucast tag) (UnsafeVarint (length (g x)) @ g x @ ?r) m = Field ?r (upd (get m @ [x]) m)"
    by (rule Cons.prems) simp
  from parse_loop_field [OF assms(1), of sw, OF this]
  have "parse_loop depth sw (put_bytes tag (g x) @ ?r) m = parse_loop depth sw ?r (upd (get m @ [x]) m)"
    by (simp add: put_bytes_def)
  with Cons.IH [of "upd (get m @ [x]) m"] Cons.prems show ?case
    by (simp add: assms(3,4))
qed

lemma length_put_repeated:
  "length (concat (map (\<lambda>x. put_bytes tag (g x)) xs)) = length xs + sum_list (map (\<lambda>x. size_bytes (length (g x))) xs)"
  by (induction xs) (simp_all add: put_size)

end
