(* ===== verification/Proto_Messages.thy ===== *)
theory Proto_Messages
  imports Proto_Wire
begin

text \<open>
  The messages of \<^verbatim>\<open>GameServer/Protocol.pb.cc\<close> and the one of \<^verbatim>\<open>Struct.pb.cc\<close> that they use: for
  each message its fields, \<^verbatim>\<open>Clear\<close>, \<^verbatim>\<open>_InternalSerialize\<close>, \<^verbatim>\<open>ByteSizeLong\<close>, the \<^verbatim>\<open>switch\<close> of
  \<^verbatim>\<open>_InternalParse\<close>, the parse of a whole array (\<^verbatim>\<open>ParseFromArray\<close>, which starts from an empty
  message and allows 100 levels of nesting), \<^verbatim>\<open>MergeFrom\<close> and \<^verbatim>\<open>CopyFrom\<close> (from another object).
  \<^verbatim>\<open>Client/Protocol.pb.cc\<close> is the same file. An \<^verbatim>\<open>int32\<close> field is a word that is read as a signed
  number.

  The interface \<open>message_codec\<close> is what the packet layer relies on. Every message is an
  instance of it.
\<close>

section \<open>Interface\<close>

text \<open>
  \<open>run bs m\<close> is the parse loop of the message from \<open>m\<close> on. The law is that parsing a
  serialised message merges it into the one so far, whatever follows.
\<close>

locale message_codec =
  fixes ser :: "'m \<Rightarrow> byte list"
    and byte_size :: "'m \<Rightarrow> nat"
    and run :: "byte list \<Rightarrow> 'm \<Rightarrow> 'm option"
    and parse :: "byte list \<Rightarrow> 'm option"
    and new :: 'm
    and merge :: "'m \<Rightarrow> 'm \<Rightarrow> 'm"
    and ok :: "'m \<Rightarrow> bool"
  assumes run_ser: "ok m \<Longrightarrow> run (ser m @ rest) m0 = run rest (merge m0 m)"
    and run_Nil: "run [] m0 = Some m0"
    and parse_run: "parse bs = run bs new"
    and merge_new: "merge new m = m"
    and size_ser: "byte_size m = length (ser m)"
begin

lemma parse_ser: "ok m \<Longrightarrow> parse (ser m) = Some m"
  using run_ser [of m "[]" new] by (simp add: parse_run run_Nil merge_new)

lemma ser_inj: "ok m \<Longrightarrow> ok m' \<Longrightarrow> ser m = ser m' \<Longrightarrow> m = m'"
  by (metis option.inject parse_ser)

lemma run_sers: "\<forall>m \<in> set ms. ok m \<Longrightarrow> run (concat (map ser ms)) m0 = Some (foldl merge m0 ms)"
  by (induction ms arbitrary: m0) (simp_all add: run_ser run_Nil)

lemma parse_append: "ok m \<Longrightarrow> ok m' \<Longrightarrow> parse (ser m @ ser m') = Some (merge m m')"
  using run_sers [of "[m, m']" new] by (simp add: parse_run merge_new)

end

text \<open>What a string field must be to come back: the runtime takes UTF-8 only, below 2 GB.\<close>

definition wire_string :: "(byte list \<Rightarrow> bool) \<Rightarrow> byte list \<Rightarrow> bool" where
  "wire_string utf8 s \<longleftrightarrow> (s = [] \<or> utf8 s) \<and> length s \<le> 2147483631"

section \<open>\<^verbatim>\<open>ChatRoomInfo\<close>\<close>

record ChatRoomInfo =
  info_roomid :: uint32
  info_currentuser :: uint32
  info_maxuser :: uint32
  info_roomname :: "byte list"

definition ChatRoomInfo_new :: ChatRoomInfo where
  "ChatRoomInfo_new = \<lparr>info_roomid = 0, info_currentuser = 0, info_maxuser = 0, info_roomname = []\<rparr>"

definition ChatRoomInfo_Clear :: "ChatRoomInfo \<Rightarrow> ChatRoomInfo" where
  "ChatRoomInfo_Clear this = this\<lparr>info_roomname := [], info_roomid := 0, info_currentuser := 0, info_maxuser := 0\<rparr>"

definition ChatRoomInfo_Serialize :: "ChatRoomInfo \<Rightarrow> byte list" where
  "ChatRoomInfo_Serialize m =
     put_uint32 8 (info_roomid m)
       @ put_uint32 16 (info_currentuser m)
       @ put_uint32 24 (info_maxuser m)
       @ put_string 34 (info_roomname m)"

definition ChatRoomInfo_ByteSizeLong :: "ChatRoomInfo \<Rightarrow> nat" where
  "ChatRoomInfo_ByteSizeLong m =
     size_string (info_roomname m)
     + size_uint32 (info_roomid m)
     + size_uint32 (info_currentuser m)
     + size_uint32 (info_maxuser m)"

definition ChatRoomInfo_switch ::
    "(byte list \<Rightarrow> bool) \<Rightarrow> uint32 \<Rightarrow> byte list \<Rightarrow> ChatRoomInfo \<Rightarrow> ChatRoomInfo field_result" where
  "ChatRoomInfo_switch utf8 tag r m =
     (if drop_bit 3 tag = 1 then
        if (ucast tag :: byte) = 8
        then field_of (ReadVarint32 r) (\<lambda>v. m\<lparr>info_roomid := v\<rparr>) else Unusual
      else if drop_bit 3 tag = 2 then
        if (ucast tag :: byte) = 16
        then field_of (ReadVarint32 r) (\<lambda>v. m\<lparr>info_currentuser := v\<rparr>) else Unusual
      else if drop_bit 3 tag = 3 then
        if (ucast tag :: byte) = 24
        then field_of (ReadVarint32 r) (\<lambda>v. m\<lparr>info_maxuser := v\<rparr>) else Unusual
      else if drop_bit 3 tag = 4 then
        if (ucast tag :: byte) = 34
        then field_of (ReadUtf8 utf8 r) (\<lambda>v. m\<lparr>info_roomname := v\<rparr>) else Unusual
      else Unusual)"

definition ChatRoomInfo_Parse :: "(byte list \<Rightarrow> bool) \<Rightarrow> byte list \<Rightarrow> ChatRoomInfo option" where
  "ChatRoomInfo_Parse utf8 bs = parse_loop 100 (ChatRoomInfo_switch utf8) bs ChatRoomInfo_new"

definition ChatRoomInfo_MergeFrom :: "ChatRoomInfo \<Rightarrow> ChatRoomInfo \<Rightarrow> ChatRoomInfo" where
  "ChatRoomInfo_MergeFrom this other =
     (let this = (if info_roomname other \<noteq> [] then this\<lparr>info_roomname := info_roomname other\<rparr> else this);
          this = (if info_roomid other \<noteq> 0 then this\<lparr>info_roomid := info_roomid other\<rparr> else this);
          this = (if info_currentuser other \<noteq> 0 then this\<lparr>info_currentuser := info_currentuser other\<rparr> else this);
          this = (if info_maxuser other \<noteq> 0 then this\<lparr>info_maxuser := info_maxuser other\<rparr> else this)
      in this)"

definition ChatRoomInfo_CopyFrom :: "ChatRoomInfo \<Rightarrow> ChatRoomInfo \<Rightarrow> ChatRoomInfo" where
  "ChatRoomInfo_CopyFrom this other = ChatRoomInfo_MergeFrom (ChatRoomInfo_Clear this) other"

definition ChatRoomInfo_ok :: "(byte list \<Rightarrow> bool) \<Rightarrow> ChatRoomInfo \<Rightarrow> bool" where
  "ChatRoomInfo_ok utf8 m \<longleftrightarrow>
     wire_string utf8 (info_roomname m)"

lemma ChatRoomInfo_loop:
  assumes "ChatRoomInfo_ok utf8 m"
  shows "parse_loop depth (ChatRoomInfo_switch utf8) (ChatRoomInfo_Serialize m @ rest) m0 =
    parse_loop depth (ChatRoomInfo_switch utf8) rest (ChatRoomInfo_MergeFrom m0 m)"
proof -
  let ?sw = "ChatRoomInfo_switch utf8"
  have s0: "parse_loop depth ?sw (put_uint32 8 (info_roomid m) @ r) m1 =
      parse_loop depth ?sw r (if info_roomid m \<noteq> 0 then m1\<lparr>info_roomid := info_roomid m\<rparr> else m1)" for r m1
    by (rule parse_put_uint32 [where f = "\<lambda>x. m1\<lparr>info_roomid := x\<rparr>"])
      (use assms in \<open>simp_all add: ChatRoomInfo_switch_def ChatRoomInfo_ok_def wire_string_def\<close>)
  have s1: "parse_loop depth ?sw (put_uint32 16 (info_currentuser m) @ r) m1 =
      parse_loop depth ?sw r (if info_currentuser m \<noteq> 0 then m1\<lparr>info_currentuser := info_currentuser m\<rparr> else m1)" for r m1
    by (rule parse_put_uint32 [where f = "\<lambda>x. m1\<lparr>info_currentuser := x\<rparr>"])
      (use assms in \<open>simp_all add: ChatRoomInfo_switch_def ChatRoomInfo_ok_def wire_string_def\<close>)
  have s2: "parse_loop depth ?sw (put_uint32 24 (info_maxuser m) @ r) m1 =
      parse_loop depth ?sw r (if info_maxuser m \<noteq> 0 then m1\<lparr>info_maxuser := info_maxuser m\<rparr> else m1)" for r m1
    by (rule parse_put_uint32 [where f = "\<lambda>x. m1\<lparr>info_maxuser := x\<rparr>"])
      (use assms in \<open>simp_all add: ChatRoomInfo_switch_def ChatRoomInfo_ok_def wire_string_def\<close>)
  have s3: "parse_loop depth ?sw (put_string 34 (info_roomname m) @ r) m1 =
      parse_loop depth ?sw r (if info_roomname m \<noteq> [] then m1\<lparr>info_roomname := info_roomname m\<rparr> else m1)" for r m1
    by (rule parse_put_string [where f = "\<lambda>x. m1\<lparr>info_roomname := x\<rparr>" and valid = utf8])
      (use assms in \<open>simp_all add: ChatRoomInfo_switch_def ChatRoomInfo_ok_def wire_string_def\<close>)
  show ?thesis
    by (cases m0) (simp add: ChatRoomInfo_Serialize_def ChatRoomInfo_MergeFrom_def Let_def s0 s1 s2 s3)
qed

lemma ChatRoomInfo_merge: "ChatRoomInfo_MergeFrom ChatRoomInfo_new m = m" "ChatRoomInfo_CopyFrom m0 m = m"
  by (cases m, simp add: ChatRoomInfo_MergeFrom_def ChatRoomInfo_new_def Let_def,
    cases m, cases m0, simp add: ChatRoomInfo_CopyFrom_def ChatRoomInfo_Clear_def ChatRoomInfo_MergeFrom_def Let_def)

lemma ChatRoomInfo_parse_nested:
  "ChatRoomInfo_ok utf8 m \<Longrightarrow>
    parse_loop depth (ChatRoomInfo_switch utf8) (ChatRoomInfo_Serialize m) ChatRoomInfo_new = Some m"
  using ChatRoomInfo_loop [of utf8 m depth "[]"] by (simp add: ChatRoomInfo_merge)

interpretation info: message_codec ChatRoomInfo_Serialize ChatRoomInfo_ByteSizeLong "parse_loop 100 (ChatRoomInfo_switch utf8)"
    "ChatRoomInfo_Parse utf8" ChatRoomInfo_new ChatRoomInfo_MergeFrom "ChatRoomInfo_ok utf8"
  for utf8
  by unfold_locales
    (simp add: ChatRoomInfo_loop,
     simp_all add: ChatRoomInfo_Parse_def ChatRoomInfo_merge ChatRoomInfo_Serialize_def ChatRoomInfo_ByteSizeLong_def put_sizes length_put_repeated)

text \<open>A room name that is not absurdly long keeps the nested message below 2 GB.\<close>

lemma ChatRoomInfo_length:
  "length (info_roomname i) \<le> 2147483600 \<Longrightarrow> length (ChatRoomInfo_Serialize i) \<le> 2147483631"
  using size_uint32_le [of "info_roomid i"] size_uint32_le [of "info_currentuser i"]
    size_uint32_le [of "info_maxuser i"] size_string_le [of "info_roomname i"] info.size_ser [of i]
  by (simp add: ChatRoomInfo_ByteSizeLong_def)

section \<open>\<^verbatim>\<open>EnterChatRoomReq\<close>\<close>

record EnterChatRoomReq =
  enter_req_roomid :: uint32

definition EnterChatRoomReq_new :: EnterChatRoomReq where
  "EnterChatRoomReq_new = \<lparr>enter_req_roomid = 0\<rparr>"

definition EnterChatRoomReq_Clear :: "EnterChatRoomReq \<Rightarrow> EnterChatRoomReq" where
  "EnterChatRoomReq_Clear this = this\<lparr>enter_req_roomid := 0\<rparr>"

definition EnterChatRoomReq_Serialize :: "EnterChatRoomReq \<Rightarrow> byte list" where
  "EnterChatRoomReq_Serialize m =
     put_int32 8 (enter_req_roomid m)"

definition EnterChatRoomReq_ByteSizeLong :: "EnterChatRoomReq \<Rightarrow> nat" where
  "EnterChatRoomReq_ByteSizeLong m =
     size_int32 (enter_req_roomid m)"

definition EnterChatRoomReq_switch ::
    "uint32 \<Rightarrow> byte list \<Rightarrow> EnterChatRoomReq \<Rightarrow> EnterChatRoomReq field_result" where
  "EnterChatRoomReq_switch tag r m =
     (if drop_bit 3 tag = 1 then
        if (ucast tag :: byte) = 8
        then field_of (ReadVarint64 r) (\<lambda>v. m\<lparr>enter_req_roomid := ucast v\<rparr>) else Unusual
      else Unusual)"

definition EnterChatRoomReq_Parse :: "byte list \<Rightarrow> EnterChatRoomReq option" where
  "EnterChatRoomReq_Parse bs = parse_loop 100 EnterChatRoomReq_switch bs EnterChatRoomReq_new"

definition EnterChatRoomReq_MergeFrom :: "EnterChatRoomReq \<Rightarrow> EnterChatRoomReq \<Rightarrow> EnterChatRoomReq" where
  "EnterChatRoomReq_MergeFrom this other =
     (let this = (if enter_req_roomid other \<noteq> 0 then this\<lparr>enter_req_roomid := enter_req_roomid other\<rparr> else this)
      in this)"

definition EnterChatRoomReq_CopyFrom :: "EnterChatRoomReq \<Rightarrow> EnterChatRoomReq \<Rightarrow> EnterChatRoomReq" where
  "EnterChatRoomReq_CopyFrom this other = EnterChatRoomReq_MergeFrom (EnterChatRoomReq_Clear this) other"

lemma EnterChatRoomReq_loop:
  shows "parse_loop depth EnterChatRoomReq_switch (EnterChatRoomReq_Serialize m @ rest) m0 =
    parse_loop depth EnterChatRoomReq_switch rest (EnterChatRoomReq_MergeFrom m0 m)"
proof -
  let ?sw = "EnterChatRoomReq_switch"
  have s0: "parse_loop depth ?sw (put_int32 8 (enter_req_roomid m) @ r) m1 =
      parse_loop depth ?sw r (if enter_req_roomid m \<noteq> 0 then m1\<lparr>enter_req_roomid := enter_req_roomid m\<rparr> else m1)" for r m1
    by (rule parse_put_int32 [where f = "\<lambda>x. m1\<lparr>enter_req_roomid := x\<rparr>"])
      (simp_all add: EnterChatRoomReq_switch_def)
  show ?thesis
    by (cases m0) (simp add: EnterChatRoomReq_Serialize_def EnterChatRoomReq_MergeFrom_def Let_def s0)
qed

lemma EnterChatRoomReq_merge: "EnterChatRoomReq_MergeFrom EnterChatRoomReq_new m = m" "EnterChatRoomReq_CopyFrom m0 m = m"
  by (cases m, simp add: EnterChatRoomReq_MergeFrom_def EnterChatRoomReq_new_def Let_def,
    cases m, cases m0, simp add: EnterChatRoomReq_CopyFrom_def EnterChatRoomReq_Clear_def EnterChatRoomReq_MergeFrom_def Let_def)

interpretation enter_req: message_codec EnterChatRoomReq_Serialize EnterChatRoomReq_ByteSizeLong "parse_loop 100 (EnterChatRoomReq_switch)"
    "EnterChatRoomReq_Parse" EnterChatRoomReq_new EnterChatRoomReq_MergeFrom "\<lambda>_. True"
  by unfold_locales
    (simp add: EnterChatRoomReq_loop,
     simp_all add: EnterChatRoomReq_Parse_def EnterChatRoomReq_merge EnterChatRoomReq_Serialize_def EnterChatRoomReq_ByteSizeLong_def put_sizes length_put_repeated)

section \<open>\<^verbatim>\<open>EnterChatRoomAck\<close>\<close>

record EnterChatRoomAck =
  enter_ack_roomid :: uint32
  enter_ack_roomname :: "byte list"

definition EnterChatRoomAck_new :: EnterChatRoomAck where
  "EnterChatRoomAck_new = \<lparr>enter_ack_roomid = 0, enter_ack_roomname = []\<rparr>"

definition EnterChatRoomAck_Clear :: "EnterChatRoomAck \<Rightarrow> EnterChatRoomAck" where
  "EnterChatRoomAck_Clear this = this\<lparr>enter_ack_roomname := [], enter_ack_roomid := 0\<rparr>"

definition EnterChatRoomAck_Serialize :: "EnterChatRoomAck \<Rightarrow> byte list" where
  "EnterChatRoomAck_Serialize m =
     put_uint32 8 (enter_ack_roomid m)
       @ put_string 18 (enter_ack_roomname m)"

definition EnterChatRoomAck_ByteSizeLong :: "EnterChatRoomAck \<Rightarrow> nat" where
  "EnterChatRoomAck_ByteSizeLong m =
     size_string (enter_ack_roomname m)
     + size_uint32 (enter_ack_roomid m)"

definition EnterChatRoomAck_switch ::
    "(byte list \<Rightarrow> bool) \<Rightarrow> uint32 \<Rightarrow> byte list \<Rightarrow> EnterChatRoomAck \<Rightarrow> EnterChatRoomAck field_result" where
  "EnterChatRoomAck_switch utf8 tag r m =
     (if drop_bit 3 tag = 1 then
        if (ucast tag :: byte) = 8
        then field_of (ReadVarint32 r) (\<lambda>v. m\<lparr>enter_ack_roomid := v\<rparr>) else Unusual
      else if drop_bit 3 tag = 2 then
        if (ucast tag :: byte) = 18
        then field_of (ReadUtf8 utf8 r) (\<lambda>v. m\<lparr>enter_ack_roomname := v\<rparr>) else Unusual
      else Unusual)"

definition EnterChatRoomAck_Parse :: "(byte list \<Rightarrow> bool) \<Rightarrow> byte list \<Rightarrow> EnterChatRoomAck option" where
  "EnterChatRoomAck_Parse utf8 bs = parse_loop 100 (EnterChatRoomAck_switch utf8) bs EnterChatRoomAck_new"

definition EnterChatRoomAck_MergeFrom :: "EnterChatRoomAck \<Rightarrow> EnterChatRoomAck \<Rightarrow> EnterChatRoomAck" where
  "EnterChatRoomAck_MergeFrom this other =
     (let this = (if enter_ack_roomname other \<noteq> [] then this\<lparr>enter_ack_roomname := enter_ack_roomname other\<rparr> else this);
          this = (if enter_ack_roomid other \<noteq> 0 then this\<lparr>enter_ack_roomid := enter_ack_roomid other\<rparr> else this)
      in this)"

definition EnterChatRoomAck_CopyFrom :: "EnterChatRoomAck \<Rightarrow> EnterChatRoomAck \<Rightarrow> EnterChatRoomAck" where
  "EnterChatRoomAck_CopyFrom this other = EnterChatRoomAck_MergeFrom (EnterChatRoomAck_Clear this) other"

definition EnterChatRoomAck_ok :: "(byte list \<Rightarrow> bool) \<Rightarrow> EnterChatRoomAck \<Rightarrow> bool" where
  "EnterChatRoomAck_ok utf8 m \<longleftrightarrow>
     wire_string utf8 (enter_ack_roomname m)"

lemma EnterChatRoomAck_loop:
  assumes "EnterChatRoomAck_ok utf8 m"
  shows "parse_loop depth (EnterChatRoomAck_switch utf8) (EnterChatRoomAck_Serialize m @ rest) m0 =
    parse_loop depth (EnterChatRoomAck_switch utf8) rest (EnterChatRoomAck_MergeFrom m0 m)"
proof -
  let ?sw = "EnterChatRoomAck_switch utf8"
  have s0: "parse_loop depth ?sw (put_uint32 8 (enter_ack_roomid m) @ r) m1 =
      parse_loop depth ?sw r (if enter_ack_roomid m \<noteq> 0 then m1\<lparr>enter_ack_roomid := enter_ack_roomid m\<rparr> else m1)" for r m1
    by (rule parse_put_uint32 [where f = "\<lambda>x. m1\<lparr>enter_ack_roomid := x\<rparr>"])
      (use assms in \<open>simp_all add: EnterChatRoomAck_switch_def EnterChatRoomAck_ok_def wire_string_def\<close>)
  have s1: "parse_loop depth ?sw (put_string 18 (enter_ack_roomname m) @ r) m1 =
      parse_loop depth ?sw r (if enter_ack_roomname m \<noteq> [] then m1\<lparr>enter_ack_roomname := enter_ack_roomname m\<rparr> else m1)" for r m1
    by (rule parse_put_string [where f = "\<lambda>x. m1\<lparr>enter_ack_roomname := x\<rparr>" and valid = utf8])
      (use assms in \<open>simp_all add: EnterChatRoomAck_switch_def EnterChatRoomAck_ok_def wire_string_def\<close>)
  show ?thesis
    by (cases m0) (simp add: EnterChatRoomAck_Serialize_def EnterChatRoomAck_MergeFrom_def Let_def s0 s1)
qed

lemma EnterChatRoomAck_merge: "EnterChatRoomAck_MergeFrom EnterChatRoomAck_new m = m" "EnterChatRoomAck_CopyFrom m0 m = m"
  by (cases m, simp add: EnterChatRoomAck_MergeFrom_def EnterChatRoomAck_new_def Let_def,
    cases m, cases m0, simp add: EnterChatRoomAck_CopyFrom_def EnterChatRoomAck_Clear_def EnterChatRoomAck_MergeFrom_def Let_def)

interpretation enter_ack: message_codec EnterChatRoomAck_Serialize EnterChatRoomAck_ByteSizeLong "parse_loop 100 (EnterChatRoomAck_switch utf8)"
    "EnterChatRoomAck_Parse utf8" EnterChatRoomAck_new EnterChatRoomAck_MergeFrom "EnterChatRoomAck_ok utf8"
  for utf8
  by unfold_locales
    (simp add: EnterChatRoomAck_loop,
     simp_all add: EnterChatRoomAck_Parse_def EnterChatRoomAck_merge EnterChatRoomAck_Serialize_def EnterChatRoomAck_ByteSizeLong_def put_sizes length_put_repeated)

section \<open>\<^verbatim>\<open>LoginReq\<close>\<close>

record LoginReq =
  login_req_id :: "byte list"
  login_req_password :: "byte list"

definition LoginReq_new :: LoginReq where
  "LoginReq_new = \<lparr>login_req_id = [], login_req_password = []\<rparr>"

definition LoginReq_Clear :: "LoginReq \<Rightarrow> LoginReq" where
  "LoginReq_Clear this = this\<lparr>login_req_id := [], login_req_password := []\<rparr>"

definition LoginReq_Serialize :: "LoginReq \<Rightarrow> byte list" where
  "LoginReq_Serialize m =
     put_string 10 (login_req_id m)
       @ put_string 18 (login_req_password m)"

definition LoginReq_ByteSizeLong :: "LoginReq \<Rightarrow> nat" where
  "LoginReq_ByteSizeLong m =
     size_string (login_req_id m)
     + size_string (login_req_password m)"

definition LoginReq_switch ::
    "(byte list \<Rightarrow> bool) \<Rightarrow> uint32 \<Rightarrow> byte list \<Rightarrow> LoginReq \<Rightarrow> LoginReq field_result" where
  "LoginReq_switch utf8 tag r m =
     (if drop_bit 3 tag = 1 then
        if (ucast tag :: byte) = 10
        then field_of (ReadUtf8 utf8 r) (\<lambda>v. m\<lparr>login_req_id := v\<rparr>) else Unusual
      else if drop_bit 3 tag = 2 then
        if (ucast tag :: byte) = 18
        then field_of (ReadUtf8 utf8 r) (\<lambda>v. m\<lparr>login_req_password := v\<rparr>) else Unusual
      else Unusual)"

definition LoginReq_Parse :: "(byte list \<Rightarrow> bool) \<Rightarrow> byte list \<Rightarrow> LoginReq option" where
  "LoginReq_Parse utf8 bs = parse_loop 100 (LoginReq_switch utf8) bs LoginReq_new"

definition LoginReq_MergeFrom :: "LoginReq \<Rightarrow> LoginReq \<Rightarrow> LoginReq" where
  "LoginReq_MergeFrom this other =
     (let this = (if login_req_id other \<noteq> [] then this\<lparr>login_req_id := login_req_id other\<rparr> else this);
          this = (if login_req_password other \<noteq> [] then this\<lparr>login_req_password := login_req_password other\<rparr> else this)
      in this)"

definition LoginReq_CopyFrom :: "LoginReq \<Rightarrow> LoginReq \<Rightarrow> LoginReq" where
  "LoginReq_CopyFrom this other = LoginReq_MergeFrom (LoginReq_Clear this) other"

definition LoginReq_ok :: "(byte list \<Rightarrow> bool) \<Rightarrow> LoginReq \<Rightarrow> bool" where
  "LoginReq_ok utf8 m \<longleftrightarrow>
     wire_string utf8 (login_req_id m)
     \<and> wire_string utf8 (login_req_password m)"

lemma LoginReq_loop:
  assumes "LoginReq_ok utf8 m"
  shows "parse_loop depth (LoginReq_switch utf8) (LoginReq_Serialize m @ rest) m0 =
    parse_loop depth (LoginReq_switch utf8) rest (LoginReq_MergeFrom m0 m)"
proof -
  let ?sw = "LoginReq_switch utf8"
  have s0: "parse_loop depth ?sw (put_string 10 (login_req_id m) @ r) m1 =
      parse_loop depth ?sw r (if login_req_id m \<noteq> [] then m1\<lparr>login_req_id := login_req_id m\<rparr> else m1)" for r m1
    by (rule parse_put_string [where f = "\<lambda>x. m1\<lparr>login_req_id := x\<rparr>" and valid = utf8])
      (use assms in \<open>simp_all add: LoginReq_switch_def LoginReq_ok_def wire_string_def\<close>)
  have s1: "parse_loop depth ?sw (put_string 18 (login_req_password m) @ r) m1 =
      parse_loop depth ?sw r (if login_req_password m \<noteq> [] then m1\<lparr>login_req_password := login_req_password m\<rparr> else m1)" for r m1
    by (rule parse_put_string [where f = "\<lambda>x. m1\<lparr>login_req_password := x\<rparr>" and valid = utf8])
      (use assms in \<open>simp_all add: LoginReq_switch_def LoginReq_ok_def wire_string_def\<close>)
  show ?thesis
    by (cases m0) (simp add: LoginReq_Serialize_def LoginReq_MergeFrom_def Let_def s0 s1)
qed

lemma LoginReq_merge: "LoginReq_MergeFrom LoginReq_new m = m" "LoginReq_CopyFrom m0 m = m"
  by (cases m, simp add: LoginReq_MergeFrom_def LoginReq_new_def Let_def,
    cases m, cases m0, simp add: LoginReq_CopyFrom_def LoginReq_Clear_def LoginReq_MergeFrom_def Let_def)

interpretation login_req: message_codec LoginReq_Serialize LoginReq_ByteSizeLong "parse_loop 100 (LoginReq_switch utf8)"
    "LoginReq_Parse utf8" LoginReq_new LoginReq_MergeFrom "LoginReq_ok utf8"
  for utf8
  by unfold_locales
    (simp add: LoginReq_loop,
     simp_all add: LoginReq_Parse_def LoginReq_merge LoginReq_Serialize_def LoginReq_ByteSizeLong_def put_sizes length_put_repeated)

section \<open>\<^verbatim>\<open>LoginAck\<close>\<close>

record LoginAck =
  login_ack_success :: bool
  login_ack_userid :: "byte list"

definition LoginAck_new :: LoginAck where
  "LoginAck_new = \<lparr>login_ack_success = False, login_ack_userid = []\<rparr>"

definition LoginAck_Clear :: "LoginAck \<Rightarrow> LoginAck" where
  "LoginAck_Clear this = this\<lparr>login_ack_userid := [], login_ack_success := False\<rparr>"

definition LoginAck_Serialize :: "LoginAck \<Rightarrow> byte list" where
  "LoginAck_Serialize m =
     put_bool 8 (login_ack_success m)
       @ put_string 18 (login_ack_userid m)"

definition LoginAck_ByteSizeLong :: "LoginAck \<Rightarrow> nat" where
  "LoginAck_ByteSizeLong m =
     size_string (login_ack_userid m)
     + size_bool (login_ack_success m)"

definition LoginAck_switch ::
    "(byte list \<Rightarrow> bool) \<Rightarrow> uint32 \<Rightarrow> byte list \<Rightarrow> LoginAck \<Rightarrow> LoginAck field_result" where
  "LoginAck_switch utf8 tag r m =
     (if drop_bit 3 tag = 1 then
        if (ucast tag :: byte) = 8
        then field_of (ReadVarint64 r) (\<lambda>v. m\<lparr>login_ack_success := v \<noteq> 0\<rparr>) else Unusual
      else if drop_bit 3 tag = 2 then
        if (ucast tag :: byte) = 18
        then field_of (ReadUtf8 utf8 r) (\<lambda>v. m\<lparr>login_ack_userid := v\<rparr>) else Unusual
      else Unusual)"

definition LoginAck_Parse :: "(byte list \<Rightarrow> bool) \<Rightarrow> byte list \<Rightarrow> LoginAck option" where
  "LoginAck_Parse utf8 bs = parse_loop 100 (LoginAck_switch utf8) bs LoginAck_new"

definition LoginAck_MergeFrom :: "LoginAck \<Rightarrow> LoginAck \<Rightarrow> LoginAck" where
  "LoginAck_MergeFrom this other =
     (let this = (if login_ack_userid other \<noteq> [] then this\<lparr>login_ack_userid := login_ack_userid other\<rparr> else this);
          this = (if login_ack_success other then this\<lparr>login_ack_success := login_ack_success other\<rparr> else this)
      in this)"

definition LoginAck_CopyFrom :: "LoginAck \<Rightarrow> LoginAck \<Rightarrow> LoginAck" where
  "LoginAck_CopyFrom this other = LoginAck_MergeFrom (LoginAck_Clear this) other"

definition LoginAck_ok :: "(byte list \<Rightarrow> bool) \<Rightarrow> LoginAck \<Rightarrow> bool" where
  "LoginAck_ok utf8 m \<longleftrightarrow>
     wire_string utf8 (login_ack_userid m)"

lemma LoginAck_loop:
  assumes "LoginAck_ok utf8 m"
  shows "parse_loop depth (LoginAck_switch utf8) (LoginAck_Serialize m @ rest) m0 =
    parse_loop depth (LoginAck_switch utf8) rest (LoginAck_MergeFrom m0 m)"
proof -
  let ?sw = "LoginAck_switch utf8"
  have s0: "parse_loop depth ?sw (put_bool 8 (login_ack_success m) @ r) m1 =
      parse_loop depth ?sw r (if login_ack_success m then m1\<lparr>login_ack_success := login_ack_success m\<rparr> else m1)" for r m1
    by (rule parse_put_bool [where f = "\<lambda>x. m1\<lparr>login_ack_success := x\<rparr>"])
      (use assms in \<open>simp_all add: LoginAck_switch_def LoginAck_ok_def wire_string_def\<close>)
  have s1: "parse_loop depth ?sw (put_string 18 (login_ack_userid m) @ r) m1 =
      parse_loop depth ?sw r (if login_ack_userid m \<noteq> [] then m1\<lparr>login_ack_userid := login_ack_userid m\<rparr> else m1)" for r m1
    by (rule parse_put_string [where f = "\<lambda>x. m1\<lparr>login_ack_userid := x\<rparr>" and valid = utf8])
      (use assms in \<open>simp_all add: LoginAck_switch_def LoginAck_ok_def wire_string_def\<close>)
  show ?thesis
    by (cases m0) (simp add: LoginAck_Serialize_def LoginAck_MergeFrom_def Let_def s0 s1)
qed

lemma LoginAck_merge: "LoginAck_MergeFrom LoginAck_new m = m" "LoginAck_CopyFrom m0 m = m"
  by (cases m, simp add: LoginAck_MergeFrom_def LoginAck_new_def Let_def,
    cases m, cases m0, simp add: LoginAck_CopyFrom_def LoginAck_Clear_def LoginAck_MergeFrom_def Let_def)

interpretation login_ack: message_codec LoginAck_Serialize LoginAck_ByteSizeLong "parse_loop 100 (LoginAck_switch utf8)"
    "LoginAck_Parse utf8" LoginAck_new LoginAck_MergeFrom "LoginAck_ok utf8"
  for utf8
  by unfold_locales
    (simp add: LoginAck_loop,
     simp_all add: LoginAck_Parse_def LoginAck_merge LoginAck_Serialize_def LoginAck_ByteSizeLong_def put_sizes length_put_repeated)

section \<open>\<^verbatim>\<open>ChatRoomListReq\<close>\<close>

record ChatRoomListReq =
  list_req_success :: bool

definition ChatRoomListReq_new :: ChatRoomListReq where
  "ChatRoomListReq_new = \<lparr>list_req_success = False\<rparr>"

definition ChatRoomListReq_Clear :: "ChatRoomListReq \<Rightarrow> ChatRoomListReq" where
  "ChatRoomListReq_Clear this = this\<lparr>list_req_success := False\<rparr>"

definition ChatRoomListReq_Serialize :: "ChatRoomListReq \<Rightarrow> byte list" where
  "ChatRoomListReq_Serialize m =
     put_bool 8 (list_req_success m)"

definition ChatRoomListReq_ByteSizeLong :: "ChatRoomListReq \<Rightarrow> nat" where
  "ChatRoomListReq_ByteSizeLong m =
     size_bool (list_req_success m)"

definition ChatRoomListReq_switch ::
    "uint32 \<Rightarrow> byte list \<Rightarrow> ChatRoomListReq \<Rightarrow> ChatRoomListReq field_result" where
  "ChatRoomListReq_switch tag r m =
     (if drop_bit 3 tag = 1 then
        if (ucast tag :: byte) = 8
        then field_of (ReadVarint64 r) (\<lambda>v. m\<lparr>list_req_success := v \<noteq> 0\<rparr>) else Unusual
      else Unusual)"

definition ChatRoomListReq_Parse :: "byte list \<Rightarrow> ChatRoomListReq option" where
  "ChatRoomListReq_Parse bs = parse_loop 100 ChatRoomListReq_switch bs ChatRoomListReq_new"

definition ChatRoomListReq_MergeFrom :: "ChatRoomListReq \<Rightarrow> ChatRoomListReq \<Rightarrow> ChatRoomListReq" where
  "ChatRoomListReq_MergeFrom this other =
     (let this = (if list_req_success other then this\<lparr>list_req_success := list_req_success other\<rparr> else this)
      in this)"

definition ChatRoomListReq_CopyFrom :: "ChatRoomListReq \<Rightarrow> ChatRoomListReq \<Rightarrow> ChatRoomListReq" where
  "ChatRoomListReq_CopyFrom this other = ChatRoomListReq_MergeFrom (ChatRoomListReq_Clear this) other"

lemma ChatRoomListReq_loop:
  shows "parse_loop depth ChatRoomListReq_switch (ChatRoomListReq_Serialize m @ rest) m0 =
    parse_loop depth ChatRoomListReq_switch rest (ChatRoomListReq_MergeFrom m0 m)"
proof -
  let ?sw = "ChatRoomListReq_switch"
  have s0: "parse_loop depth ?sw (put_bool 8 (list_req_success m) @ r) m1 =
      parse_loop depth ?sw r (if list_req_success m then m1\<lparr>list_req_success := list_req_success m\<rparr> else m1)" for r m1
    by (rule parse_put_bool [where f = "\<lambda>x. m1\<lparr>list_req_success := x\<rparr>"])
      (simp_all add: ChatRoomListReq_switch_def)
  show ?thesis
    by (cases m0) (simp add: ChatRoomListReq_Serialize_def ChatRoomListReq_MergeFrom_def Let_def s0)
qed

lemma ChatRoomListReq_merge: "ChatRoomListReq_MergeFrom ChatRoomListReq_new m = m" "ChatRoomListReq_CopyFrom m0 m = m"
  by (cases m, simp add: ChatRoomListReq_MergeFrom_def ChatRoomListReq_new_def Let_def,
    cases m, cases m0, simp add: ChatRoomListReq_CopyFrom_def ChatRoomListReq_Clear_def ChatRoomListReq_MergeFrom_def Let_def)

interpretation list_req: message_codec ChatRoomListReq_Serialize ChatRoomListReq_ByteSizeLong "parse_loop 100 (ChatRoomListReq_switch)"
    "ChatRoomListReq_Parse" ChatRoomListReq_new ChatRoomListReq_MergeFrom "\<lambda>_. True"
  by unfold_locales
    (simp add: ChatRoomListReq_loop,
     simp_all add: ChatRoomListReq_Parse_def ChatRoomListReq_merge ChatRoomListReq_Serialize_def ChatRoomListReq_ByteSizeLong_def put_sizes length_put_repeated)

section \<open>\<^verbatim>\<open>ChatRoomListAck\<close>\<close>

record ChatRoomListAck =
  list_ack_success :: bool
  list_ack_chatroominfo :: "ChatRoomInfo list"

definition ChatRoomListAck_new :: ChatRoomListAck where
  "ChatRoomListAck_new = \<lparr>list_ack_success = False, list_ack_chatroominfo = []\<rparr>"

definition ChatRoomListAck_Clear :: "ChatRoomListAck \<Rightarrow> ChatRoomListAck" where
  "ChatRoomListAck_Clear this = this\<lparr>list_ack_chatroominfo := [], list_ack_success := False\<rparr>"

definition ChatRoomListAck_Serialize :: "ChatRoomListAck \<Rightarrow> byte list" where
  "ChatRoomListAck_Serialize m =
     put_bool 8 (list_ack_success m)
       @ concat (map (\<lambda>x. put_bytes 18 (ChatRoomInfo_Serialize x)) (list_ack_chatroominfo m))"

definition ChatRoomListAck_ByteSizeLong :: "ChatRoomListAck \<Rightarrow> nat" where
  "ChatRoomListAck_ByteSizeLong m =
     1 * length (list_ack_chatroominfo m)
     + sum_list (map (\<lambda>x. size_bytes (ChatRoomInfo_ByteSizeLong x)) (list_ack_chatroominfo m))
     + size_bool (list_ack_success m)"

text \<open>
  \<^verbatim>\<open>ParseMessage\<close> reads a size, restricts the input to that many bytes and parses a nested
  message there. The inner loop of the generated code, which goes on while the next tag is
  the same again, does what the outer loop does with that tag.
\<close>

definition ChatRoomListAck_switch ::
    "(byte list \<Rightarrow> bool) \<Rightarrow> nat \<Rightarrow> uint32 \<Rightarrow> byte list \<Rightarrow> ChatRoomListAck \<Rightarrow> ChatRoomListAck field_result" where
  "ChatRoomListAck_switch utf8 depth tag r m =
     (if drop_bit 3 tag = 1 then
        if (ucast tag :: byte) = 8
        then field_of (ReadVarint64 r) (\<lambda>v. m\<lparr>list_ack_success := v \<noteq> 0\<rparr>) else Unusual
      else if drop_bit 3 tag = 2 then
        if (ucast tag :: byte) = 18
        then (case ReadString r of
                None \<Rightarrow> Failure
              | Some (s, rest) \<Rightarrow>
                  if depth = 0 then Failure
                  else case parse_loop (depth - 1) (ChatRoomInfo_switch utf8) s ChatRoomInfo_new of
                         None \<Rightarrow> Failure
                       | Some x \<Rightarrow> Field rest (m\<lparr>list_ack_chatroominfo := list_ack_chatroominfo m @ [x]\<rparr>))
        else Unusual
      else Unusual)"

definition ChatRoomListAck_Parse :: "(byte list \<Rightarrow> bool) \<Rightarrow> byte list \<Rightarrow> ChatRoomListAck option" where
  "ChatRoomListAck_Parse utf8 bs = parse_loop 100 (ChatRoomListAck_switch utf8 100) bs ChatRoomListAck_new"

definition ChatRoomListAck_MergeFrom :: "ChatRoomListAck \<Rightarrow> ChatRoomListAck \<Rightarrow> ChatRoomListAck" where
  "ChatRoomListAck_MergeFrom this other =
     (let this = this\<lparr>list_ack_chatroominfo := list_ack_chatroominfo this @ list_ack_chatroominfo other\<rparr>;
          this = (if list_ack_success other then this\<lparr>list_ack_success := list_ack_success other\<rparr> else this)
      in this)"

definition ChatRoomListAck_CopyFrom :: "ChatRoomListAck \<Rightarrow> ChatRoomListAck \<Rightarrow> ChatRoomListAck" where
  "ChatRoomListAck_CopyFrom this other = ChatRoomListAck_MergeFrom (ChatRoomListAck_Clear this) other"

definition ChatRoomListAck_ok :: "(byte list \<Rightarrow> bool) \<Rightarrow> ChatRoomListAck \<Rightarrow> bool" where
  "ChatRoomListAck_ok utf8 m \<longleftrightarrow>
     (\<forall>x \<in> set (list_ack_chatroominfo m). ChatRoomInfo_ok utf8 x
        \<and> length (ChatRoomInfo_Serialize x) \<le> 2147483631)"

lemma ChatRoomListAck_loop:
  assumes "ChatRoomListAck_ok utf8 m"
  shows "parse_loop depth (ChatRoomListAck_switch utf8 (Suc d)) (ChatRoomListAck_Serialize m @ rest) m0 =
    parse_loop depth (ChatRoomListAck_switch utf8 (Suc d)) rest (ChatRoomListAck_MergeFrom m0 m)"
proof -
  let ?sw = "ChatRoomListAck_switch utf8 (Suc d)"
  have s0: "parse_loop depth ?sw (put_bool 8 (list_ack_success m) @ r) m1 =
      parse_loop depth ?sw r (if list_ack_success m then m1\<lparr>list_ack_success := list_ack_success m\<rparr> else m1)" for r m1
    by (rule parse_put_bool [where f = "\<lambda>x. m1\<lparr>list_ack_success := x\<rparr>"])
      (use assms in \<open>simp_all add: ChatRoomListAck_switch_def ChatRoomListAck_ok_def wire_string_def\<close>)
  have s1: "parse_loop depth ?sw (concat (map (\<lambda>x. put_bytes 18 (ChatRoomInfo_Serialize x)) (list_ack_chatroominfo m)) @ r) m1 =
      parse_loop depth ?sw r (m1\<lparr>list_ack_chatroominfo := list_ack_chatroominfo m1 @ list_ack_chatroominfo m\<rparr>)" for r m1
    by (rule parse_put_repeated [where get = list_ack_chatroominfo and upd = "\<lambda>v m. m\<lparr>list_ack_chatroominfo := v\<rparr>"])
      (use assms in \<open>auto simp: ChatRoomListAck_switch_def ChatRoomListAck_ok_def ReadString_write ChatRoomInfo_parse_nested\<close>)
  show ?thesis
    by (cases m0) (simp add: ChatRoomListAck_Serialize_def ChatRoomListAck_MergeFrom_def Let_def s0 s1)
qed

lemma ChatRoomListAck_merge: "ChatRoomListAck_MergeFrom ChatRoomListAck_new m = m" "ChatRoomListAck_CopyFrom m0 m = m"
  by (cases m, simp add: ChatRoomListAck_MergeFrom_def ChatRoomListAck_new_def Let_def,
    cases m, cases m0, simp add: ChatRoomListAck_CopyFrom_def ChatRoomListAck_Clear_def ChatRoomListAck_MergeFrom_def Let_def)

interpretation list_ack: message_codec ChatRoomListAck_Serialize ChatRoomListAck_ByteSizeLong "parse_loop 100 (ChatRoomListAck_switch utf8 100)"
    "ChatRoomListAck_Parse utf8" ChatRoomListAck_new ChatRoomListAck_MergeFrom "ChatRoomListAck_ok utf8"
  for utf8
  by unfold_locales
    (simp add: ChatRoomListAck_loop [where d = 99, simplified],
     simp_all add: ChatRoomListAck_Parse_def ChatRoomListAck_merge ChatRoomListAck_Serialize_def ChatRoomListAck_ByteSizeLong_def put_sizes length_put_repeated info.size_ser)

section \<open>\<^verbatim>\<open>CreateChatRoomReq\<close>\<close>

record CreateChatRoomReq =
  create_req_roomname :: "byte list"

definition CreateChatRoomReq_new :: CreateChatRoomReq where
  "CreateChatRoomReq_new = \<lparr>create_req_roomname = []\<rparr>"

definition CreateChatRoomReq_Clear :: "CreateChatRoomReq \<Rightarrow> CreateChatRoomReq" where
  "CreateChatRoomReq_Clear this = this\<lparr>create_req_roomname := []\<rparr>"

definition CreateChatRoomReq_Serialize :: "CreateChatRoomReq \<Rightarrow> byte list" where
  "CreateChatRoomReq_Serialize m =
     put_string 10 (create_req_roomname m)"

definition CreateChatRoomReq_ByteSizeLong :: "CreateChatRoomReq \<Rightarrow> nat" where
  "CreateChatRoomReq_ByteSizeLong m =
     size_string (create_req_roomname m)"

definition CreateChatRoomReq_switch ::
    "(byte list \<Rightarrow> bool) \<Rightarrow> uint32 \<Rightarrow> byte list \<Rightarrow> CreateChatRoomReq \<Rightarrow> CreateChatRoomReq field_result" where
  "CreateChatRoomReq_switch utf8 tag r m =
     (if drop_bit 3 tag = 1 then
        if (ucast tag :: byte) = 10
        then field_of (ReadUtf8 utf8 r) (\<lambda>v. m\<lparr>create_req_roomname := v\<rparr>) else Unusual
      else Unusual)"

definition CreateChatRoomReq_Parse :: "(byte list \<Rightarrow> bool) \<Rightarrow> byte list \<Rightarrow> CreateChatRoomReq option" where
  "CreateChatRoomReq_Parse utf8 bs = parse_loop 100 (CreateChatRoomReq_switch utf8) bs CreateChatRoomReq_new"

definition CreateChatRoomReq_MergeFrom :: "CreateChatRoomReq \<Rightarrow> CreateChatRoomReq \<Rightarrow> CreateChatRoomReq" where
  "CreateChatRoomReq_MergeFrom this other =
     (let this = (if create_req_roomname other \<noteq> [] then this\<lparr>create_req_roomname := create_req_roomname other\<rparr> else this)
      in this)"

definition CreateChatRoomReq_CopyFrom :: "CreateChatRoomReq \<Rightarrow> CreateChatRoomReq \<Rightarrow> CreateChatRoomReq" where
  "CreateChatRoomReq_CopyFrom this other = CreateChatRoomReq_MergeFrom (CreateChatRoomReq_Clear this) other"

definition CreateChatRoomReq_ok :: "(byte list \<Rightarrow> bool) \<Rightarrow> CreateChatRoomReq \<Rightarrow> bool" where
  "CreateChatRoomReq_ok utf8 m \<longleftrightarrow>
     wire_string utf8 (create_req_roomname m)"

lemma CreateChatRoomReq_loop:
  assumes "CreateChatRoomReq_ok utf8 m"
  shows "parse_loop depth (CreateChatRoomReq_switch utf8) (CreateChatRoomReq_Serialize m @ rest) m0 =
    parse_loop depth (CreateChatRoomReq_switch utf8) rest (CreateChatRoomReq_MergeFrom m0 m)"
proof -
  let ?sw = "CreateChatRoomReq_switch utf8"
  have s0: "parse_loop depth ?sw (put_string 10 (create_req_roomname m) @ r) m1 =
      parse_loop depth ?sw r (if create_req_roomname m \<noteq> [] then m1\<lparr>create_req_roomname := create_req_roomname m\<rparr> else m1)" for r m1
    by (rule parse_put_string [where f = "\<lambda>x. m1\<lparr>create_req_roomname := x\<rparr>" and valid = utf8])
      (use assms in \<open>simp_all add: CreateChatRoomReq_switch_def CreateChatRoomReq_ok_def wire_string_def\<close>)
  show ?thesis
    by (cases m0) (simp add: CreateChatRoomReq_Serialize_def CreateChatRoomReq_MergeFrom_def Let_def s0)
qed

lemma CreateChatRoomReq_merge: "CreateChatRoomReq_MergeFrom CreateChatRoomReq_new m = m" "CreateChatRoomReq_CopyFrom m0 m = m"
  by (cases m, simp add: CreateChatRoomReq_MergeFrom_def CreateChatRoomReq_new_def Let_def,
    cases m, cases m0, simp add: CreateChatRoomReq_CopyFrom_def CreateChatRoomReq_Clear_def CreateChatRoomReq_MergeFrom_def Let_def)

interpretation create_req: message_codec CreateChatRoomReq_Serialize CreateChatRoomReq_ByteSizeLong "parse_loop 100 (CreateChatRoomReq_switch utf8)"
    "CreateChatRoomReq_Parse utf8" CreateChatRoomReq_new CreateChatRoomReq_MergeFrom "CreateChatRoomReq_ok utf8"
  for utf8
  by unfold_locales
    (simp add: CreateChatRoomReq_loop,
     simp_all add: CreateChatRoomReq_Parse_def CreateChatRoomReq_merge CreateChatRoomReq_Serialize_def CreateChatRoomReq_ByteSizeLong_def put_sizes length_put_repeated)

section \<open>\<^verbatim>\<open>CreateChatRoomAck\<close>\<close>

datatype CreateChatRoomAck = CreateChatRoomAck_new

definition CreateChatRoomAck_Serialize :: "CreateChatRoomAck \<Rightarrow> byte list" where
  "CreateChatRoomAck_Serialize m = []"

definition CreateChatRoomAck_ByteSizeLong :: "CreateChatRoomAck \<Rightarrow> nat" where
  "CreateChatRoomAck_ByteSizeLong m = 0"

definition CreateChatRoomAck_switch :: "uint32 \<Rightarrow> byte list \<Rightarrow> CreateChatRoomAck \<Rightarrow> CreateChatRoomAck field_result" where
  "CreateChatRoomAck_switch tag r m = Unusual"

definition CreateChatRoomAck_Parse :: "byte list \<Rightarrow> CreateChatRoomAck option" where
  "CreateChatRoomAck_Parse bs = parse_loop 100 CreateChatRoomAck_switch bs CreateChatRoomAck_new"

definition CreateChatRoomAck_MergeFrom :: "CreateChatRoomAck \<Rightarrow> CreateChatRoomAck \<Rightarrow> CreateChatRoomAck" where
  "CreateChatRoomAck_MergeFrom this other = this"

interpretation create_ack: message_codec CreateChatRoomAck_Serialize CreateChatRoomAck_ByteSizeLong "parse_loop 100 CreateChatRoomAck_switch" CreateChatRoomAck_Parse
    CreateChatRoomAck_new CreateChatRoomAck_MergeFrom "\<lambda>_. True"
  by unfold_locales
    (simp_all add: CreateChatRoomAck_Serialize_def CreateChatRoomAck_ByteSizeLong_def CreateChatRoomAck_Parse_def CreateChatRoomAck_MergeFrom_def, metis CreateChatRoomAck.exhaust)

section \<open>\<^verbatim>\<open>RefreshChatRoomReq\<close>\<close>

datatype RefreshChatRoomReq = RefreshChatRoomReq_new

definition RefreshChatRoomReq_Serialize :: "RefreshChatRoomReq \<Rightarrow> byte list" where
  "RefreshChatRoomReq_Serialize m = []"

definition RefreshChatRoomReq_ByteSizeLong :: "RefreshChatRoomReq \<Rightarrow> nat" where
  "RefreshChatRoomReq_ByteSizeLong m = 0"

definition RefreshChatRoomReq_switch :: "uint32 \<Rightarrow> byte list \<Rightarrow> RefreshChatRoomReq \<Rightarrow> RefreshChatRoomReq field_result" where
  "RefreshChatRoomReq_switch tag r m = Unusual"

definition RefreshChatRoomReq_Parse :: "byte list \<Rightarrow> RefreshChatRoomReq option" where
  "RefreshChatRoomReq_Parse bs = parse_loop 100 RefreshChatRoomReq_switch bs RefreshChatRoomReq_new"

definition RefreshChatRoomReq_MergeFrom :: "RefreshChatRoomReq \<Rightarrow> RefreshChatRoomReq \<Rightarrow> RefreshChatRoomReq" where
  "RefreshChatRoomReq_MergeFrom this other = this"

interpretation refresh_req: message_codec RefreshChatRoomReq_Serialize RefreshChatRoomReq_ByteSizeLong "parse_loop 100 RefreshChatRoomReq_switch" RefreshChatRoomReq_Parse
    RefreshChatRoomReq_new RefreshChatRoomReq_MergeFrom "\<lambda>_. True"
  by unfold_locales
    (simp_all add: RefreshChatRoomReq_Serialize_def RefreshChatRoomReq_ByteSizeLong_def RefreshChatRoomReq_Parse_def RefreshChatRoomReq_MergeFrom_def, metis RefreshChatRoomReq.exhaust)

section \<open>\<^verbatim>\<open>RefreshChatRoomAck\<close>\<close>

datatype RefreshChatRoomAck = RefreshChatRoomAck_new

definition RefreshChatRoomAck_Serialize :: "RefreshChatRoomAck \<Rightarrow> byte list" where
  "RefreshChatRoomAck_Serialize m = []"

definition RefreshChatRoomAck_ByteSizeLong :: "RefreshChatRoomAck \<Rightarrow> nat" where
  "RefreshChatRoomAck_ByteSizeLong m = 0"

definition RefreshChatRoomAck_switch :: "uint32 \<Rightarrow> byte list \<Rightarrow> RefreshChatRoomAck \<Rightarrow> RefreshChatRoomAck field_result" where
  "RefreshChatRoomAck_switch tag r m = Unusual"

definition RefreshChatRoomAck_Parse :: "byte list \<Rightarrow> RefreshChatRoomAck option" where
  "RefreshChatRoomAck_Parse bs = parse_loop 100 RefreshChatRoomAck_switch bs RefreshChatRoomAck_new"

definition RefreshChatRoomAck_MergeFrom :: "RefreshChatRoomAck \<Rightarrow> RefreshChatRoomAck \<Rightarrow> RefreshChatRoomAck" where
  "RefreshChatRoomAck_MergeFrom this other = this"

interpretation refresh_ack: message_codec RefreshChatRoomAck_Serialize RefreshChatRoomAck_ByteSizeLong "parse_loop 100 RefreshChatRoomAck_switch" RefreshChatRoomAck_Parse
    RefreshChatRoomAck_new RefreshChatRoomAck_MergeFrom "\<lambda>_. True"
  by unfold_locales
    (simp_all add: RefreshChatRoomAck_Serialize_def RefreshChatRoomAck_ByteSizeLong_def RefreshChatRoomAck_Parse_def RefreshChatRoomAck_MergeFrom_def, metis RefreshChatRoomAck.exhaust)

section \<open>\<^verbatim>\<open>ChatReq\<close>\<close>

record ChatReq =
  chat_req_sessionuid :: uint32
  chat_req_message :: "byte list"
  chat_req_roomid :: uint32

definition ChatReq_new :: ChatReq where
  "ChatReq_new = \<lparr>chat_req_sessionuid = 0, chat_req_message = [], chat_req_roomid = 0\<rparr>"

definition ChatReq_Clear :: "ChatReq \<Rightarrow> ChatReq" where
  "ChatReq_Clear this = this\<lparr>chat_req_message := [], chat_req_sessionuid := 0, chat_req_roomid := 0\<rparr>"

definition ChatReq_Serialize :: "ChatReq \<Rightarrow> byte list" where
  "ChatReq_Serialize m =
     put_uint32 8 (chat_req_sessionuid m)
       @ put_string 18 (chat_req_message m)
       @ put_uint32 24 (chat_req_roomid m)"

definition ChatReq_ByteSizeLong :: "ChatReq \<Rightarrow> nat" where
  "ChatReq_ByteSizeLong m =
     size_string (chat_req_message m)
     + size_uint32 (chat_req_sessionuid m)
     + size_uint32 (chat_req_roomid m)"

definition ChatReq_switch ::
    "(byte list \<Rightarrow> bool) \<Rightarrow> uint32 \<Rightarrow> byte list \<Rightarrow> ChatReq \<Rightarrow> ChatReq field_result" where
  "ChatReq_switch utf8 tag r m =
     (if drop_bit 3 tag = 1 then
        if (ucast tag :: byte) = 8
        then field_of (ReadVarint32 r) (\<lambda>v. m\<lparr>chat_req_sessionuid := v\<rparr>) else Unusual
      else if drop_bit 3 tag = 2 then
        if (ucast tag :: byte) = 18
        then field_of (ReadUtf8 utf8 r) (\<lambda>v. m\<lparr>chat_req_message := v\<rparr>) else Unusual
      else if drop_bit 3 tag = 3 then
        if (ucast tag :: byte) = 24
        then field_of (ReadVarint32 r) (\<lambda>v. m\<lparr>chat_req_roomid := v\<rparr>) else Unusual
      else Unusual)"

definition ChatReq_Parse :: "(byte list \<Rightarrow> bool) \<Rightarrow> byte list \<Rightarrow> ChatReq option" where
  "ChatReq_Parse utf8 bs = parse_loop 100 (ChatReq_switch utf8) bs ChatReq_new"

definition ChatReq_MergeFrom :: "ChatReq \<Rightarrow> ChatReq \<Rightarrow> ChatReq" where
  "ChatReq_MergeFrom this other =
     (let this = (if chat_req_message other \<noteq> [] then this\<lparr>chat_req_message := chat_req_message other\<rparr> else this);
          this = (if chat_req_sessionuid other \<noteq> 0 then this\<lparr>chat_req_sessionuid := chat_req_sessionuid other\<rparr> else this);
          this = (if chat_req_roomid other \<noteq> 0 then this\<lparr>chat_req_roomid := chat_req_roomid other\<rparr> else this)
      in this)"

definition ChatReq_CopyFrom :: "ChatReq \<Rightarrow> ChatReq \<Rightarrow> ChatReq" where
  "ChatReq_CopyFrom this other = ChatReq_MergeFrom (ChatReq_Clear this) other"

definition ChatReq_ok :: "(byte list \<Rightarrow> bool) \<Rightarrow> ChatReq \<Rightarrow> bool" where
  "ChatReq_ok utf8 m \<longleftrightarrow>
     wire_string utf8 (chat_req_message m)"

lemma ChatReq_loop:
  assumes "ChatReq_ok utf8 m"
  shows "parse_loop depth (ChatReq_switch utf8) (ChatReq_Serialize m @ rest) m0 =
    parse_loop depth (ChatReq_switch utf8) rest (ChatReq_MergeFrom m0 m)"
proof -
  let ?sw = "ChatReq_switch utf8"
  have s0: "parse_loop depth ?sw (put_uint32 8 (chat_req_sessionuid m) @ r) m1 =
      parse_loop depth ?sw r (if chat_req_sessionuid m \<noteq> 0 then m1\<lparr>chat_req_sessionuid := chat_req_sessionuid m\<rparr> else m1)" for r m1
    by (rule parse_put_uint32 [where f = "\<lambda>x. m1\<lparr>chat_req_sessionuid := x\<rparr>"])
      (use assms in \<open>simp_all add: ChatReq_switch_def ChatReq_ok_def wire_string_def\<close>)
  have s1: "parse_loop depth ?sw (put_string 18 (chat_req_message m) @ r) m1 =
      parse_loop depth ?sw r (if chat_req_message m \<noteq> [] then m1\<lparr>chat_req_message := chat_req_message m\<rparr> else m1)" for r m1
    by (rule parse_put_string [where f = "\<lambda>x. m1\<lparr>chat_req_message := x\<rparr>" and valid = utf8])
      (use assms in \<open>simp_all add: ChatReq_switch_def ChatReq_ok_def wire_string_def\<close>)
  have s2: "parse_loop depth ?sw (put_uint32 24 (chat_req_roomid m) @ r) m1 =
      parse_loop depth ?sw r (if chat_req_roomid m \<noteq> 0 then m1\<lparr>chat_req_roomid := chat_req_roomid m\<rparr> else m1)" for r m1
    by (rule parse_put_uint32 [where f = "\<lambda>x. m1\<lparr>chat_req_roomid := x\<rparr>"])
      (use assms in \<open>simp_all add: ChatReq_switch_def ChatReq_ok_def wire_string_def\<close>)
  show ?thesis
    by (cases m0) (simp add: ChatReq_Serialize_def ChatReq_MergeFrom_def Let_def s0 s1 s2)
qed

lemma ChatReq_merge: "ChatReq_MergeFrom ChatReq_new m = m" "ChatReq_CopyFrom m0 m = m"
  by (cases m, simp add: ChatReq_MergeFrom_def ChatReq_new_def Let_def,
    cases m, cases m0, simp add: ChatReq_CopyFrom_def ChatReq_Clear_def ChatReq_MergeFrom_def Let_def)

interpretation chat_req: message_codec ChatReq_Serialize ChatReq_ByteSizeLong "parse_loop 100 (ChatReq_switch utf8)"
    "ChatReq_Parse utf8" ChatReq_new ChatReq_MergeFrom "ChatReq_ok utf8"
  for utf8
  by unfold_locales
    (simp add: ChatReq_loop,
     simp_all add: ChatReq_Parse_def ChatReq_merge ChatReq_Serialize_def ChatReq_ByteSizeLong_def put_sizes length_put_repeated)

section \<open>\<^verbatim>\<open>ChatAck\<close>\<close>

record ChatAck =
  chat_ack_sender :: "byte list"
  chat_ack_message :: "byte list"

definition ChatAck_new :: ChatAck where
  "ChatAck_new = \<lparr>chat_ack_sender = [], chat_ack_message = []\<rparr>"

definition ChatAck_Clear :: "ChatAck \<Rightarrow> ChatAck" where
  "ChatAck_Clear this = this\<lparr>chat_ack_sender := [], chat_ack_message := []\<rparr>"

definition ChatAck_Serialize :: "ChatAck \<Rightarrow> byte list" where
  "ChatAck_Serialize m =
     put_string 10 (chat_ack_sender m)
       @ put_string 18 (chat_ack_message m)"

definition ChatAck_ByteSizeLong :: "ChatAck \<Rightarrow> nat" where
  "ChatAck_ByteSizeLong m =
     size_string (chat_ack_sender m)
     + size_string (chat_ack_message m)"

definition ChatAck_switch ::
    "(byte list \<Rightarrow> bool) \<Rightarrow> uint32 \<Rightarrow> byte list \<Rightarrow> ChatAck \<Rightarrow> ChatAck field_result" where
  "ChatAck_switch utf8 tag r m =
     (if drop_bit 3 tag = 1 then
        if (ucast tag :: byte) = 10
        then field_of (ReadUtf8 utf8 r) (\<lambda>v. m\<lparr>chat_ack_sender := v\<rparr>) else Unusual
      else if drop_bit 3 tag = 2 then
        if (ucast tag :: byte) = 18
        then field_of (ReadUtf8 utf8 r) (\<lambda>v. m\<lparr>chat_ack_message := v\<rparr>) else Unusual
      else Unusual)"

definition ChatAck_Parse :: "(byte list \<Rightarrow> bool) \<Rightarrow> byte list \<Rightarrow> ChatAck option" where
  "ChatAck_Parse utf8 bs = parse_loop 100 (ChatAck_switch utf8) bs ChatAck_new"

definition ChatAck_MergeFrom :: "ChatAck \<Rightarrow> ChatAck \<Rightarrow> ChatAck" where
  "ChatAck_MergeFrom this other =
     (let this = (if chat_ack_sender other \<noteq> [] then this\<lparr>chat_ack_sender := chat_ack_sender other\<rparr> else this);
          this = (if chat_ack_message other \<noteq> [] then this\<lparr>chat_ack_message := chat_ack_message other\<rparr> else this)
      in this)"

definition ChatAck_CopyFrom :: "ChatAck \<Rightarrow> ChatAck \<Rightarrow> ChatAck" where
  "ChatAck_CopyFrom this other = ChatAck_MergeFrom (ChatAck_Clear this) other"

definition ChatAck_ok :: "(byte list \<Rightarrow> bool) \<Rightarrow> ChatAck \<Rightarrow> bool" where
  "ChatAck_ok utf8 m \<longleftrightarrow>
     wire_string utf8 (chat_ack_sender m)
     \<and> wire_string utf8 (chat_ack_message m)"

lemma ChatAck_loop:
  assumes "ChatAck_ok utf8 m"
  shows "parse_loop depth (ChatAck_switch utf8) (ChatAck_Serialize m @ rest) m0 =
    parse_loop depth (ChatAck_switch utf8) rest (ChatAck_MergeFrom m0 m)"
proof -
  let ?sw = "ChatAck_switch utf8"
  have s0: "parse_loop depth ?sw (put_string 10 (chat_ack_sender m) @ r) m1 =
      parse_loop depth ?sw r (if chat_ack_sender m \<noteq> [] then m1\<lparr>chat_ack_sender := chat_ack_sender m\<rparr> else m1)" for r m1
    by (rule parse_put_string [where f = "\<lambda>x. m1\<lparr>chat_ack_sender := x\<rparr>" and valid = utf8])
      (use assms in \<open>simp_all add: ChatAck_switch_def ChatAck_ok_def wire_string_def\<close>)
  have s1: "parse_loop depth ?sw (put_string 18 (chat_ack_message m) @ r) m1 =
      parse_loop depth ?sw r (if chat_ack_message m \<noteq> [] then m1\<lparr>chat_ack_message := chat_ack_message m\<rparr> else m1)" for r m1
    by (rule parse_put_string [where f = "\<lambda>x. m1\<lparr>chat_ack_message := x\<rparr>" and valid = utf8])
      (use assms in \<open>simp_all add: ChatAck_switch_def ChatAck_ok_def wire_string_def\<close>)
  show ?thesis
    by (cases m0) (simp add: ChatAck_Serialize_def ChatAck_MergeFrom_def Let_def s0 s1)
qed

lemma ChatAck_merge: "ChatAck_MergeFrom ChatAck_new m = m" "ChatAck_CopyFrom m0 m = m"
  by (cases m, simp add: ChatAck_MergeFrom_def ChatAck_new_def Let_def,
    cases m, cases m0, simp add: ChatAck_CopyFrom_def ChatAck_Clear_def ChatAck_MergeFrom_def Let_def)

interpretation chat_ack: message_codec ChatAck_Serialize ChatAck_ByteSizeLong "parse_loop 100 (ChatAck_switch utf8)"
    "ChatAck_Parse utf8" ChatAck_new ChatAck_MergeFrom "ChatAck_ok utf8"
  for utf8
  by unfold_locales
    (simp add: ChatAck_loop,
     simp_all add: ChatAck_Parse_def ChatAck_merge ChatAck_Serialize_def ChatAck_ByteSizeLong_def put_sizes length_put_repeated)

section \<open>\<^verbatim>\<open>DummyPacketReq\<close>\<close>

record DummyPacketReq =
  dummy_req_message :: "byte list"

definition DummyPacketReq_new :: DummyPacketReq where
  "DummyPacketReq_new = \<lparr>dummy_req_message = []\<rparr>"

definition DummyPacketReq_Clear :: "DummyPacketReq \<Rightarrow> DummyPacketReq" where
  "DummyPacketReq_Clear this = this\<lparr>dummy_req_message := []\<rparr>"

definition DummyPacketReq_Serialize :: "DummyPacketReq \<Rightarrow> byte list" where
  "DummyPacketReq_Serialize m =
     put_string 10 (dummy_req_message m)"

definition DummyPacketReq_ByteSizeLong :: "DummyPacketReq \<Rightarrow> nat" where
  "DummyPacketReq_ByteSizeLong m =
     size_string (dummy_req_message m)"

definition DummyPacketReq_switch ::
    "(byte list \<Rightarrow> bool) \<Rightarrow> uint32 \<Rightarrow> byte list \<Rightarrow> DummyPacketReq \<Rightarrow> DummyPacketReq field_result" where
  "DummyPacketReq_switch utf8 tag r m =
     (if drop_bit 3 tag = 1 then
        if (ucast tag :: byte) = 10
        then field_of (ReadUtf8 utf8 r) (\<lambda>v. m\<lparr>dummy_req_message := v\<rparr>) else Unusual
      else Unusual)"

definition DummyPacketReq_Parse :: "(byte list \<Rightarrow> bool) \<Rightarrow> byte list \<Rightarrow> DummyPacketReq option" where
  "DummyPacketReq_Parse utf8 bs = parse_loop 100 (DummyPacketReq_switch utf8) bs DummyPacketReq_new"

definition DummyPacketReq_MergeFrom :: "DummyPacketReq \<Rightarrow> DummyPacketReq \<Rightarrow> DummyPacketReq" where
  "DummyPacketReq_MergeFrom this other =
     (let this = (if dummy_req_message other \<noteq> [] then this\<lparr>dummy_req_message := dummy_req_message other\<rparr> else this)
      in this)"

definition DummyPacketReq_CopyFrom :: "DummyPacketReq \<Rightarrow> DummyPacketReq \<Rightarrow> DummyPacketReq" where
  "DummyPacketReq_CopyFrom this other = DummyPacketReq_MergeFrom (DummyPacketReq_Clear this) other"

definition DummyPacketReq_ok :: "(byte list \<Rightarrow> bool) \<Rightarrow> DummyPacketReq \<Rightarrow> bool" where
  "DummyPacketReq_ok utf8 m \<longleftrightarrow>
     wire_string utf8 (dummy_req_message m)"

lemma DummyPacketReq_loop:
  assumes "DummyPacketReq_ok utf8 m"
  shows "parse_loop depth (DummyPacketReq_switch utf8) (DummyPacketReq_Serialize m @ rest) m0 =
    parse_loop depth (DummyPacketReq_switch utf8) rest (DummyPacketReq_MergeFrom m0 m)"
proof -
  let ?sw = "DummyPacketReq_switch utf8"
  have s0: "parse_loop depth ?sw (put_string 10 (dummy_req_message m) @ r) m1 =
      parse_loop depth ?sw r (if dummy_req_message m \<noteq> [] then m1\<lparr>dummy_req_message := dummy_req_message m\<rparr> else m1)" for r m1
    by (rule parse_put_string [where f = "\<lambda>x. m1\<lparr>dummy_req_message := x\<rparr>" and valid = utf8])
      (use assms in \<open>simp_all add: DummyPacketReq_switch_def DummyPacketReq_ok_def wire_string_def\<close>)
  show ?thesis
    by (cases m0) (simp add: DummyPacketReq_Serialize_def DummyPacketReq_MergeFrom_def Let_def s0)
qed

lemma DummyPacketReq_merge: "DummyPacketReq_MergeFrom DummyPacketReq_new m = m" "DummyPacketReq_CopyFrom m0 m = m"
  by (cases m, simp add: DummyPacketReq_MergeFrom_def DummyPacketReq_new_def Let_def,
    cases m, cases m0, simp add: DummyPacketReq_CopyFrom_def DummyPacketReq_Clear_def DummyPacketReq_MergeFrom_def Let_def)

interpretation dummy_req: message_codec DummyPacketReq_Serialize DummyPacketReq_ByteSizeLong "parse_loop 100 (DummyPacketReq_switch utf8)"
    "DummyPacketReq_Parse utf8" DummyPacketReq_new DummyPacketReq_MergeFrom "DummyPacketReq_ok utf8"
  for utf8
  by unfold_locales
    (simp add: DummyPacketReq_loop,
     simp_all add: DummyPacketReq_Parse_def DummyPacketReq_merge DummyPacketReq_Serialize_def DummyPacketReq_ByteSizeLong_def put_sizes length_put_repeated)

section \<open>\<^verbatim>\<open>DummyPacketAck\<close>\<close>

record DummyPacketAck =
  dummy_ack_message :: "byte list"

definition DummyPacketAck_new :: DummyPacketAck where
  "DummyPacketAck_new = \<lparr>dummy_ack_message = []\<rparr>"

definition DummyPacketAck_Clear :: "DummyPacketAck \<Rightarrow> DummyPacketAck" where
  "DummyPacketAck_Clear this = this\<lparr>dummy_ack_message := []\<rparr>"

definition DummyPacketAck_Serialize :: "DummyPacketAck \<Rightarrow> byte list" where
  "DummyPacketAck_Serialize m =
     put_string 10 (dummy_ack_message m)"

definition DummyPacketAck_ByteSizeLong :: "DummyPacketAck \<Rightarrow> nat" where
  "DummyPacketAck_ByteSizeLong m =
     size_string (dummy_ack_message m)"

definition DummyPacketAck_switch ::
    "(byte list \<Rightarrow> bool) \<Rightarrow> uint32 \<Rightarrow> byte list \<Rightarrow> DummyPacketAck \<Rightarrow> DummyPacketAck field_result" where
  "DummyPacketAck_switch utf8 tag r m =
     (if drop_bit 3 tag = 1 then
        if (ucast tag :: byte) = 10
        then field_of (ReadUtf8 utf8 r) (\<lambda>v. m\<lparr>dummy_ack_message := v\<rparr>) else Unusual
      else Unusual)"

definition DummyPacketAck_Parse :: "(byte list \<Rightarrow> bool) \<Rightarrow> byte list \<Rightarrow> DummyPacketAck option" where
  "DummyPacketAck_Parse utf8 bs = parse_loop 100 (DummyPacketAck_switch utf8) bs DummyPacketAck_new"

definition DummyPacketAck_MergeFrom :: "DummyPacketAck \<Rightarrow> DummyPacketAck \<Rightarrow> DummyPacketAck" where
  "DummyPacketAck_MergeFrom this other =
     (let this = (if dummy_ack_message other \<noteq> [] then this\<lparr>dummy_ack_message := dummy_ack_message other\<rparr> else this)
      in this)"

definition DummyPacketAck_CopyFrom :: "DummyPacketAck \<Rightarrow> DummyPacketAck \<Rightarrow> DummyPacketAck" where
  "DummyPacketAck_CopyFrom this other = DummyPacketAck_MergeFrom (DummyPacketAck_Clear this) other"

definition DummyPacketAck_ok :: "(byte list \<Rightarrow> bool) \<Rightarrow> DummyPacketAck \<Rightarrow> bool" where
  "DummyPacketAck_ok utf8 m \<longleftrightarrow>
     wire_string utf8 (dummy_ack_message m)"

lemma DummyPacketAck_loop:
  assumes "DummyPacketAck_ok utf8 m"
  shows "parse_loop depth (DummyPacketAck_switch utf8) (DummyPacketAck_Serialize m @ rest) m0 =
    parse_loop depth (DummyPacketAck_switch utf8) rest (DummyPacketAck_MergeFrom m0 m)"
proof -
  let ?sw = "DummyPacketAck_switch utf8"
  have s0: "parse_loop depth ?sw (put_string 10 (dummy_ack_message m) @ r) m1 =
      parse_loop depth ?sw r (if dummy_ack_message m \<noteq> [] then m1\<lparr>dummy_ack_message := dummy_ack_message m\<rparr> else m1)" for r m1
    by (rule parse_put_string [where f = "\<lambda>x. m1\<lparr>dummy_ack_message := x\<rparr>" and valid = utf8])
      (use assms in \<open>simp_all add: DummyPacketAck_switch_def DummyPacketAck_ok_def wire_string_def\<close>)
  show ?thesis
    by (cases m0) (simp add: DummyPacketAck_Serialize_def DummyPacketAck_MergeFrom_def Let_def s0)
qed

lemma DummyPacketAck_merge: "DummyPacketAck_MergeFrom DummyPacketAck_new m = m" "DummyPacketAck_CopyFrom m0 m = m"
  by (cases m, simp add: DummyPacketAck_MergeFrom_def DummyPacketAck_new_def Let_def,
    cases m, cases m0, simp add: DummyPacketAck_CopyFrom_def DummyPacketAck_Clear_def DummyPacketAck_MergeFrom_def Let_def)

interpretation dummy_ack: message_codec DummyPacketAck_Serialize DummyPacketAck_ByteSizeLong "parse_loop 100 (DummyPacketAck_switch utf8)"
    "DummyPacketAck_Parse utf8" DummyPacketAck_new DummyPacketAck_MergeFrom "DummyPacketAck_ok utf8"
  for utf8
  by unfold_locales
    (simp add: DummyPacketAck_loop,
     simp_all add: DummyPacketAck_Parse_def DummyPacketAck_merge DummyPacketAck_Serialize_def DummyPacketAck_ByteSizeLong_def put_sizes length_put_repeated)

section \<open>Properties\<close>



text \<open>
  C29. Every answer of the server, the list of rooms with its nested messages included, is
  parsed into the message it was serialised from, under the same conditions on its strings.
\<close>

theorem answer_roundtrips:
  assumes "LoginAck_ok utf8 m1" "EnterChatRoomAck_ok utf8 m2" "ChatAck_ok utf8 m3" "DummyPacketAck_ok utf8 m4"
    "ChatRoomListAck_ok utf8 m5"
  shows "LoginAck_Parse utf8 (LoginAck_Serialize m1) = Some m1
    \<and> EnterChatRoomAck_Parse utf8 (EnterChatRoomAck_Serialize m2) = Some m2
    \<and> ChatAck_Parse utf8 (ChatAck_Serialize m3) = Some m3
    \<and> DummyPacketAck_Parse utf8 (DummyPacketAck_Serialize m4) = Some m4
    \<and> ChatRoomListAck_Parse utf8 (ChatRoomListAck_Serialize m5) = Some m5
    \<and> CreateChatRoomAck_Parse (CreateChatRoomAck_Serialize m6) = Some m6
    \<and> RefreshChatRoomAck_Parse (RefreshChatRoomAck_Serialize m7) = Some m7
    \<and> ChatRoomListAck_ByteSizeLong m5 = length (ChatRoomListAck_Serialize m5)"
  using assms
  by (simp add: login_ack.parse_ser enter_ack.parse_ser chat_ack.parse_ser dummy_ack.parse_ser
      list_ack.parse_ser create_ack.parse_ser refresh_ack.parse_ser list_ack.size_ser)

definition example_rooms :: ChatRoomListAck where
  "example_rooms = \<lparr>list_ack_success = True, list_ack_chatroominfo =
     [\<lparr>info_roomid = 1, info_currentuser = 2, info_maxuser = 10, info_roomname = [97]\<rparr>,
      \<lparr>info_roomid = 2, info_currentuser = 0, info_maxuser = 10, info_roomname = []\<rparr>]\<rparr>"

theorem answer_roundtrips_witness:
  "ChatRoomListAck_Parse (\<lambda>s. \<forall>b \<in> set s. b < 128) (ChatRoomListAck_Serialize example_rooms) = Some example_rooms"
proof -
  have size: "length (ChatRoomInfo_Serialize i) \<le> 2147483631"
    if "i \<in> set (list_ack_chatroominfo example_rooms)" for i
    using that by (intro ChatRoomInfo_length) (auto simp: example_rooms_def)
  have "ChatRoomListAck_ok (\<lambda>s. \<forall>b \<in> set s. b < 128) example_rooms"
    unfolding ChatRoomListAck_ok_def using size
    by (auto simp: example_rooms_def ChatRoomInfo_ok_def wire_string_def)
  with answer_roundtrips [of "\<lambda>s. \<forall>b \<in> set s. b < 128" LoginAck_new EnterChatRoomAck_new ChatAck_new
      DummyPacketAck_new example_rooms]
  show ?thesis
    by (simp add: LoginAck_ok_def EnterChatRoomAck_ok_def ChatAck_ok_def DummyPacketAck_ok_def wire_string_def
        LoginAck_new_def EnterChatRoomAck_new_def ChatAck_new_def DummyPacketAck_new_def)
qed

text \<open>
  C30. Two serialised messages one behind the other are parsed as the merge of the second into
  the first: fields that the second writes win, repeated fields are appended. This is what
  the loop of the generated parser promises for every message; here for a request, for a
  message with three fields and for the list with its nested messages.
\<close>

theorem concatenation_merges:
  assumes "LoginReq_ok utf8 a" "LoginReq_ok utf8 a'" "ChatReq_ok utf8 b" "ChatReq_ok utf8 b'"
    "ChatRoomListAck_ok utf8 c" "ChatRoomListAck_ok utf8 c'"
  shows "LoginReq_Parse utf8 (LoginReq_Serialize a @ LoginReq_Serialize a') = Some (LoginReq_MergeFrom a a')
    \<and> ChatReq_Parse utf8 (ChatReq_Serialize b @ ChatReq_Serialize b') = Some (ChatReq_MergeFrom b b')
    \<and> ChatRoomListAck_Parse utf8 (ChatRoomListAck_Serialize c @ ChatRoomListAck_Serialize c')
      = Some \<lparr>list_ack_success = (list_ack_success c \<or> list_ack_success c'),
              list_ack_chatroominfo = list_ack_chatroominfo c @ list_ack_chatroominfo c'\<rparr>"
  using assms
  by (cases c, cases c') (simp add: login_req.parse_append chat_req.parse_append list_ack.parse_append
      ChatRoomListAck_MergeFrom_def Let_def)

theorem concatenation_merges_witness:
  "ChatReq_Parse (\<lambda>s. \<forall>b \<in> set s. b < 128)
     (ChatReq_Serialize \<lparr>chat_req_sessionuid = 3, chat_req_message = [104], chat_req_roomid = 7\<rparr>
      @ ChatReq_Serialize \<lparr>chat_req_sessionuid = 0, chat_req_message = [105], chat_req_roomid = 9\<rparr>)
   = Some \<lparr>chat_req_sessionuid = 3, chat_req_message = [105], chat_req_roomid = 9\<rparr>"
  using concatenation_merges [of "\<lambda>s. \<forall>b \<in> set s. b < 128" LoginReq_new LoginReq_new
      "\<lparr>chat_req_sessionuid = 3, chat_req_message = [104], chat_req_roomid = 7\<rparr>"
      "\<lparr>chat_req_sessionuid = 0, chat_req_message = [105], chat_req_roomid = 9\<rparr>" ChatRoomListAck_new ChatRoomListAck_new]
  by (simp add: LoginReq_ok_def ChatReq_ok_def ChatRoomListAck_ok_def wire_string_def LoginReq_new_def
      ChatRoomListAck_new_def ChatReq_MergeFrom_def Let_def)



end
