(* ===== verification/Packet_Handler.thy ===== *)
theory Packet_Handler
  imports Packet_Object Packet_Pool Proto_Messages
begin

text \<open>
  What \<^verbatim>\<open>GameServer/ClientPacketHandler.h\<close> and \<^verbatim>\<open>Client/ServerPacketHandler.h\<close> share: the packet
  types, \<^verbatim>\<open>MakePacket\<close>, which puts a message behind a header, the template \<^verbatim>\<open>HandlePacket\<close>,
  which parses a message and calls its handler, and the table of handlers.
\<close>

section \<open>Packet types\<close>

datatype packet_type =
    EnterChatRoomReq_t | EnterChatRoomAck_t | LoginReq_t | LoginAck_t | ChatRoomListReq_t
  | ChatRoomListAck_t | CreateChatRoomReq_t | CreateChatRoomAck_t | RefreshChatRoomReq_t
  | RefreshChatRoomAck_t | ChatReq_t | ChatAck_t | DummyPacketReq_t | DummyPacketAck_t

fun type_code :: "packet_type \<Rightarrow> uint16" where
  "type_code EnterChatRoomReq_t = 1000"
| "type_code EnterChatRoomAck_t = 1001"
| "type_code LoginReq_t = 1002"
| "type_code LoginAck_t = 1003"
| "type_code ChatRoomListReq_t = 1004"
| "type_code ChatRoomListAck_t = 1005"
| "type_code CreateChatRoomReq_t = 1006"
| "type_code CreateChatRoomAck_t = 1007"
| "type_code RefreshChatRoomReq_t = 1008"
| "type_code RefreshChatRoomAck_t = 1009"
| "type_code ChatReq_t = 1010"
| "type_code ChatAck_t = 1011"
| "type_code DummyPacketReq_t = 1012"
| "type_code DummyPacketAck_t = 1013"

lemma type_code_inj: "type_code a = type_code b \<Longrightarrow> a = b"
  by (cases a; cases b) simp_all

section \<open>\<^verbatim>\<open>MakePacket\<close>\<close>

text \<open>
  \<^verbatim>\<open>SerializeToArray\<close> refuses a message above 2 GB and an array that is too small. The array is
  zeroed before.
\<close>

definition SerializeToArray :: "nat \<Rightarrow> byte list \<Rightarrow> nat \<Rightarrow> byte list option" where
  "SerializeToArray byteSize bytes arraySize =
     (if 2147483647 < byteSize then None
      else if arraySize < byteSize then None
      else Some (overwrite (replicate arraySize 0) 0 bytes))"

text \<open>
  The message is given by its \<^verbatim>\<open>ByteSizeLong\<close> and its serialised bytes; \<open>pad\<close> are the padding
  bytes of the header on the stack. Both sizes are 16 bit numbers; the size in the header is
  not. The packet taken out of the pool is dropped.
\<close>

definition MakePacket ::
    "byte \<times> byte \<Rightarrow> nat \<Rightarrow> byte list \<Rightarrow> uint16 \<Rightarrow> PacketPool \<Rightarrow> (Packet \<times> PacketPool) res" where
  "MakePacket pad byteSize bytes ty pool =
     (let dataSize = of_nat byteSize :: uint16;
          packetSize = dataSize + of_nat sizeof_PacketHeader;
          header = \<lparr>packetType = ty, packetSize = of_nat sizeof_PacketHeader + ucast dataSize, seqNum = 1\<rparr>
      in case SerializeToArray byteSize bytes (unat dataSize) of
           None \<Rightarrow> Inr (Packet_empty, pool)
         | Some buf \<Rightarrow>
             bindR (memcpy (replicate (unat packetSize) 0) 0 (PacketHeader_bytes pad header) 12) (\<lambda>pb1.
             bindR (memcpy pb1 12 buf (uint dataSize)) (\<lambda>pb2.
             let (makePacket, pool') = PacketPool_Pop pool
             in bindR (Packet_from pb2 (PacketHeader.packetSize header) (ucast ty)) (\<lambda>packet.
                Inr (packet, pool')))))"

lemma sizeof_header_word [simp]: "(of_nat sizeof_PacketHeader :: 'a::len word) = 12"
  by (simp add: sizeof_PacketHeader_def)

text \<open>The bytes of a packet that carries \<open>body\<close>.\<close>

definition packet_bytes :: "byte \<times> byte \<Rightarrow> uint16 \<Rightarrow> byte list \<Rightarrow> byte list" where
  "packet_bytes pad ty body =
     PacketHeader_bytes pad \<lparr>packetType = ty, packetSize = of_nat (12 + length body), seqNum = 1\<rparr> @ body"

lemma length_packet_bytes [simp]: "length (packet_bytes pad ty body) = 12 + length body"
  by (simp add: packet_bytes_def)

lemma MakePacket_fits:
  assumes "byteSize = length bytes" "length bytes \<le> 65523"
  shows "MakePacket pad byteSize bytes ty pool =
    Inr (\<lparr>m_Data = OwnBuffer, m_Size = of_nat (12 + length bytes), m_PacketType = ucast ty,
          m_OwnBuffer = Some (packet_bytes pad ty bytes)\<rparr>, snd (PacketPool_Pop pool))"
proof -
  let ?d = "of_nat (length bytes) :: uint16"
  let ?p = "?d + 12"
  have d: "unat ?d = length bytes" using assms(2) by (simp add: unat_of_nat)
  have p: "unat ?p = 12 + length bytes"
  proof -
    have "?p = of_nat (12 + length bytes)" by simp
    then show ?thesis using assms(2) unat_u16_of_nat [of "12 + length bytes"] by (simp add: add.commute)
  qed
  have ud: "uint ?d = int (length bytes)" using d by (simp only: uint_int_unat)
  have size: "12 + ucast ?d = (of_nat (12 + length bytes) :: uint32)"
    using d by (metis of_nat_add of_nat_numeral of_nat_unat)
  let ?h = "\<lparr>packetType = ty, packetSize = of_nat (12 + length bytes), seqNum = 1\<rparr>"
  have ser: "SerializeToArray (length bytes) bytes (unat ?d) = Some bytes"
    using assms(2) d by (simp add: SerializeToArray_def overwrite_def)
  have m1: "memcpy (replicate (unat ?p) 0) 0 (PacketHeader_bytes pad ?h) 12
      = Inr (PacketHeader_bytes pad ?h @ replicate (length bytes) 0)"
    using p by (simp add: memcpy_def overwrite_def)
  have m2: "memcpy (PacketHeader_bytes pad ?h @ replicate (length bytes) 0) 12 bytes (uint ?d)
      = Inr (packet_bytes pad ty bytes)"
    using ud by (simp add: memcpy_def overwrite_def packet_bytes_def)
  have sz: "unat (of_nat (12 + length bytes) :: uint32) = 12 + length bytes"
    using assms(2) unat_u32_of_nat [of "12 + length bytes"] by simp
  have "Packet_from (packet_bytes pad ty bytes) (of_nat (12 + length bytes)) (ucast ty) =
    Inr \<lparr>m_Data = OwnBuffer, m_Size = of_nat (12 + length bytes), m_PacketType = ucast ty,
         m_OwnBuffer = Some (packet_bytes pad ty bytes)\<rparr>"
    by (rule Packet_from_ok) (use sz in simp)
  with ser m1 m2 size assms(1) show ?thesis
    by (simp add: MakePacket_def Let_def split_beta del: of_nat_add)
qed

text \<open>Above 65523 bytes the 16-bit sizes break: a write outside the array, or no packet.\<close>

lemma MakePacket_wraps:
  assumes "byteSize = length bytes" "65523 < length bytes" "length bytes < 65536"
  shows "MakePacket pad byteSize bytes ty pool = Inl OutOfBounds"
proof -
  let ?d = "of_nat (length bytes) :: uint16"
  have d: "unat ?d = length bytes" using assms(3) by (simp add: unat_of_nat)
  have "unat (?d + 12) < 12"
  proof -
    have "unat (?d + 12) = (length bytes + 12) mod 65536"
      using unat_u16_of_nat [of "length bytes + 12"] by simp
    also have "\<dots> = length bytes + 12 - 65536"
      using assms(2,3) by (simp add: mod_if)
    finally show ?thesis using assms(3) by simp
  qed
  then have "memcpy (replicate (unat (?d + 12)) 0) 0 (PacketHeader_bytes pad h) 12 = Inl OutOfBounds" for h
    using memcpy_too_small [where k = 12] by (simp only: length_replicate of_nat_numeral)
  with assms(1,3) d show ?thesis
    by (simp add: MakePacket_def SerializeToArray_def Let_def)
qed

lemma MakePacket_too_long:
  "65535 < byteSize \<Longrightarrow> MakePacket pad byteSize bytes ty pool = Inr (Packet_empty, pool)"
proof -
  assume "65535 < byteSize"
  moreover have "unat (of_nat byteSize :: uint16) < 65536"
    using unsigned_less [of "of_nat byteSize :: uint16", where ?'a = nat] by simp
  ultimately show ?thesis by (simp add: MakePacket_def SerializeToArray_def Let_def)
qed

section \<open>\<^verbatim>\<open>HandlePacket\<close>\<close>

text \<open>
  The table is \<^verbatim>\<open>HandlerFunc GPacketHadler[UINT16_MAX]\<close>: it has no element 65535, and an entry
  that was never set is an empty function. The answer of a handler is \<^verbatim>\<open>bool\<close>; \<open>None\<close> is the
  indeterminate value of a handler that ends without \<^verbatim>\<open>return\<close>.
\<close>

type_synonym 'g answer = "(bool option \<times> 'g) res"

definition call_table :: "(uint16 \<Rightarrow> 'h option) \<Rightarrow> uint16 \<Rightarrow> 'h res" where
  "call_table table ty =
     (if ty = 65535 then Inl OutOfBounds else the_or BadFunctionCall (table ty))"

text \<open>
  \<open>buffer\<close> is the memory from the packet on. \<^verbatim>\<open>len - sizeof(PacketHeader)\<close> is negative for a
  packet that is shorter than its header; the array of negative size is a fault.
\<close>

definition HandlePacket_parse ::
    "(byte list \<Rightarrow> 'm option) \<Rightarrow> ('m \<Rightarrow> 'g \<Rightarrow> 'g answer) \<Rightarrow> byte list \<Rightarrow> int \<Rightarrow> 'g \<Rightarrow> 'g answer" where
  "HandlePacket_parse parse func buffer len g =
     (if len < 12 then Inl LengthError
      else if int (length buffer) < len then Inl OutOfBounds
      else case parse (take (nat (len - 12)) (drop 12 buffer)) of
             None \<Rightarrow> Inr (Some False, g)
           | Some pkt \<Rightarrow> func pkt g)"

definition packet_type_of :: "byte list \<Rightarrow> uint16 res" where
  "packet_type_of buffer = bindR (PacketHeader_read buffer 0) (\<lambda>h. Inr (packetType h))"

lemma packet_type_of_packet [simp]: "packet_type_of (packet_bytes pad ty body @ rest) = Inr ty"
  using PacketHeader_read_bytes [of pad "\<lparr>packetType = ty, packetSize = of_nat (12 + length body), seqNum = 1\<rparr>"
      "body @ rest"]
  by (simp add: packet_type_of_def packet_bytes_def)

context message_codec
begin

text \<open>What the packet layer does for any message: it arrives as it was sent.\<close>

lemma handle_made:
  assumes "ok m"
  shows "HandlePacket_parse parse func (packet_bytes pad ty (ser m) @ rest) (int (12 + length (ser m))) g = func m g"
  using parse_ser [OF assms] by (simp add: HandlePacket_parse_def packet_bytes_def)

lemma make_fits:
  "byte_size m \<le> 65523 \<Longrightarrow> \<exists>p. MakePacket pad (byte_size m) (ser m) ty pool = Inr (p, snd (PacketPool_Pop pool))
     \<and> packet_wf p \<and> Packet_view p = packet_bytes pad ty (ser m)"
proof -
  assume n: "byte_size m \<le> 65523"
  then have "length (ser m) \<le> 65523" by (simp add: size_ser)
  then have "unat (of_nat (12 + length (ser m)) :: uint32) = 12 + length (ser m)"
    using unat_u32_of_nat [of "12 + length (ser m)"] by simp
  with n show ?thesis
    using MakePacket_fits [of "byte_size m" "ser m" pad ty pool]
    by (auto simp: size_ser packet_wf_def Packet_view_def Packet_bytes_def simp del: of_nat_add)
qed

end

section \<open>The registration table of the handler object\<close>

text \<open>
  \<^verbatim>\<open>RegisterHandler\<close> and \<^verbatim>\<open>Reset\<close> keep maps that the dispatch does not use. \<open>'h\<close> is the type of
  handler functions.
\<close>

record 'h PacketHandler =
  ph_Handlers :: "(uint16 \<times> 'h) list"
  ph_NextSeq :: "(int \<times> int) list"
  ph_RecvCount :: "(uint16 \<times> int) list"

definition PacketHandler_RegisterHandler :: "uint16 \<Rightarrow> 'h \<Rightarrow> 'h PacketHandler \<Rightarrow> bool \<times> 'h PacketHandler" where
  "PacketHandler_RegisterHandler ty handler p =
     (let p1 = (if map_of (ph_Handlers p) ty = None
                then p\<lparr>ph_Handlers := omap_put ty handler (ph_Handlers p)\<rparr> else p);
          p2 = (if map_of (ph_RecvCount p1) ty = None
                then p1\<lparr>ph_RecvCount := omap_put ty 0 (ph_RecvCount p1)\<rparr> else p1)
      in (True, p2))"

definition PacketHandler_Reset :: "int \<Rightarrow> 'h PacketHandler \<Rightarrow> 'h PacketHandler" where
  "PacketHandler_Reset sessionUID p = p\<lparr>ph_NextSeq := omap_erase sessionUID (ph_NextSeq p)\<rparr>"

lemma RegisterHandler_first_wins:
  "ph_Handlers (snd (PacketHandler_RegisterHandler ty h p)) = std_map.register ty h (ph_Handlers p)"
  by (cases "map_of (ph_Handlers p) ty"; cases "map_of (ph_RecvCount p) ty")
    (simp_all add: PacketHandler_RegisterHandler_def std_map.register_def Let_def)

section \<open>Properties\<close>

text \<open>
  C27. What \<^verbatim>\<open>MakePacket\<close> does with a message of any size. Up to 65523 bytes it yields a sound
  packet: the header with the type and the full length, then the message. From 65524 to 65535
  bytes the 16-bit packet size wraps, and the copy of the header writes outside the array.
  Above, it logs an error and yields an empty packet. In the first case the pool has lost a
  packet to a variable that is never used.
\<close>

theorem MakePacket_by_size:
  assumes "byteSize = length bytes"
  shows "(length bytes \<le> 65523 \<longrightarrow>
      (\<exists>p. MakePacket pad byteSize bytes ty pool = Inr (p, snd (PacketPool_Pop pool)) \<and> packet_wf p
         \<and> Packet_view p = PacketHeader_bytes pad \<lparr>packetType = ty, packetSize = of_nat (12 + length bytes), seqNum = 1\<rparr> @ bytes))
    \<and> (65523 < length bytes \<and> length bytes < 65536 \<longrightarrow> MakePacket pad byteSize bytes ty pool = Inl OutOfBounds)
    \<and> (65536 \<le> length bytes \<longrightarrow> MakePacket pad byteSize bytes ty pool = Inr (Packet_empty, pool))"
proof (intro conjI impI)
  assume n: "length bytes \<le> 65523"
  then have "unat (of_nat (12 + length bytes) :: uint32) = 12 + length bytes"
    using unat_u32_of_nat [of "12 + length bytes"] by simp
  then show "\<exists>p. MakePacket pad byteSize bytes ty pool = Inr (p, snd (PacketPool_Pop pool)) \<and> packet_wf p
         \<and> Packet_view p = PacketHeader_bytes pad \<lparr>packetType = ty, packetSize = of_nat (12 + length bytes), seqNum = 1\<rparr> @ bytes"
    using MakePacket_fits [OF assms n, of pad ty pool]
    by (simp add: packet_wf_def Packet_view_def Packet_bytes_def packet_bytes_def del: of_nat_add)
next
  assume "65523 < length bytes \<and> length bytes < 65536"
  with assms show "MakePacket pad byteSize bytes ty pool = Inl OutOfBounds" by (intro MakePacket_wraps) auto
next
  assume "65536 \<le> length bytes"
  with assms show "MakePacket pad byteSize bytes ty pool = Inr (Packet_empty, pool)"
    by (intro MakePacket_too_long) simp
qed

theorem MakePacket_by_size_witness:
  "(\<exists>p. MakePacket (0, 0) 2 [8, 5] 1000 PacketPool_new = Inr (p, snd (PacketPool_Pop PacketPool_new))
      \<and> Packet_view p = PacketHeader_bytes (0, 0) \<lparr>packetType = 1000, packetSize = 14, seqNum = 1\<rparr> @ [8, 5])
   \<and> MakePacket (0, 0) 65524 (replicate 65524 7) 1000 PacketPool_new = Inl OutOfBounds
   \<and> MakePacket (0, 0) 70000 (replicate 70000 7) 1000 PacketPool_new = Inr (Packet_empty, PacketPool_new)"
proof (intro conjI)
  show "\<exists>p. MakePacket (0, 0) 2 [8, 5] 1000 PacketPool_new = Inr (p, snd (PacketPool_Pop PacketPool_new))
      \<and> Packet_view p = PacketHeader_bytes (0, 0) \<lparr>packetType = 1000, packetSize = 14, seqNum = 1\<rparr> @ [8, 5]"
    using MakePacket_by_size [of 2 "[8, 5]" "(0, 0)" 1000 PacketPool_new] by simp blast
  show "MakePacket (0, 0) 65524 (replicate 65524 7) 1000 PacketPool_new = Inl OutOfBounds"
    using MakePacket_by_size [of 65524 "replicate 65524 7" "(0, 0)" 1000 PacketPool_new] by simp
  show "MakePacket (0, 0) 70000 (replicate 70000 7) 1000 PacketPool_new = Inr (Packet_empty, PacketPool_new)"
    using MakePacket_by_size [of 70000 "replicate 70000 7" "(0, 0)" 1000 PacketPool_new] by simp
qed

end
