(* ===== verification/Proto_Structs.thy ===== *)
theory Proto_Structs
  imports Proto_Messages
begin

text \<open>
  The messages of \<^verbatim>\<open>Struct.pb.cc\<close> that no handler uses yet, in the same way as the others. The
  enumeration \<^verbatim>\<open>LoginResult\<close> is open, as in proto3: any \<^verbatim>\<open>int32\<close> is kept.
\<close>

section \<open>\<^verbatim>\<open>LoginRes\<close>\<close>

record LoginRes =
  login_res_result :: uint32
  login_res_userid :: "byte list"
  login_res_message :: "byte list"

definition LoginRes_new :: LoginRes where
  "LoginRes_new = \<lparr>login_res_result = 0, login_res_userid = [], login_res_message = []\<rparr>"

definition LoginRes_Clear :: "LoginRes \<Rightarrow> LoginRes" where
  "LoginRes_Clear this = this\<lparr>login_res_userid := [], login_res_message := [], login_res_result := 0\<rparr>"

definition LoginRes_Serialize :: "LoginRes \<Rightarrow> byte list" where
  "LoginRes_Serialize m =
     put_int32 8 (login_res_result m)
       @ put_string 18 (login_res_userid m)
       @ put_string 26 (login_res_message m)"

definition LoginRes_ByteSizeLong :: "LoginRes \<Rightarrow> nat" where
  "LoginRes_ByteSizeLong m =
     size_string (login_res_userid m)
     + size_string (login_res_message m)
     + size_int32 (login_res_result m)"

definition LoginRes_switch ::
    "(byte list \<Rightarrow> bool) \<Rightarrow> uint32 \<Rightarrow> byte list \<Rightarrow> LoginRes \<Rightarrow> LoginRes field_result" where
  "LoginRes_switch utf8 tag r m =
     (if drop_bit 3 tag = 1 then
        if (ucast tag :: byte) = 8
        then field_of (ReadVarint64 r) (\<lambda>v. m\<lparr>login_res_result := ucast v\<rparr>) else Unusual
      else if drop_bit 3 tag = 2 then
        if (ucast tag :: byte) = 18
        then field_of (ReadUtf8 utf8 r) (\<lambda>v. m\<lparr>login_res_userid := v\<rparr>) else Unusual
      else if drop_bit 3 tag = 3 then
        if (ucast tag :: byte) = 26
        then field_of (ReadUtf8 utf8 r) (\<lambda>v. m\<lparr>login_res_message := v\<rparr>) else Unusual
      else Unusual)"

definition LoginRes_Parse :: "(byte list \<Rightarrow> bool) \<Rightarrow> byte list \<Rightarrow> LoginRes option" where
  "LoginRes_Parse utf8 bs = parse_loop 100 (LoginRes_switch utf8) bs LoginRes_new"

definition LoginRes_MergeFrom :: "LoginRes \<Rightarrow> LoginRes \<Rightarrow> LoginRes" where
  "LoginRes_MergeFrom this other =
     (let this = (if login_res_userid other \<noteq> [] then this\<lparr>login_res_userid := login_res_userid other\<rparr> else this);
          this = (if login_res_message other \<noteq> [] then this\<lparr>login_res_message := login_res_message other\<rparr> else this);
          this = (if login_res_result other \<noteq> 0 then this\<lparr>login_res_result := login_res_result other\<rparr> else this)
      in this)"

definition LoginRes_CopyFrom :: "LoginRes \<Rightarrow> LoginRes \<Rightarrow> LoginRes" where
  "LoginRes_CopyFrom this other = LoginRes_MergeFrom (LoginRes_Clear this) other"

definition LoginRes_ok :: "(byte list \<Rightarrow> bool) \<Rightarrow> LoginRes \<Rightarrow> bool" where
  "LoginRes_ok utf8 m \<longleftrightarrow>
     wire_string utf8 (login_res_userid m)
     \<and> wire_string utf8 (login_res_message m)"

lemma LoginRes_loop:
  assumes "LoginRes_ok utf8 m"
  shows "parse_loop depth (LoginRes_switch utf8) (LoginRes_Serialize m @ rest) m0 =
    parse_loop depth (LoginRes_switch utf8) rest (LoginRes_MergeFrom m0 m)"
proof -
  let ?sw = "LoginRes_switch utf8"
  have s0: "parse_loop depth ?sw (put_int32 8 (login_res_result m) @ r) m1 =
      parse_loop depth ?sw r (if login_res_result m \<noteq> 0 then m1\<lparr>login_res_result := login_res_result m\<rparr> else m1)" for r m1
    by (rule parse_put_int32 [where f = "\<lambda>x. m1\<lparr>login_res_result := x\<rparr>"])
      (use assms in \<open>simp_all add: LoginRes_switch_def LoginRes_ok_def wire_string_def\<close>)
  have s1: "parse_loop depth ?sw (put_string 18 (login_res_userid m) @ r) m1 =
      parse_loop depth ?sw r (if login_res_userid m \<noteq> [] then m1\<lparr>login_res_userid := login_res_userid m\<rparr> else m1)" for r m1
    by (rule parse_put_string [where f = "\<lambda>x. m1\<lparr>login_res_userid := x\<rparr>" and valid = utf8])
      (use assms in \<open>simp_all add: LoginRes_switch_def LoginRes_ok_def wire_string_def\<close>)
  have s2: "parse_loop depth ?sw (put_string 26 (login_res_message m) @ r) m1 =
      parse_loop depth ?sw r (if login_res_message m \<noteq> [] then m1\<lparr>login_res_message := login_res_message m\<rparr> else m1)" for r m1
    by (rule parse_put_string [where f = "\<lambda>x. m1\<lparr>login_res_message := x\<rparr>" and valid = utf8])
      (use assms in \<open>simp_all add: LoginRes_switch_def LoginRes_ok_def wire_string_def\<close>)
  show ?thesis
    by (cases m0) (simp add: LoginRes_Serialize_def LoginRes_MergeFrom_def Let_def s0 s1 s2)
qed

lemma LoginRes_merge: "LoginRes_MergeFrom LoginRes_new m = m" "LoginRes_CopyFrom m0 m = m"
  by (cases m, simp add: LoginRes_MergeFrom_def LoginRes_new_def Let_def,
    cases m, cases m0, simp add: LoginRes_CopyFrom_def LoginRes_Clear_def LoginRes_MergeFrom_def Let_def)

interpretation login_res: message_codec LoginRes_Serialize LoginRes_ByteSizeLong "parse_loop 100 (LoginRes_switch utf8)"
    "LoginRes_Parse utf8" LoginRes_new LoginRes_MergeFrom "LoginRes_ok utf8"
  for utf8
  by unfold_locales
    (simp add: LoginRes_loop,
     simp_all add: LoginRes_Parse_def LoginRes_merge LoginRes_Serialize_def LoginRes_ByteSizeLong_def put_sizes length_put_repeated)

section \<open>\<^verbatim>\<open>ChatRoomData\<close>\<close>

record ChatRoomData =
  room_data_roomid :: uint32
  room_data_roomname :: "byte list"
  room_data_currentuser :: uint32
  room_data_maxuser :: uint32

definition ChatRoomData_new :: ChatRoomData where
  "ChatRoomData_new = \<lparr>room_data_roomid = 0, room_data_roomname = [], room_data_currentuser = 0, room_data_maxuser = 0\<rparr>"

definition ChatRoomData_Clear :: "ChatRoomData \<Rightarrow> ChatRoomData" where
  "ChatRoomData_Clear this = this\<lparr>room_data_roomname := [], room_data_roomid := 0, room_data_currentuser := 0, room_data_maxuser := 0\<rparr>"

definition ChatRoomData_Serialize :: "ChatRoomData \<Rightarrow> byte list" where
  "ChatRoomData_Serialize m =
     put_uint32 8 (room_data_roomid m)
       @ put_string 18 (room_data_roomname m)
       @ put_uint32 24 (room_data_currentuser m)
       @ put_uint32 32 (room_data_maxuser m)"

definition ChatRoomData_ByteSizeLong :: "ChatRoomData \<Rightarrow> nat" where
  "ChatRoomData_ByteSizeLong m =
     size_string (room_data_roomname m)
     + size_uint32 (room_data_roomid m)
     + size_uint32 (room_data_currentuser m)
     + size_uint32 (room_data_maxuser m)"

definition ChatRoomData_switch ::
    "(byte list \<Rightarrow> bool) \<Rightarrow> uint32 \<Rightarrow> byte list \<Rightarrow> ChatRoomData \<Rightarrow> ChatRoomData field_result" where
  "ChatRoomData_switch utf8 tag r m =
     (if drop_bit 3 tag = 1 then
        if (ucast tag :: byte) = 8
        then field_of (ReadVarint32 r) (\<lambda>v. m\<lparr>room_data_roomid := v\<rparr>) else Unusual
      else if drop_bit 3 tag = 2 then
        if (ucast tag :: byte) = 18
        then field_of (ReadUtf8 utf8 r) (\<lambda>v. m\<lparr>room_data_roomname := v\<rparr>) else Unusual
      else if drop_bit 3 tag = 3 then
        if (ucast tag :: byte) = 24
        then field_of (ReadVarint32 r) (\<lambda>v. m\<lparr>room_data_currentuser := v\<rparr>) else Unusual
      else if drop_bit 3 tag = 4 then
        if (ucast tag :: byte) = 32
        then field_of (ReadVarint32 r) (\<lambda>v. m\<lparr>room_data_maxuser := v\<rparr>) else Unusual
      else Unusual)"

definition ChatRoomData_Parse :: "(byte list \<Rightarrow> bool) \<Rightarrow> byte list \<Rightarrow> ChatRoomData option" where
  "ChatRoomData_Parse utf8 bs = parse_loop 100 (ChatRoomData_switch utf8) bs ChatRoomData_new"

definition ChatRoomData_MergeFrom :: "ChatRoomData \<Rightarrow> ChatRoomData \<Rightarrow> ChatRoomData" where
  "ChatRoomData_MergeFrom this other =
     (let this = (if room_data_roomname other \<noteq> [] then this\<lparr>room_data_roomname := room_data_roomname other\<rparr> else this);
          this = (if room_data_roomid other \<noteq> 0 then this\<lparr>room_data_roomid := room_data_roomid other\<rparr> else this);
          this = (if room_data_currentuser other \<noteq> 0 then this\<lparr>room_data_currentuser := room_data_currentuser other\<rparr> else this);
          this = (if room_data_maxuser other \<noteq> 0 then this\<lparr>room_data_maxuser := room_data_maxuser other\<rparr> else this)
      in this)"

definition ChatRoomData_CopyFrom :: "ChatRoomData \<Rightarrow> ChatRoomData \<Rightarrow> ChatRoomData" where
  "ChatRoomData_CopyFrom this other = ChatRoomData_MergeFrom (ChatRoomData_Clear this) other"

definition ChatRoomData_ok :: "(byte list \<Rightarrow> bool) \<Rightarrow> ChatRoomData \<Rightarrow> bool" where
  "ChatRoomData_ok utf8 m \<longleftrightarrow>
     wire_string utf8 (room_data_roomname m)"

lemma ChatRoomData_loop:
  assumes "ChatRoomData_ok utf8 m"
  shows "parse_loop depth (ChatRoomData_switch utf8) (ChatRoomData_Serialize m @ rest) m0 =
    parse_loop depth (ChatRoomData_switch utf8) rest (ChatRoomData_MergeFrom m0 m)"
proof -
  let ?sw = "ChatRoomData_switch utf8"
  have s0: "parse_loop depth ?sw (put_uint32 8 (room_data_roomid m) @ r) m1 =
      parse_loop depth ?sw r (if room_data_roomid m \<noteq> 0 then m1\<lparr>room_data_roomid := room_data_roomid m\<rparr> else m1)" for r m1
    by (rule parse_put_uint32 [where f = "\<lambda>x. m1\<lparr>room_data_roomid := x\<rparr>"])
      (use assms in \<open>simp_all add: ChatRoomData_switch_def ChatRoomData_ok_def wire_string_def\<close>)
  have s1: "parse_loop depth ?sw (put_string 18 (room_data_roomname m) @ r) m1 =
      parse_loop depth ?sw r (if room_data_roomname m \<noteq> [] then m1\<lparr>room_data_roomname := room_data_roomname m\<rparr> else m1)" for r m1
    by (rule parse_put_string [where f = "\<lambda>x. m1\<lparr>room_data_roomname := x\<rparr>" and valid = utf8])
      (use assms in \<open>simp_all add: ChatRoomData_switch_def ChatRoomData_ok_def wire_string_def\<close>)
  have s2: "parse_loop depth ?sw (put_uint32 24 (room_data_currentuser m) @ r) m1 =
      parse_loop depth ?sw r (if room_data_currentuser m \<noteq> 0 then m1\<lparr>room_data_currentuser := room_data_currentuser m\<rparr> else m1)" for r m1
    by (rule parse_put_uint32 [where f = "\<lambda>x. m1\<lparr>room_data_currentuser := x\<rparr>"])
      (use assms in \<open>simp_all add: ChatRoomData_switch_def ChatRoomData_ok_def wire_string_def\<close>)
  have s3: "parse_loop depth ?sw (put_uint32 32 (room_data_maxuser m) @ r) m1 =
      parse_loop depth ?sw r (if room_data_maxuser m \<noteq> 0 then m1\<lparr>room_data_maxuser := room_data_maxuser m\<rparr> else m1)" for r m1
    by (rule parse_put_uint32 [where f = "\<lambda>x. m1\<lparr>room_data_maxuser := x\<rparr>"])
      (use assms in \<open>simp_all add: ChatRoomData_switch_def ChatRoomData_ok_def wire_string_def\<close>)
  show ?thesis
    by (cases m0) (simp add: ChatRoomData_Serialize_def ChatRoomData_MergeFrom_def Let_def s0 s1 s2 s3)
qed

lemma ChatRoomData_merge: "ChatRoomData_MergeFrom ChatRoomData_new m = m" "ChatRoomData_CopyFrom m0 m = m"
  by (cases m, simp add: ChatRoomData_MergeFrom_def ChatRoomData_new_def Let_def,
    cases m, cases m0, simp add: ChatRoomData_CopyFrom_def ChatRoomData_Clear_def ChatRoomData_MergeFrom_def Let_def)

interpretation room_data: message_codec ChatRoomData_Serialize ChatRoomData_ByteSizeLong "parse_loop 100 (ChatRoomData_switch utf8)"
    "ChatRoomData_Parse utf8" ChatRoomData_new ChatRoomData_MergeFrom "ChatRoomData_ok utf8"
  for utf8
  by unfold_locales
    (simp add: ChatRoomData_loop,
     simp_all add: ChatRoomData_Parse_def ChatRoomData_merge ChatRoomData_Serialize_def ChatRoomData_ByteSizeLong_def put_sizes length_put_repeated)

section \<open>\<^verbatim>\<open>ChatRoomListRes\<close>\<close>

record ChatRoomListRes =
  list_res_rooms :: "ChatRoomInfo list"

definition ChatRoomListRes_new :: ChatRoomListRes where
  "ChatRoomListRes_new = \<lparr>list_res_rooms = []\<rparr>"

definition ChatRoomListRes_Clear :: "ChatRoomListRes \<Rightarrow> ChatRoomListRes" where
  "ChatRoomListRes_Clear this = this\<lparr>list_res_rooms := []\<rparr>"

definition ChatRoomListRes_Serialize :: "ChatRoomListRes \<Rightarrow> byte list" where
  "ChatRoomListRes_Serialize m =
     concat (map (\<lambda>x. put_bytes 10 (ChatRoomInfo_Serialize x)) (list_res_rooms m))"

definition ChatRoomListRes_ByteSizeLong :: "ChatRoomListRes \<Rightarrow> nat" where
  "ChatRoomListRes_ByteSizeLong m =
     1 * length (list_res_rooms m)
     + sum_list (map (\<lambda>x. size_bytes (ChatRoomInfo_ByteSizeLong x)) (list_res_rooms m))"

text \<open>
  \<^verbatim>\<open>ParseMessage\<close> reads a size, restricts the input to that many bytes and parses a nested
  message there. The inner loop of the generated code, which goes on while the next tag is
  the same again, does what the outer loop does with that tag.
\<close>

definition ChatRoomListRes_switch ::
    "(byte list \<Rightarrow> bool) \<Rightarrow> nat \<Rightarrow> uint32 \<Rightarrow> byte list \<Rightarrow> ChatRoomListRes \<Rightarrow> ChatRoomListRes field_result" where
  "ChatRoomListRes_switch utf8 depth tag r m =
     (if drop_bit 3 tag = 1 then
        if (ucast tag :: byte) = 10
        then (case ReadString r of
                None \<Rightarrow> Failure
              | Some (s, rest) \<Rightarrow>
                  if depth = 0 then Failure
                  else case parse_loop (depth - 1) (ChatRoomInfo_switch utf8) s ChatRoomInfo_new of
                         None \<Rightarrow> Failure
                       | Some x \<Rightarrow> Field rest (m\<lparr>list_res_rooms := list_res_rooms m @ [x]\<rparr>))
        else Unusual
      else Unusual)"

definition ChatRoomListRes_Parse :: "(byte list \<Rightarrow> bool) \<Rightarrow> byte list \<Rightarrow> ChatRoomListRes option" where
  "ChatRoomListRes_Parse utf8 bs = parse_loop 100 (ChatRoomListRes_switch utf8 100) bs ChatRoomListRes_new"

definition ChatRoomListRes_MergeFrom :: "ChatRoomListRes \<Rightarrow> ChatRoomListRes \<Rightarrow> ChatRoomListRes" where
  "ChatRoomListRes_MergeFrom this other =
     (let this = this\<lparr>list_res_rooms := list_res_rooms this @ list_res_rooms other\<rparr>
      in this)"

definition ChatRoomListRes_CopyFrom :: "ChatRoomListRes \<Rightarrow> ChatRoomListRes \<Rightarrow> ChatRoomListRes" where
  "ChatRoomListRes_CopyFrom this other = ChatRoomListRes_MergeFrom (ChatRoomListRes_Clear this) other"

definition ChatRoomListRes_ok :: "(byte list \<Rightarrow> bool) \<Rightarrow> ChatRoomListRes \<Rightarrow> bool" where
  "ChatRoomListRes_ok utf8 m \<longleftrightarrow>
     (\<forall>x \<in> set (list_res_rooms m). ChatRoomInfo_ok utf8 x
        \<and> length (ChatRoomInfo_Serialize x) \<le> 2147483631)"

lemma ChatRoomListRes_loop:
  assumes "ChatRoomListRes_ok utf8 m"
  shows "parse_loop depth (ChatRoomListRes_switch utf8 (Suc d)) (ChatRoomListRes_Serialize m @ rest) m0 =
    parse_loop depth (ChatRoomListRes_switch utf8 (Suc d)) rest (ChatRoomListRes_MergeFrom m0 m)"
proof -
  let ?sw = "ChatRoomListRes_switch utf8 (Suc d)"
  have s0: "parse_loop depth ?sw (concat (map (\<lambda>x. put_bytes 10 (ChatRoomInfo_Serialize x)) (list_res_rooms m)) @ r) m1 =
      parse_loop depth ?sw r (m1\<lparr>list_res_rooms := list_res_rooms m1 @ list_res_rooms m\<rparr>)" for r m1
    by (rule parse_put_repeated [where get = list_res_rooms and upd = "\<lambda>v m. m\<lparr>list_res_rooms := v\<rparr>"])
      (use assms in \<open>auto simp: ChatRoomListRes_switch_def ChatRoomListRes_ok_def ReadString_write ChatRoomInfo_parse_nested\<close>)
  show ?thesis
    by (cases m0) (simp add: ChatRoomListRes_Serialize_def ChatRoomListRes_MergeFrom_def Let_def s0)
qed

lemma ChatRoomListRes_merge: "ChatRoomListRes_MergeFrom ChatRoomListRes_new m = m" "ChatRoomListRes_CopyFrom m0 m = m"
  by (cases m, simp add: ChatRoomListRes_MergeFrom_def ChatRoomListRes_new_def Let_def,
    cases m, cases m0, simp add: ChatRoomListRes_CopyFrom_def ChatRoomListRes_Clear_def ChatRoomListRes_MergeFrom_def Let_def)

interpretation list_res: message_codec ChatRoomListRes_Serialize ChatRoomListRes_ByteSizeLong "parse_loop 100 (ChatRoomListRes_switch utf8 100)"
    "ChatRoomListRes_Parse utf8" ChatRoomListRes_new ChatRoomListRes_MergeFrom "ChatRoomListRes_ok utf8"
  for utf8
  by unfold_locales
    (simp add: ChatRoomListRes_loop [where d = 99, simplified],
     simp_all add: ChatRoomListRes_Parse_def ChatRoomListRes_merge ChatRoomListRes_Serialize_def ChatRoomListRes_ByteSizeLong_def put_sizes length_put_repeated info.size_ser)

section \<open>\<^verbatim>\<open>ChatRoomRes\<close>\<close>

record ChatRoomRes =
  room_res_roomid :: uint32
  room_res_roomname :: "byte list"

definition ChatRoomRes_new :: ChatRoomRes where
  "ChatRoomRes_new = \<lparr>room_res_roomid = 0, room_res_roomname = []\<rparr>"

definition ChatRoomRes_Clear :: "ChatRoomRes \<Rightarrow> ChatRoomRes" where
  "ChatRoomRes_Clear this = this\<lparr>room_res_roomname := [], room_res_roomid := 0\<rparr>"

definition ChatRoomRes_Serialize :: "ChatRoomRes \<Rightarrow> byte list" where
  "ChatRoomRes_Serialize m =
     put_uint32 8 (room_res_roomid m)
       @ put_string 18 (room_res_roomname m)"

definition ChatRoomRes_ByteSizeLong :: "ChatRoomRes \<Rightarrow> nat" where
  "ChatRoomRes_ByteSizeLong m =
     size_string (room_res_roomname m)
     + size_uint32 (room_res_roomid m)"

definition ChatRoomRes_switch ::
    "(byte list \<Rightarrow> bool) \<Rightarrow> uint32 \<Rightarrow> byte list \<Rightarrow> ChatRoomRes \<Rightarrow> ChatRoomRes field_result" where
  "ChatRoomRes_switch utf8 tag r m =
     (if drop_bit 3 tag = 1 then
        if (ucast tag :: byte) = 8
        then field_of (ReadVarint32 r) (\<lambda>v. m\<lparr>room_res_roomid := v\<rparr>) else Unusual
      else if drop_bit 3 tag = 2 then
        if (ucast tag :: byte) = 18
        then field_of (ReadUtf8 utf8 r) (\<lambda>v. m\<lparr>room_res_roomname := v\<rparr>) else Unusual
      else Unusual)"

definition ChatRoomRes_Parse :: "(byte list \<Rightarrow> bool) \<Rightarrow> byte list \<Rightarrow> ChatRoomRes option" where
  "ChatRoomRes_Parse utf8 bs = parse_loop 100 (ChatRoomRes_switch utf8) bs ChatRoomRes_new"

definition ChatRoomRes_MergeFrom :: "ChatRoomRes \<Rightarrow> ChatRoomRes \<Rightarrow> ChatRoomRes" where
  "ChatRoomRes_MergeFrom this other =
     (let this = (if room_res_roomname other \<noteq> [] then this\<lparr>room_res_roomname := room_res_roomname other\<rparr> else this);
          this = (if room_res_roomid other \<noteq> 0 then this\<lparr>room_res_roomid := room_res_roomid other\<rparr> else this)
      in this)"

definition ChatRoomRes_CopyFrom :: "ChatRoomRes \<Rightarrow> ChatRoomRes \<Rightarrow> ChatRoomRes" where
  "ChatRoomRes_CopyFrom this other = ChatRoomRes_MergeFrom (ChatRoomRes_Clear this) other"

definition ChatRoomRes_ok :: "(byte list \<Rightarrow> bool) \<Rightarrow> ChatRoomRes \<Rightarrow> bool" where
  "ChatRoomRes_ok utf8 m \<longleftrightarrow>
     wire_string utf8 (room_res_roomname m)"

lemma ChatRoomRes_loop:
  assumes "ChatRoomRes_ok utf8 m"
  shows "parse_loop depth (ChatRoomRes_switch utf8) (ChatRoomRes_Serialize m @ rest) m0 =
    parse_loop depth (ChatRoomRes_switch utf8) rest (ChatRoomRes_MergeFrom m0 m)"
proof -
  let ?sw = "ChatRoomRes_switch utf8"
  have s0: "parse_loop depth ?sw (put_uint32 8 (room_res_roomid m) @ r) m1 =
      parse_loop depth ?sw r (if room_res_roomid m \<noteq> 0 then m1\<lparr>room_res_roomid := room_res_roomid m\<rparr> else m1)" for r m1
    by (rule parse_put_uint32 [where f = "\<lambda>x. m1\<lparr>room_res_roomid := x\<rparr>"])
      (use assms in \<open>simp_all add: ChatRoomRes_switch_def ChatRoomRes_ok_def wire_string_def\<close>)
  have s1: "parse_loop depth ?sw (put_string 18 (room_res_roomname m) @ r) m1 =
      parse_loop depth ?sw r (if room_res_roomname m \<noteq> [] then m1\<lparr>room_res_roomname := room_res_roomname m\<rparr> else m1)" for r m1
    by (rule parse_put_string [where f = "\<lambda>x. m1\<lparr>room_res_roomname := x\<rparr>" and valid = utf8])
      (use assms in \<open>simp_all add: ChatRoomRes_switch_def ChatRoomRes_ok_def wire_string_def\<close>)
  show ?thesis
    by (cases m0) (simp add: ChatRoomRes_Serialize_def ChatRoomRes_MergeFrom_def Let_def s0 s1)
qed

lemma ChatRoomRes_merge: "ChatRoomRes_MergeFrom ChatRoomRes_new m = m" "ChatRoomRes_CopyFrom m0 m = m"
  by (cases m, simp add: ChatRoomRes_MergeFrom_def ChatRoomRes_new_def Let_def,
    cases m, cases m0, simp add: ChatRoomRes_CopyFrom_def ChatRoomRes_Clear_def ChatRoomRes_MergeFrom_def Let_def)

interpretation room_res: message_codec ChatRoomRes_Serialize ChatRoomRes_ByteSizeLong "parse_loop 100 (ChatRoomRes_switch utf8)"
    "ChatRoomRes_Parse utf8" ChatRoomRes_new ChatRoomRes_MergeFrom "ChatRoomRes_ok utf8"
  for utf8
  by unfold_locales
    (simp add: ChatRoomRes_loop,
     simp_all add: ChatRoomRes_Parse_def ChatRoomRes_merge ChatRoomRes_Serialize_def ChatRoomRes_ByteSizeLong_def put_sizes length_put_repeated)

section \<open>\<^verbatim>\<open>UserListRes\<close>\<close>

record UserListRes =
  user_list_user :: "byte list list"

definition UserListRes_new :: UserListRes where
  "UserListRes_new = \<lparr>user_list_user = []\<rparr>"

definition UserListRes_Clear :: "UserListRes \<Rightarrow> UserListRes" where
  "UserListRes_Clear this = this\<lparr>user_list_user := []\<rparr>"

definition UserListRes_Serialize :: "UserListRes \<Rightarrow> byte list" where
  "UserListRes_Serialize m =
     concat (map (put_bytes 10) (user_list_user m))"

definition UserListRes_ByteSizeLong :: "UserListRes \<Rightarrow> nat" where
  "UserListRes_ByteSizeLong m =
     1 * length (user_list_user m) + sum_list (map (\<lambda>x. size_bytes (length x)) (user_list_user m))"

definition UserListRes_switch ::
    "(byte list \<Rightarrow> bool) \<Rightarrow> uint32 \<Rightarrow> byte list \<Rightarrow> UserListRes \<Rightarrow> UserListRes field_result" where
  "UserListRes_switch utf8 tag r m =
     (if drop_bit 3 tag = 1 then
        if (ucast tag :: byte) = 10
        then field_of (ReadUtf8 utf8 r) (\<lambda>v. m\<lparr>user_list_user := user_list_user m @ [v]\<rparr>) else Unusual
      else Unusual)"

definition UserListRes_Parse :: "(byte list \<Rightarrow> bool) \<Rightarrow> byte list \<Rightarrow> UserListRes option" where
  "UserListRes_Parse utf8 bs = parse_loop 100 (UserListRes_switch utf8) bs UserListRes_new"

definition UserListRes_MergeFrom :: "UserListRes \<Rightarrow> UserListRes \<Rightarrow> UserListRes" where
  "UserListRes_MergeFrom this other =
     (let this = this\<lparr>user_list_user := user_list_user this @ user_list_user other\<rparr>
      in this)"

definition UserListRes_CopyFrom :: "UserListRes \<Rightarrow> UserListRes \<Rightarrow> UserListRes" where
  "UserListRes_CopyFrom this other = UserListRes_MergeFrom (UserListRes_Clear this) other"

definition UserListRes_ok :: "(byte list \<Rightarrow> bool) \<Rightarrow> UserListRes \<Rightarrow> bool" where
  "UserListRes_ok utf8 m \<longleftrightarrow>
     (\<forall>x \<in> set (user_list_user m). utf8 x \<and> length x \<le> 2147483631)"

lemma UserListRes_loop:
  assumes "UserListRes_ok utf8 m"
  shows "parse_loop depth (UserListRes_switch utf8) (UserListRes_Serialize m @ rest) m0 =
    parse_loop depth (UserListRes_switch utf8) rest (UserListRes_MergeFrom m0 m)"
proof -
  let ?sw = "UserListRes_switch utf8"
  have s0: "parse_loop depth ?sw (concat (map (put_bytes 10) (user_list_user m)) @ r) m1 =
      parse_loop depth ?sw r (m1\<lparr>user_list_user := user_list_user m1 @ user_list_user m\<rparr>)" for r m1
    by (rule parse_put_repeated [where get = user_list_user and upd = "\<lambda>v m. m\<lparr>user_list_user := v\<rparr>"])
      (use assms in \<open>auto simp: UserListRes_switch_def UserListRes_ok_def ReadUtf8_def ReadString_write field_of_def\<close>)
  show ?thesis
    by (cases m0) (simp add: UserListRes_Serialize_def UserListRes_MergeFrom_def Let_def s0)
qed

lemma UserListRes_merge: "UserListRes_MergeFrom UserListRes_new m = m" "UserListRes_CopyFrom m0 m = m"
  by (cases m, simp add: UserListRes_MergeFrom_def UserListRes_new_def Let_def,
    cases m, cases m0, simp add: UserListRes_CopyFrom_def UserListRes_Clear_def UserListRes_MergeFrom_def Let_def)

interpretation user_list: message_codec UserListRes_Serialize UserListRes_ByteSizeLong "parse_loop 100 (UserListRes_switch utf8)"
    "UserListRes_Parse utf8" UserListRes_new UserListRes_MergeFrom "UserListRes_ok utf8"
  for utf8
  by unfold_locales
    (simp add: UserListRes_loop,
     simp_all add: UserListRes_Parse_def UserListRes_merge UserListRes_Serialize_def UserListRes_ByteSizeLong_def put_sizes length_put_repeated)

section \<open>\<^verbatim>\<open>ChatMessageRes\<close>\<close>

record ChatMessageRes =
  message_res_sender :: "byte list"
  message_res_message :: "byte list"

definition ChatMessageRes_new :: ChatMessageRes where
  "ChatMessageRes_new = \<lparr>message_res_sender = [], message_res_message = []\<rparr>"

definition ChatMessageRes_Clear :: "ChatMessageRes \<Rightarrow> ChatMessageRes" where
  "ChatMessageRes_Clear this = this\<lparr>message_res_sender := [], message_res_message := []\<rparr>"

definition ChatMessageRes_Serialize :: "ChatMessageRes \<Rightarrow> byte list" where
  "ChatMessageRes_Serialize m =
     put_string 10 (message_res_sender m)
       @ put_string 18 (message_res_message m)"

definition ChatMessageRes_ByteSizeLong :: "ChatMessageRes \<Rightarrow> nat" where
  "ChatMessageRes_ByteSizeLong m =
     size_string (message_res_sender m)
     + size_string (message_res_message m)"

definition ChatMessageRes_switch ::
    "(byte list \<Rightarrow> bool) \<Rightarrow> uint32 \<Rightarrow> byte list \<Rightarrow> ChatMessageRes \<Rightarrow> ChatMessageRes field_result" where
  "ChatMessageRes_switch utf8 tag r m =
     (if drop_bit 3 tag = 1 then
        if (ucast tag :: byte) = 10
        then field_of (ReadUtf8 utf8 r) (\<lambda>v. m\<lparr>message_res_sender := v\<rparr>) else Unusual
      else if drop_bit 3 tag = 2 then
        if (ucast tag :: byte) = 18
        then field_of (ReadUtf8 utf8 r) (\<lambda>v. m\<lparr>message_res_message := v\<rparr>) else Unusual
      else Unusual)"

definition ChatMessageRes_Parse :: "(byte list \<Rightarrow> bool) \<Rightarrow> byte list \<Rightarrow> ChatMessageRes option" where
  "ChatMessageRes_Parse utf8 bs = parse_loop 100 (ChatMessageRes_switch utf8) bs ChatMessageRes_new"

definition ChatMessageRes_MergeFrom :: "ChatMessageRes \<Rightarrow> ChatMessageRes \<Rightarrow> ChatMessageRes" where
  "ChatMessageRes_MergeFrom this other =
     (let this = (if message_res_sender other \<noteq> [] then this\<lparr>message_res_sender := message_res_sender other\<rparr> else this);
          this = (if message_res_message other \<noteq> [] then this\<lparr>message_res_message := message_res_message other\<rparr> else this)
      in this)"

definition ChatMessageRes_CopyFrom :: "ChatMessageRes \<Rightarrow> ChatMessageRes \<Rightarrow> ChatMessageRes" where
  "ChatMessageRes_CopyFrom this other = ChatMessageRes_MergeFrom (ChatMessageRes_Clear this) other"

definition ChatMessageRes_ok :: "(byte list \<Rightarrow> bool) \<Rightarrow> ChatMessageRes \<Rightarrow> bool" where
  "ChatMessageRes_ok utf8 m \<longleftrightarrow>
     wire_string utf8 (message_res_sender m)
     \<and> wire_string utf8 (message_res_message m)"

lemma ChatMessageRes_loop:
  assumes "ChatMessageRes_ok utf8 m"
  shows "parse_loop depth (ChatMessageRes_switch utf8) (ChatMessageRes_Serialize m @ rest) m0 =
    parse_loop depth (ChatMessageRes_switch utf8) rest (ChatMessageRes_MergeFrom m0 m)"
proof -
  let ?sw = "ChatMessageRes_switch utf8"
  have s0: "parse_loop depth ?sw (put_string 10 (message_res_sender m) @ r) m1 =
      parse_loop depth ?sw r (if message_res_sender m \<noteq> [] then m1\<lparr>message_res_sender := message_res_sender m\<rparr> else m1)" for r m1
    by (rule parse_put_string [where f = "\<lambda>x. m1\<lparr>message_res_sender := x\<rparr>" and valid = utf8])
      (use assms in \<open>simp_all add: ChatMessageRes_switch_def ChatMessageRes_ok_def wire_string_def\<close>)
  have s1: "parse_loop depth ?sw (put_string 18 (message_res_message m) @ r) m1 =
      parse_loop depth ?sw r (if message_res_message m \<noteq> [] then m1\<lparr>message_res_message := message_res_message m\<rparr> else m1)" for r m1
    by (rule parse_put_string [where f = "\<lambda>x. m1\<lparr>message_res_message := x\<rparr>" and valid = utf8])
      (use assms in \<open>simp_all add: ChatMessageRes_switch_def ChatMessageRes_ok_def wire_string_def\<close>)
  show ?thesis
    by (cases m0) (simp add: ChatMessageRes_Serialize_def ChatMessageRes_MergeFrom_def Let_def s0 s1)
qed

lemma ChatMessageRes_merge: "ChatMessageRes_MergeFrom ChatMessageRes_new m = m" "ChatMessageRes_CopyFrom m0 m = m"
  by (cases m, simp add: ChatMessageRes_MergeFrom_def ChatMessageRes_new_def Let_def,
    cases m, cases m0, simp add: ChatMessageRes_CopyFrom_def ChatMessageRes_Clear_def ChatMessageRes_MergeFrom_def Let_def)

interpretation message_res: message_codec ChatMessageRes_Serialize ChatMessageRes_ByteSizeLong "parse_loop 100 (ChatMessageRes_switch utf8)"
    "ChatMessageRes_Parse utf8" ChatMessageRes_new ChatMessageRes_MergeFrom "ChatMessageRes_ok utf8"
  for utf8
  by unfold_locales
    (simp add: ChatMessageRes_loop,
     simp_all add: ChatMessageRes_Parse_def ChatMessageRes_merge ChatMessageRes_Serialize_def ChatMessageRes_ByteSizeLong_def put_sizes length_put_repeated)

section \<open>Properties\<close>



end
