(* ===== verification/Client_Session.thy ===== *)
theory Client_Session
  imports Session_Hooks Packet_Handler Proto_Structs
begin

text \<open>
  \<^verbatim>\<open>Client/ClientSession\<close> and \<^verbatim>\<open>Client/ClientManager\<close>: the session class of the client, the
  manager of its sessions with the stress test, and the state of the client process. The class
  adds no data to \<^verbatim>\<open>AsioSession\<close>.
\<close>

section \<open>State\<close>

datatype RunningState =
  RunningState_None | RunningState_Connect | RunningState_Disconnect | RunningState_Reconnect
| RunningState_Send | RunningState_Recv

text \<open>
  Window messages that carry data or are sent by the program; the heap object behind \<^verbatim>\<open>lParam\<close>
  is owned by the message, so it is part of it. A message is posted to one of three windows,
  whose handles are static members of \<^verbatim>\<open>ClientSession\<close>: main, lobby and chat.
\<close>

record LoginResponseData =
  lrd_result :: int
  lrd_userId :: "byte list"
  lrd_message :: "byte list"

datatype ui_message =
  WM_CLIENT_CONNECTED
| WM_CLIENT_DISCONNECT
| WM_CLIENT_RECV ChatMessageRes
| WM_CLIENT_CHATROOM_LIST ChatRoomListRes
| WM_CLIENT_CHATROOM_ENTER ChatRoomRes
| WM_LOGIN_SUCCESS LoginResponseData
| WM_ENTER_CHATROOM ChatRoomRes

datatype window = MainWin | LobbyWin | ChatWin

text \<open>
  The process: the ServerCore singletons, the next address that \<^verbatim>\<open>new\<close> yields, the
  \<^verbatim>\<open>ClientManager\<close>, the globals \<^verbatim>\<open>threadCnt\<close> and \<^verbatim>\<open>maxSessionCnt\<close>, which windows exist, and the
  messages that were posted to them and not yet handled, oldest first.
\<close>

record Client = "unit Core" +
  cl_next :: nat
  cm_RunningState :: RunningState
  cm_Sessions :: "(int \<times> session_ptr) list"
  cm_SessionSeqNum :: "(int \<times> int) list"
  cm_Service :: bool
  cm_run :: bool
  cm_IsStressTest :: bool
  cl_threadCnt :: int
  cl_maxSessionCnt :: int
  cl_windows :: "window set"
  cl_posts :: "(window \<times> ui_message) list"

lemma upd_sess_client [simp]:
  "cl_next (upd_sess s f c) = cl_next c" "cm_RunningState (upd_sess s f c) = cm_RunningState c"
  "cm_Sessions (upd_sess s f c) = cm_Sessions c" "cm_SessionSeqNum (upd_sess s f c) = cm_SessionSeqNum c"
  "cm_Service (upd_sess s f c) = cm_Service c" "cm_run (upd_sess s f c) = cm_run c"
  "cm_IsStressTest (upd_sess s f c) = cm_IsStressTest c" "cl_threadCnt (upd_sess s f c) = cl_threadCnt c"
  "cl_maxSessionCnt (upd_sess s f c) = cl_maxSessionCnt c" "cl_windows (upd_sess s f c) = cl_windows c"
  "cl_posts (upd_sess s f c) = cl_posts c"
  by (simp_all add: upd_sess_def)

text \<open>
  \<^verbatim>\<open>PostMessage\<close>. With a null handle the message goes to the queue of the calling thread and
  to no window: nothing handles it.
\<close>

definition PostMessage :: "window \<Rightarrow> ui_message \<Rightarrow> 'z Client_scheme \<Rightarrow> 'z Client_scheme" where
  "PostMessage w msg c = (if w \<in> cl_windows c then c\<lparr>cl_posts := cl_posts c @ [(w, msg)]\<rparr> else c)"

section \<open>\<^verbatim>\<open>ClientManager::Init\<close>\<close>

text \<open>\<^verbatim>\<open>sessionSize\<close> and the product are \<^verbatim>\<open>int32\<close>.\<close>

definition ClientManager_Init :: "int \<Rightarrow> session_ptr \<Rightarrow> 'z Client_scheme \<Rightarrow> 'z Client_scheme" where
  "ClientManager_Init sessionUid session c =
     (let c1 = (if map_of (cm_Sessions c) sessionUid = None
                then c\<lparr>cm_Sessions := omap_put sessionUid session (cm_Sessions c)\<rparr> else c);
          c2 = c1\<lparr>cm_Service := True, cm_RunningState := RunningState_Connect\<rparr>;
          sessionSize = i32 (int (length (cm_Sessions c2)))
      in if cm_IsStressTest c2 \<and> sessionSize = i32 (cl_threadCnt c2 * cl_maxSessionCnt c2)
         then c2\<lparr>cm_run := True\<rparr> else c2)"

section \<open>\<^verbatim>\<open>ClientSession\<close>\<close>

definition ClientSession_new_with :: "int \<Rightarrow> bool option \<Rightarrow> uint32 \<Rightarrow> AsioSession res" where
  "ClientSession_new_with uid socket seq = AsioSession_new_with uid socket seq"

definition ClientSession_OnSend :: "session_ptr \<Rightarrow> int \<Rightarrow> 'z Client_scheme \<Rightarrow> 'z Client_scheme" where
  "ClientSession_OnSend s len c = c"

definition ClientSession_OnRecv :: "session_ptr \<Rightarrow> int \<Rightarrow> 'z Client_scheme \<Rightarrow> int \<times> 'z Client_scheme" where
  "ClientSession_OnRecv s len c = (0, c)"

definition ClientSession_OnConnected :: "session_ptr \<Rightarrow> 'z Client_scheme \<Rightarrow> 'z Client_scheme res" where
  "ClientSession_OnConnected s c =
     bindR (sess c s) (\<lambda>_.
     let c1 = c\<lparr>c_manager := SessionManager_AddSession (uid_of c) (Some s) (c_manager c)\<rparr>;
         sessionUID = uid_of c1 s;
         c2 = upd_sess s (\<lambda>y. y\<lparr>m_IsRunning := True\<rparr>) c1;
         c3 = ClientManager_Init sessionUID s c2
     in Inr (PostMessage MainWin WM_CLIENT_CONNECTED c3))"

definition ClientSession_OnDisconnected :: "session_ptr \<Rightarrow> 'z Client_scheme \<Rightarrow> 'z Client_scheme res" where
  "ClientSession_OnDisconnected s c =
     bindR (sess c s) (\<lambda>_.
     let c1 = c\<lparr>c_manager := SessionManager_RemoveSession (uid_of c) (Some s) (c_manager c),
               c_analyzer := ResetSendCount (c_analyzer c)\<rparr>
     in Inr (upd_sess s (\<lambda>y. y\<lparr>m_IsRunning := False\<rparr>) c1))"

interpretation client_hook: session_hook "ClientSession_OnDisconnected :: session_ptr \<Rightarrow> 'z Client_scheme \<Rightarrow> 'z Client_scheme res"
proof
  fix c :: "'z Client_scheme" and s x
  assume x: "c_heap c s = Some x"
  then show "\<exists>c1 r. ClientSession_OnDisconnected s c = Inr c1 \<and> c_service c1 = c_service c \<and> c_tasks c1 = c_tasks c
      \<and> c_manager c1 = (c_manager c)(m_SessionUID x := None) \<and> c_heap c1 = (c_heap c)(s \<mapsto> x\<lparr>m_IsRunning := r\<rparr>)"
    by (auto simp: ClientSession_OnDisconnected_def SessionManager_RemoveSession_def uid_of_def Let_def upd_sess_def
        intro!: exI [of _ False])
qed

text \<open>The session maker of \<^verbatim>\<open>WinMain\<close>: a new session on the socket of the service, which is open or not.\<close>

definition client_maker :: "int \<Rightarrow> bool option \<Rightarrow> uint32 \<Rightarrow> 'z Client_scheme \<Rightarrow> (session_ptr \<times> 'z Client_scheme) res" where
  "client_maker uid socket seq c =
     bindR (ClientSession_new_with uid socket seq) (\<lambda>x.
     let s = SessionPtr (cl_next c)
     in Inr (s, c\<lparr>c_heap := (c_heap c)(s \<mapsto> x), cl_next := Suc (cl_next c)\<rparr>))"

section \<open>\<^verbatim>\<open>ClientManager\<close>\<close>

fun stop_sessions :: "(int \<times> session_ptr) list \<Rightarrow> 'z Client_scheme \<Rightarrow> 'z Client_scheme res" where
  "stop_sessions [] c = Inr c"
| "stop_sessions ((uid, s) # rest) c =
     bindR (AsioSession_Disconnect ClientSession_OnDisconnected False s c) (\<lambda>c1.
     let c2 = upd_sess s AsioSession_Reset c1
     in stop_sessions rest (c2\<lparr>cm_SessionSeqNum := omap_erase uid (cm_SessionSeqNum c2)\<rparr>))"

definition ClientManager_StopClient :: "'z Client_scheme \<Rightarrow> 'z Client_scheme res" where
  "ClientManager_StopClient c =
     bindR (stop_sessions (cm_Sessions c) c) (\<lambda>c1. Inr (c1\<lparr>cm_Sessions := []\<rparr>))"

text \<open>The message of the stress test.\<close>

definition ascii_bytes :: "string \<Rightarrow> byte list" where
  "ascii_bytes = map of_char"

definition stress_message :: "byte list" where
  "stress_message = ascii_bytes
     ''In multithreaded programming, it is crucial to use mutexes and condition variables''"

definition send_message ::
    "byte \<times> byte \<Rightarrow> packet_type \<Rightarrow> nat \<Rightarrow> byte list \<Rightarrow> session_ptr \<Rightarrow> 'z Client_scheme \<Rightarrow> 'z Client_scheme res" where
  "send_message pad ty byteSize bytes s c =
     bindR (MakePacket pad byteSize bytes (type_code ty) (c_pool c)) (\<lambda>(packet, pool).
     AsioSession_Send s packet (c\<lparr>c_pool := pool\<rparr>))"

fun send_stress :: "byte \<times> byte \<Rightarrow> (int \<times> session_ptr) list \<Rightarrow> 'z Client_scheme \<Rightarrow> 'z Client_scheme res" where
  "send_stress pad [] c = Inr c"
| "send_stress pad ((sessionId, s) # rest) c =
     (let packet = \<lparr>dummy_req_message = stress_message\<rparr>
      in bindR (send_message pad DummyPacketReq_t (DummyPacketReq_ByteSizeLong packet)
                  (DummyPacketReq_Serialize packet) s c) (send_stress pad rest))"

text \<open>
  One round of the loop of \<^verbatim>\<open>DummyClientProcess\<close>, behind the wait for \<^verbatim>\<open>run\<close>: the answer says
  whether there was one. \<open>maker\<close> and \<open>resolves\<close> belong to the service that is started again.
  \<^verbatim>\<open>m_Mutex\<close> is held in \<^verbatim>\<open>StopClient\<close> and in \<^verbatim>\<open>Start\<close>; neither takes it.
\<close>

definition ClientManager_DummyClientProcess ::
    "byte \<times> byte \<Rightarrow> ('z Client_scheme \<Rightarrow> (session_ptr \<times> 'z Client_scheme) res) \<Rightarrow> (nat \<Rightarrow> bool) \<Rightarrow> 'z Client_scheme
       \<Rightarrow> (bool \<times> 'z Client_scheme) res" where
  "ClientManager_DummyClientProcess pad maker resolves c =
     (if \<not> cm_run c then Inr (False, c)
      else case cm_RunningState c of
             RunningState_Connect \<Rightarrow>
               Inr (True, c\<lparr>cm_SessionSeqNum := fold (\<lambda>(uid, s). omap_put uid 0) (cm_Sessions c) (cm_SessionSeqNum c),
                            cm_RunningState := RunningState_Send\<rparr>)
           | RunningState_Send \<Rightarrow>
               bindR (send_stress pad (cm_Sessions c) c) (\<lambda>c1. Inr (True, c1\<lparr>cm_run := False\<rparr>))
           | RunningState_Disconnect \<Rightarrow>
               bindR (ClientManager_StopClient c) (\<lambda>c1.
               Inr (True, c1\<lparr>cm_RunningState := RunningState_Reconnect, cm_run := False\<rparr>))
           | RunningState_Reconnect \<Rightarrow>
               if \<not> cm_Service c then Inl NullDeref
               else bindR (AsioClientService_Start maker resolves c) (\<lambda>(_, c1).
                    Inr (True, c1\<lparr>cm_RunningState := RunningState_Connect\<rparr>))
           | _ \<Rightarrow> Inr (True, c))"

end
