(* ===== verification/Packet_Worker.thy ===== *)
theory Packet_Worker
  imports Server_Core Packet_Handler
begin

text \<open>
  The way of a packet from a worker's queue to its handler, which the server and the client
  share: the table that \<^verbatim>\<open>PacketHandler::Init\<close> fills is an argument.
\<close>

type_synonym 'g packet_handler = "session_ptr option \<Rightarrow> byte list \<Rightarrow> int \<Rightarrow> 'g \<Rightarrow> 'g answer"

definition HandlePacket_by :: "(uint16 \<Rightarrow> 'g packet_handler option) \<Rightarrow> 'g packet_handler" where
  "HandlePacket_by table session buffer len g =
     bindR (packet_type_of buffer) (\<lambda>ty.
     bindR (call_table table ty) (\<lambda>h. h session buffer len g))"

text \<open>
  One round of \<^verbatim>\<open>PacketProcessor::Run\<close> with the override of \<^verbatim>\<open>HandlePacket\<close>. A packet of a
  session that is not registered any more is dropped. Nothing catches what a handler
  throws: a fault ends the process.
\<close>

definition memory_at :: "('s, 'z) Core_scheme \<Rightarrow> buf_ptr \<Rightarrow> byte list" where
  "memory_at c ptr =
     (case c_buffers c (fst ptr) of None \<Rightarrow> [] | Some b \<Rightarrow> drop (nat (snd ptr)) (m_Buffer b))"

definition PacketWorker_round ::
    "('s, 'z) Core_scheme packet_handler \<Rightarrow> PacketProcessor \<Rightarrow> ('s, 'z) Core_scheme \<Rightarrow> (run_round \<times> ('s, 'z) Core_scheme) res" where
  "PacketWorker_round handlePacket proc c =
     bindR (PacketProcessor_Run proc (c_router c)) (\<lambda>(out, r).
     let c1 = c\<lparr>c_router := r\<rparr>
     in case out of
          Run_item item \<Rightarrow>
            (case SessionManager_GetSession (item_sessionId item) (c_manager c1) of
               None \<Rightarrow> Inr (out, c1)
             | Some s \<Rightarrow>
                 bindR (handlePacket (Some s) (memory_at c1 (item_buffer item)) (item_len item) c1)
                   (\<lambda>(_, c2). Inr (out, c2)))
        | _ \<Rightarrow> Inr (out, c1))"

text \<open>A worker that takes an item whose memory still holds the packet runs the handler on it.\<close>

lemma worker_runs:
  assumes "PacketProcessor_Run proc (c_router c) = Inr (Run_item item, r)"
    and "c_manager c (item_sessionId item) = Some s"
    and "h (Some s) (memory_at c (item_buffer item)) (item_len item) (c\<lparr>c_router := r\<rparr>) = Inr (a, c')"
  shows "PacketWorker_round h proc c = Inr (Run_item item, c')"
  using assms by (simp add: PacketWorker_round_def SessionManager_GetSession_def memory_at_def Let_def)

lemma worker_dies:
  assumes "PacketProcessor_Run proc (c_router c) = Inr (Run_item item, r)"
    and "c_manager c (item_sessionId item) = Some s"
    and "h (Some s) (memory_at c (item_buffer item)) (item_len item) (c\<lparr>c_router := r\<rparr>) = Inl e"
  shows "PacketWorker_round h proc c = Inl e"
  using assms by (simp add: PacketWorker_round_def SessionManager_GetSession_def memory_at_def Let_def)

text \<open>The dispatch of a well-formed packet.\<close>

lemma dispatch_made:
  assumes "table ty = Some (\<lambda>s. HandlePacket_parse parse (func s))" "ty \<noteq> 65535"
    and "parse body = Some m"
  shows "HandlePacket_by table s (packet_bytes pad ty body @ rest) (int (12 + length body)) g = func s m g"
proof -
  have "HandlePacket_parse parse (func s) (packet_bytes pad ty body @ rest) (int (12 + length body)) g = func s m g"
    using assms(3) by (simp add: HandlePacket_parse_def packet_bytes_def)
  then show ?thesis using assms(1,2) by (simp add: HandlePacket_by_def call_table_def)
qed

text \<open>A packet of a type that has no handler.\<close>

lemma unhandled_type:
  assumes "packet_type_of buffer = Inr ty" "table ty = None"
  shows "HandlePacket_by table s buffer len g = Inl (if ty = 65535 then OutOfBounds else BadFunctionCall)"
  using assms by (simp add: HandlePacket_by_def call_table_def)

section \<open>Sending\<close>

definition can_send :: "('s, 'z) Core_scheme \<Rightarrow> session_ptr \<Rightarrow> bool" where
  "can_send g s \<longleftrightarrow> (\<exists>x. c_heap g s = Some x \<and> m_Socket x \<noteq> None)"

definition made_packet :: "byte \<times> byte \<Rightarrow> packet_type \<Rightarrow> byte list \<Rightarrow> Packet" where
  "made_packet pad ty bytes =
     \<lparr>m_Data = OwnBuffer, m_Size = of_nat (12 + length bytes), m_PacketType = ucast (type_code ty),
      m_OwnBuffer = Some (packet_bytes pad (type_code ty) bytes)\<rparr>"

lemma move_assign_all [simp]: "fst (Packet_move_assign a b) = b"
  by (cases a; cases b) (simp add: Packet_move_assign_def)

lemma Send_ok:
  assumes "can_send g s"
  shows "AsioSession_Send s p g =
    Inr (g\<lparr>c_pool := snd (PacketPool_Pop (c_pool g)), c_writes := c_writes g @ [(s, p)]\<rparr>)"
  using assms by (auto simp: AsioSession_Send_def can_send_def Let_def split_beta)

lemma can_send_core [simp]:
  "can_send (g\<lparr>c_pool := p\<rparr>) s = can_send g s" "can_send (g\<lparr>c_writes := w\<rparr>) s = can_send g s"
  "can_send (g\<lparr>c_router := r\<rparr>) s = can_send g s" "can_send (g\<lparr>c_buffers := bs\<rparr>) s = can_send g s"
  by (simp_all add: can_send_def)

lemma made_packet_wf: "length bytes \<le> 65523 \<Longrightarrow> packet_wf (made_packet pad ty bytes)"
  and made_packet_valid: "length bytes \<le> 65523 \<Longrightarrow> Packet_IsValid (made_packet pad ty bytes)"
  and made_packet_view: "length bytes \<le> 65523 \<Longrightarrow>
    Packet_view (made_packet pad ty bytes) = packet_bytes pad (type_code ty) bytes"
proof -
  assume n: "length bytes \<le> 65523"
  then have u: "unat (of_nat (12 + length bytes) :: uint32) = 12 + length bytes"
    using unat_u32_of_nat [of "12 + length bytes"] by simp
  then show "packet_wf (made_packet pad ty bytes)"
    "Packet_view (made_packet pad ty bytes) = packet_bytes pad (type_code ty) bytes"
    by (simp_all add: packet_wf_def made_packet_def Packet_view_def Packet_bytes_def del: of_nat_add)
  have "(of_nat (12 + length bytes) :: uint32) \<noteq> 0"
  proof
    assume "(of_nat (12 + length bytes) :: uint32) = 0"
    then have "unat (of_nat (12 + length bytes) :: uint32) = 0" by (simp only: unat_0)
    with u show False by simp
  qed
  then show "Packet_IsValid (made_packet pad ty bytes)"
    by (simp add: made_packet_def Packet_IsValid_def word_gt_0 del: of_nat_add)
qed

text \<open>Copying a packet that \<^verbatim>\<open>MakePacket\<close> made yields an equal packet with its own array.\<close>

lemma copy_made_packet:
  assumes "length bytes \<le> 65523"
  shows "Packet_copy (made_packet pad ty bytes) = Inr (made_packet pad ty bytes)"
proof -
  obtain bs where "Packet_bytes (made_packet pad ty bytes) = Some bs"
    "Packet_copy (made_packet pad ty bytes) = Inr \<lparr>m_Data = OwnBuffer,
       m_Size = m_Size (made_packet pad ty bytes), m_PacketType = m_PacketType (made_packet pad ty bytes),
       m_OwnBuffer = Some bs\<rparr>"
    by (rule Packet_copy_wf [OF made_packet_wf [OF assms] made_packet_valid [OF assms]])
  then show ?thesis by (simp add: made_packet_def Packet_bytes_def)
qed

end
