(* ===== verification/Client_Handlers.thy ===== *)
theory Client_Handlers
  imports Client_Session Packet_Worker
begin

text \<open>
  \<^verbatim>\<open>Client/ServerPacketHandler\<close>: what the client does with each answer of the server. The
  handlers run on the packet workers; what they want to show they post to a window. As on the
  server, a handler that ends without \<^verbatim>\<open>return\<close> answers \<open>None\<close>.
\<close>

type_synonym wide = "uint16 list"

text \<open>
  What is outside the program: the UTF-8 check of the protobuf runtime, the padding of a
  header, and the Win32 conversions between UTF-8 and wide strings.
\<close>

record ClientEnv =
  ce_utf8 :: "byte list \<Rightarrow> bool"
  ce_pad :: "byte \<times> byte"
  ce_narrow :: "wide \<Rightarrow> byte list"
  ce_widen :: "byte list \<Rightarrow> wide"

definition HandleEnterChatRoomAck :: "session_ptr option \<Rightarrow> EnterChatRoomAck \<Rightarrow> 'z Client_scheme \<Rightarrow> 'z Client_scheme answer" where
  "HandleEnterChatRoomAck session pkt c =
     (case session of
        None \<Rightarrow> Inr (Some False, c)
      | Some s \<Rightarrow>
          let data = \<lparr>room_res_roomid = enter_ack_roomid pkt, room_res_roomname = enter_ack_roomname pkt\<rparr>
          in Inr (None, PostMessage LobbyWin (WM_CLIENT_CHATROOM_ENTER data) c))"

text \<open>\<^verbatim>\<open>success\<close> is not looked at: every answer to a login counts as a success.\<close>

definition HandleLoginAck :: "session_ptr option \<Rightarrow> LoginAck \<Rightarrow> 'z Client_scheme \<Rightarrow> 'z Client_scheme answer" where
  "HandleLoginAck session pkt c =
     (case session of
        None \<Rightarrow> Inr (Some False, c)
      | Some s \<Rightarrow>
          let loginData = \<lparr>lrd_result = 0, lrd_userId = login_ack_userid pkt, lrd_message = ascii_bytes ''Login Success!''\<rparr>
          in Inr (None, PostMessage MainWin (WM_LOGIN_SUCCESS loginData) c))"

fun copy_rooms :: "ChatRoomInfo list \<Rightarrow> ChatRoomListRes \<Rightarrow> ChatRoomListRes" where
  "copy_rooms [] dat = dat"
| "copy_rooms (roomInfo # rest) dat =
     copy_rooms rest (dat\<lparr>list_res_rooms := list_res_rooms dat @ [ChatRoomInfo_CopyFrom ChatRoomInfo_new roomInfo]\<rparr>)"

definition HandleChatRoomListAck :: "session_ptr option \<Rightarrow> ChatRoomListAck \<Rightarrow> 'z Client_scheme \<Rightarrow> 'z Client_scheme answer" where
  "HandleChatRoomListAck session pkt c =
     (case session of
        None \<Rightarrow> Inr (Some False, c)
      | Some s \<Rightarrow>
          let data = copy_rooms (list_ack_chatroominfo pkt) ChatRoomListRes_new
          in Inr (None, PostMessage LobbyWin (WM_CLIENT_CHATROOM_LIST data) c))"

definition HandleCreateChatRoomAck :: "session_ptr option \<Rightarrow> CreateChatRoomAck \<Rightarrow> 'z Client_scheme \<Rightarrow> 'z Client_scheme answer" where
  "HandleCreateChatRoomAck session pkt c = Inr (Some True, c)"

definition HandleRefreshChatRoomAck :: "session_ptr option \<Rightarrow> RefreshChatRoomAck \<Rightarrow> 'z Client_scheme \<Rightarrow> 'z Client_scheme answer" where
  "HandleRefreshChatRoomAck session pkt c = Inr (Some True, c)"

definition HandleChatAck :: "session_ptr option \<Rightarrow> ChatAck \<Rightarrow> 'z Client_scheme \<Rightarrow> 'z Client_scheme answer" where
  "HandleChatAck session pkt c =
     (case session of
        None \<Rightarrow> Inr (Some False, c)
      | Some s \<Rightarrow>
          let data = \<lparr>message_res_sender = chat_ack_sender pkt, message_res_message = chat_ack_message pkt\<rparr>
          in Inr (None, PostMessage ChatWin (WM_CLIENT_RECV data) c))"

text \<open>Only logs the message.\<close>

definition HandleDummyPacketAck :: "session_ptr option \<Rightarrow> DummyPacketAck \<Rightarrow> 'z Client_scheme \<Rightarrow> 'z Client_scheme answer" where
  "HandleDummyPacketAck session pkt c = Inr (Some False, c)"

text \<open>The table after \<^verbatim>\<open>PacketHandler::Init\<close> of the client: the answers have a handler.\<close>

definition Client_GPacketHadler :: "('e ClientEnv_scheme) \<Rightarrow> uint16 \<Rightarrow> 'z Client_scheme packet_handler option" where
  "Client_GPacketHadler env ty =
     (if ty = type_code EnterChatRoomAck_t then
        Some (\<lambda>s. HandlePacket_parse (EnterChatRoomAck_Parse (ce_utf8 env)) (HandleEnterChatRoomAck s))
      else if ty = type_code LoginAck_t then
        Some (\<lambda>s. HandlePacket_parse (LoginAck_Parse (ce_utf8 env)) (HandleLoginAck s))
      else if ty = type_code ChatRoomListAck_t then
        Some (\<lambda>s. HandlePacket_parse (ChatRoomListAck_Parse (ce_utf8 env)) (HandleChatRoomListAck s))
      else if ty = type_code CreateChatRoomAck_t then
        Some (\<lambda>s. HandlePacket_parse CreateChatRoomAck_Parse (HandleCreateChatRoomAck s))
      else if ty = type_code RefreshChatRoomAck_t then
        Some (\<lambda>s. HandlePacket_parse RefreshChatRoomAck_Parse (HandleRefreshChatRoomAck s))
      else if ty = type_code ChatAck_t then
        Some (\<lambda>s. HandlePacket_parse (ChatAck_Parse (ce_utf8 env)) (HandleChatAck s))
      else if ty = type_code DummyPacketAck_t then
        Some (\<lambda>s. HandlePacket_parse (DummyPacketAck_Parse (ce_utf8 env)) (HandleDummyPacketAck s))
      else None)"

definition Client_HandlePacket :: "('e ClientEnv_scheme) \<Rightarrow> 'z Client_scheme packet_handler" where
  "Client_HandlePacket env = HandlePacket_by (Client_GPacketHadler env)"

lemma copy_rooms_append: "copy_rooms rooms dat = dat\<lparr>list_res_rooms := list_res_rooms dat @ rooms\<rparr>"
  by (induction rooms arbitrary: dat) (simp_all add: ChatRoomInfo_merge)

end
