(* ===== verification/Client_Windows.thy ===== *)
theory Client_Windows
  imports Client_Handlers
begin

text \<open>
  The windows of the client (\<^verbatim>\<open>Client/LoginWindow\<close>, \<^verbatim>\<open>LobbyWindow\<close>, \<^verbatim>\<open>ChatWindow\<close> and the window
  procedure of \<^verbatim>\<open>Client.cpp\<close>) as a state machine: what the user does and the messages that the
  packet workers post are its inputs. Creating controls, sizes, fonts and status texts are
  left out; a message box is a recorded alert. The sessions that the manager hands out are
  never null pointers.
\<close>

section \<open>State\<close>

datatype alert =
  Alert_login_incomplete
| Alert_login_failed "byte list"
| Alert_not_connected
| Alert_no_room_selected
| Alert_room_not_found
| Alert_room_name_missing

text \<open>
  \<open>lw\<close>, \<open>bw\<close> and \<open>cw\<close> are the login, the lobby and the chat window; \<open>bw_listbox\<close> and \<open>cw_listbox\<close>
  the lines of their list boxes; \<open>app_quit\<close>: \<^verbatim>\<open>PostQuitMessage\<close> was called.
\<close>

record ClientApp = Client +
  lw_visible :: bool
  lw_UserID :: "byte list"
  bw_visible :: bool
  bw_currentUserId :: "byte list"
  bw_chatRooms :: "ChatRoomInfo list"
  bw_listbox :: "wide list"
  cw_visible :: bool
  cw_title :: wide
  cw_isConnect :: bool
  cw_chatMessage :: "wide list"
  cw_listbox :: "wide list"
  app_alerts :: "alert list"
  app_quit :: bool

definition show_alert :: "alert \<Rightarrow> ClientApp \<Rightarrow> ClientApp" where
  "show_alert a c = c\<lparr>app_alerts := app_alerts c @ [a]\<rparr>"

text \<open>
  What is outside the program here, besides the conversions: the time stamp in front of a
  line, and the bytes of a narrow string literal, which depend on the compiler.
\<close>

record WinEnv = ClientEnv +
  we_stamp :: wide
  we_title_prefix :: "byte list"

text \<open>The session that the windows use: the first one of the manager.\<close>

definition first_session :: "'z Client_scheme \<Rightarrow> session_ptr option" where
  "first_session c = (case cm_Sessions c of [] \<Rightarrow> None | (_, s) # _ \<Rightarrow> Some s)"

definition wide_of :: "string \<Rightarrow> wide" where
  "wide_of = map of_char"

fun decimal :: "nat \<Rightarrow> wide" where
  "decimal n = (if n < 10 then [of_nat (48 + n)] else decimal (n div 10) @ [of_nat (48 + n mod 10)])"

declare decimal.simps [simp del]

definition to_wstring :: "uint32 \<Rightarrow> wide" where
  "to_wstring v = decimal (unat v)"

section \<open>Login window\<close>

definition LoginWindow_Hide :: "ClientApp \<Rightarrow> ClientApp" where
  "LoginWindow_Hide c = c\<lparr>lw_visible := False\<rparr>"

definition LoginWindow_OnLoginFail :: "byte list \<Rightarrow> ClientApp \<Rightarrow> ClientApp" where
  "LoginWindow_OnLoginFail err c = show_alert (Alert_login_failed err) c"

definition LoginWindow_OnLoginSuccess :: "byte list \<Rightarrow> ClientApp \<Rightarrow> ClientApp" where
  "LoginWindow_OnLoginSuccess userID c = LoginWindow_Hide (c\<lparr>lw_UserID := userID\<rparr>)"

text \<open>The texts of the two edit controls are arguments.\<close>

definition LoginWindow_TryLogin :: "('e ClientEnv_scheme) \<Rightarrow> byte list \<Rightarrow> wide \<Rightarrow> wide \<Rightarrow> ClientApp \<Rightarrow> ClientApp res" where
  "LoginWindow_TryLogin env notConnected wId wPassword c =
     (if wId = [] \<or> wPassword = [] then Inr (show_alert Alert_login_incomplete c)
      else let id = ce_narrow env wId; password = ce_narrow env wPassword
           in case first_session c of
                Some session \<Rightarrow>
                  let loginPacket = \<lparr>login_req_id = id, login_req_password = password\<rparr>
                  in send_message (ce_pad env) LoginReq_t (LoginReq_ByteSizeLong loginPacket)
                       (LoginReq_Serialize loginPacket) session c
              | None \<Rightarrow> Inr (LoginWindow_OnLoginFail notConnected c))"

section \<open>Lobby window\<close>

definition LobbyWindow_RefreshRoomList :: "('e ClientEnv_scheme) \<Rightarrow> ClientApp \<Rightarrow> ClientApp res" where
  "LobbyWindow_RefreshRoomList env c =
     (case first_session c of
        Some session \<Rightarrow>
          let listPacket = \<lparr>list_req_success = True\<rparr>
          in send_message (ce_pad env) ChatRoomListReq_t (ChatRoomListReq_ByteSizeLong listPacket)
               (ChatRoomListReq_Serialize listPacket) session c
      | None \<Rightarrow> Inr c)"

definition LobbyWindow_Show :: "('e ClientEnv_scheme) \<Rightarrow> byte list \<Rightarrow> ClientApp \<Rightarrow> ClientApp res" where
  "LobbyWindow_Show env userId c =
     bindR (LobbyWindow_RefreshRoomList env (c\<lparr>bw_currentUserId := userId\<rparr>)) (\<lambda>c1.
     Inr (c1\<lparr>bw_visible := True\<rparr>))"

definition LobbyWindow_Hide :: "ClientApp \<Rightarrow> ClientApp" where
  "LobbyWindow_Hide c = c\<lparr>bw_visible := False\<rparr>"

text \<open>\<open>yes\<close>: the answer to the question whether to enter.\<close>

definition LobbyWindow_EnterChatRoom :: "('e ClientEnv_scheme) \<Rightarrow> bool \<Rightarrow> uint32 \<Rightarrow> ClientApp \<Rightarrow> ClientApp res" where
  "LobbyWindow_EnterChatRoom env yes roomId c =
     (case List.find (\<lambda>room. info_roomid room = roomId) (bw_chatRooms c) of
        None \<Rightarrow> Inr (show_alert Alert_room_not_found c)
      | Some selectedRoom \<Rightarrow>
          if yes
          then case first_session c of
                 Some session \<Rightarrow>
                   let packet = \<lparr>enter_req_roomid = roomId\<rparr>
                   in send_message (ce_pad env) EnterChatRoomReq_t (EnterChatRoomReq_ByteSizeLong packet)
                        (EnterChatRoomReq_Serialize packet) session c
               | None \<Rightarrow> Inr (show_alert Alert_not_connected c)
          else Inr c)"

definition LobbyWindow_CreateNewChatRoom :: "('e ClientEnv_scheme) \<Rightarrow> byte list \<Rightarrow> ClientApp \<Rightarrow> ClientApp res" where
  "LobbyWindow_CreateNewChatRoom env roomName c =
     (case first_session c of
        Some session \<Rightarrow>
          let packet = \<lparr>create_req_roomname = roomName\<rparr>
          in send_message (ce_pad env) CreateChatRoomReq_t (CreateChatRoomReq_ByteSizeLong packet)
               (CreateChatRoomReq_Serialize packet) session c
      | None \<Rightarrow> Inr c)"

definition room_line :: "('e ClientEnv_scheme) \<Rightarrow> ChatRoomInfo \<Rightarrow> wide" where
  "room_line env room =
     ce_widen env (info_roomname room) @ wide_of '' ('' @ to_wstring (info_currentuser room)
       @ wide_of ''/'' @ to_wstring (info_maxuser room) @ wide_of '')''"

definition LobbyWindow_UpdateLobby :: "('e ClientEnv_scheme) \<Rightarrow> ChatRoomInfo list \<Rightarrow> ClientApp \<Rightarrow> ClientApp" where
  "LobbyWindow_UpdateLobby env roomList c =
     c\<lparr>bw_chatRooms := roomList, bw_listbox := map (room_line env) roomList\<rparr>"

text \<open>The buttons. The selection of the list box and the text of the name field are arguments.\<close>

datatype lobby_button = Button_enter "nat option" bool | Button_create wide | Button_refresh

definition LobbyWindow_Command :: "('e ClientEnv_scheme) \<Rightarrow> lobby_button \<Rightarrow> ClientApp \<Rightarrow> ClientApp res" where
  "LobbyWindow_Command env button c =
     (case button of
        Button_enter (Some selectedIndex) yes \<Rightarrow>
          if selectedIndex < length (bw_chatRooms c)
          then LobbyWindow_EnterChatRoom env yes (info_roomid (bw_chatRooms c ! selectedIndex)) c
          else Inr (show_alert Alert_no_room_selected c)
      | Button_enter None yes \<Rightarrow> Inr (show_alert Alert_no_room_selected c)
      | Button_create wRoomName \<Rightarrow>
          if wRoomName \<noteq> [] then LobbyWindow_CreateNewChatRoom env (ce_narrow env wRoomName) c
          else Inr (show_alert Alert_room_name_missing c)
      | Button_refresh \<Rightarrow> LobbyWindow_RefreshRoomList env c)"

text \<open>
  The messages of the lobby. The room data are copied field by field; on entering, the data
  go on to the main window.
\<close>

definition LobbyWindow_WndProc :: "('e ClientEnv_scheme) \<Rightarrow> ui_message \<Rightarrow> ClientApp \<Rightarrow> ClientApp" where
  "LobbyWindow_WndProc env msg c =
     (case msg of
        WM_CLIENT_CHATROOM_LIST res \<Rightarrow>
          LobbyWindow_UpdateLobby env
            (map (\<lambda>roomData. \<lparr>info_roomid = info_roomid roomData, info_currentuser = info_currentuser roomData,
                             info_maxuser = info_maxuser roomData, info_roomname = info_roomname roomData\<rparr>)
               (list_res_rooms res)) c
      | WM_CLIENT_CHATROOM_ENTER res \<Rightarrow> PostMessage MainWin (WM_ENTER_CHATROOM res) (LobbyWindow_Hide c)
      | _ \<Rightarrow> c)"

section \<open>Chat window\<close>

text \<open>At most 100 messages are kept.\<close>

function trim_messages :: "'a list \<Rightarrow> 'a list" where
  "trim_messages ms = (if 100 < length ms then trim_messages (tl ms) else ms)"
  by pat_completeness auto
termination by (relation "measure length") auto

declare trim_messages.simps [simp del]

definition ChatWindow_AddChatMessage :: "WinEnv \<Rightarrow> wide \<Rightarrow> ClientApp \<Rightarrow> ClientApp" where
  "ChatWindow_AddChatMessage env message c =
     c\<lparr>cw_chatMessage := trim_messages (cw_chatMessage c @ [message]),
       cw_listbox := cw_listbox c @ [we_stamp env @ message]\<rparr>"

definition ChatWindow_UpdateStatus :: "bool \<Rightarrow> ClientApp \<Rightarrow> ClientApp" where
  "ChatWindow_UpdateStatus isConnect c = c\<lparr>cw_isConnect := isConnect\<rparr>"

text \<open>The two texts, in UTF-16.\<close>

definition text_connected :: wide where
  "text_connected = [49436, 48260, 50640, 32, 50672, 44208, 46104, 50632, 49845, 45768, 45796, 46]"

definition text_disconnected :: wide where
  "text_disconnected = [49436, 48260, 50752, 32, 50672, 44208, 51060, 32, 45130, 50612, 51276, 49845, 45768,
      45796, 46]"

definition ChatWindow_OnConnect :: "WinEnv \<Rightarrow> ClientApp \<Rightarrow> ClientApp" where
  "ChatWindow_OnConnect env c = ChatWindow_AddChatMessage env text_connected (ChatWindow_UpdateStatus True c)"

definition ChatWindow_OnDisconnect :: "WinEnv \<Rightarrow> ClientApp \<Rightarrow> ClientApp" where
  "ChatWindow_OnDisconnect env c = ChatWindow_AddChatMessage env text_disconnected (ChatWindow_UpdateStatus False c)"

definition ChatWindow_OnMessageRecv :: "WinEnv \<Rightarrow> byte list \<Rightarrow> byte list \<Rightarrow> ClientApp \<Rightarrow> ClientApp" where
  "ChatWindow_OnMessageRecv env sender message c =
     ChatWindow_AddChatMessage env (ce_widen env (sender @ ascii_bytes '': '' @ message)) c"

text \<open>The text of the edit control is an argument. The room is not part of the request.\<close>

definition ChatWindow_SendChatMessage :: "WinEnv \<Rightarrow> wide \<Rightarrow> ClientApp \<Rightarrow> ClientApp res" where
  "ChatWindow_SendChatMessage env wMessage c =
     (if \<not> cw_isConnect c then Inr (show_alert Alert_not_connected c)
      else if wMessage = [] then Inr c
      else let message = ce_narrow env wMessage
           in case first_session c of
                Some session \<Rightarrow>
                  let chatPacket = ChatReq_new\<lparr>chat_req_sessionuid := word_of_int (uid_of c session),
                                              chat_req_message := message\<rparr>
                  in send_message (ce_pad env) ChatReq_t (ChatReq_ByteSizeLong chatPacket)
                       (ChatReq_Serialize chatPacket) session c
              | None \<Rightarrow> Inr c)"

definition ChatWindow_WndProc :: "WinEnv \<Rightarrow> ui_message \<Rightarrow> ClientApp \<Rightarrow> ClientApp" where
  "ChatWindow_WndProc env msg c =
     (case msg of
        WM_CLIENT_CONNECTED \<Rightarrow> ChatWindow_OnConnect env c
      | WM_CLIENT_DISCONNECT \<Rightarrow> ChatWindow_OnDisconnect env c
      | WM_CLIENT_RECV res \<Rightarrow> ChatWindow_OnMessageRecv env (message_res_sender res) (message_res_message res) c
      | _ \<Rightarrow> c)"

text \<open>\<^verbatim>\<open>WM_DESTROY\<close> of the chat window: the sessions of the manager are stopped, then the service.\<close>

definition ChatWindow_Destroy :: "ClientApp \<Rightarrow> ClientApp res" where
  "ChatWindow_Destroy c =
     bindR (ClientManager_StopClient c) (\<lambda>c1.
     bindR (AsioService_CloseService ClientSession_OnDisconnected c1) (\<lambda>c2.
     Inr (c2\<lparr>app_quit := True\<rparr>)))"

section \<open>Main window and message loop\<close>

definition text_entered :: "wide \<Rightarrow> wide" where
  "text_entered name = [52292, 54021, 48169, 32, 39] @ name @ [39, 50640, 32, 51077, 51109, 54664, 49845,
      45768, 45796, 46]"

definition MainWndProc :: "WinEnv \<Rightarrow> ui_message \<Rightarrow> ClientApp \<Rightarrow> ClientApp res" where
  "MainWndProc env msg c =
     (case msg of
        WM_LOGIN_SUCCESS res \<Rightarrow>
          let c1 = (if lrd_result res = 0 then LoginWindow_OnLoginSuccess (lrd_userId res) c
                    else LoginWindow_OnLoginFail (lrd_message res) c)
          in LobbyWindow_Show env (lw_UserID c1) c1
      | WM_ENTER_CHATROOM res \<Rightarrow>
          let c1 = c\<lparr>cw_title := ce_widen env (we_title_prefix env @ room_res_roomname res)\<rparr>;
              c2 = ChatWindow_UpdateStatus True c1;
              c3 = c2\<lparr>cw_visible := True\<rparr>
          in Inr (ChatWindow_AddChatMessage env (text_entered (ce_widen env (room_res_roomname res))) c3)
      | _ \<Rightarrow> Inr c)"

text \<open>One round of \<^verbatim>\<open>RunChatWindow\<close> with a posted message: the oldest one goes to its window.\<close>

definition DispatchMessage :: "WinEnv \<Rightarrow> ClientApp \<Rightarrow> ClientApp res" where
  "DispatchMessage env c =
     (case cl_posts c of
        [] \<Rightarrow> Inr c
      | (w, msg) # rest \<Rightarrow>
          let c1 = c\<lparr>cl_posts := rest\<rparr>
          in case w of
               MainWin \<Rightarrow> MainWndProc env msg c1
             | LobbyWin \<Rightarrow> Inr (LobbyWindow_WndProc env msg c1)
             | ChatWin \<Rightarrow> Inr (ChatWindow_WndProc env msg c1))"

end
