(* ===== verification/Client_Life.thy ===== *)
theory Client_Life
  imports Client_Windows
begin

text \<open>
  The life of the client: connecting the sessions of the stress test, the notice that they
  are connected, the chat history, and closing the program.
\<close>

section \<open>Starting the client\<close>

text \<open>
  \<^verbatim>\<open>WinMain\<close> up to its message loop, behind an \<^verbatim>\<open>InitWindow\<close> that succeeds: the router with default
  workers, the packet pool, the service, the three windows with the login window on top. The
  configuration values are what the \<^verbatim>\<open>INIReader\<close> returned. Each of the \<^verbatim>\<open>threadCnt\<close> threads then
  starts the service, which they share, once more; the sessions get the unconnected socket of the
  service and replace it when they connect. Then the thread goes on to the stress test.
\<close>

record ClientConfig =
  ccfg_threadCnt :: int
  ccfg_maxSessionCnt :: int
  ccfg_PacketPoolSize :: int
  ccfg_IsStressTest :: int

definition ClientApp_blank :: ClientApp where
  "ClientApp_blank =
     \<lparr>c_heap = Map.empty, c_manager = Map.empty, c_tasks = TaskQueue_new, c_router = PacketRouter_new,
      c_buffers = Map.empty, c_analyzer = ServerAnalyzer_new, c_pool = PacketPool_new,
      c_service = AsioService_new ServiceType_Client True 0,
      c_acceptor = \<lparr>ac_open = False, ac_port = 0, ac_accepts = 0\<rparr>, c_next_uid = 0, c_writes = [],
      cl_next = 10, cm_RunningState = RunningState_None, cm_Sessions = [], cm_SessionSeqNum = [],
      cm_Service = False, cm_run = False, cm_IsStressTest = False, cl_threadCnt = 0, cl_maxSessionCnt = 0,
      cl_windows = {}, cl_posts = [], lw_visible = False, lw_UserID = [], bw_visible = False,
      bw_currentUserId = [], bw_chatRooms = [], bw_listbox = [], cw_visible = False, cw_title = [],
      cw_isConnect = False, cw_chatMessage = [], cw_listbox = [], app_alerts = [], app_quit = False\<rparr>"

definition Client_main :: "nat \<Rightarrow> ClientConfig \<Rightarrow> ClientApp res" where
  "Client_main hw cfg =
     (let c0 = ClientApp_blank\<lparr>cl_threadCnt := i32 (ccfg_threadCnt cfg), cl_maxSessionCnt := i32 (ccfg_maxSessionCnt cfg)\<rparr>
      in bindR (PacketRouter_Init hw 0 True (c_router c0)) (\<lambda>r.
         Inr (c0\<lparr>c_router := r,
                 c_pool := snd (PacketPool_Init (word_of_int (ccfg_PacketPoolSize cfg)) (c_pool c0)),
                 cm_IsStressTest := (ccfg_IsStressTest cfg \<noteq> 0),
                 c_service := AsioService_new ServiceType_Client True (cl_maxSessionCnt c0),
                 cl_windows := {MainWin, LobbyWin, ChatWin}, lw_visible := True\<rparr>)))"

definition connect_thread :: "(nat \<Rightarrow> bool) \<Rightarrow> int \<Rightarrow> uint32 \<Rightarrow> ClientApp \<Rightarrow> (bool \<times> ClientApp) res" where
  "connect_thread resolves uid seq = AsioClientService_Start (client_maker uid (Some False) seq) resolves"

section \<open>An example\<close>

text \<open>A client with all windows and two sessions, of which the second one never connected.\<close>

definition ex_csession :: "int \<Rightarrow> AsioSession" where
  "ex_csession uid =
     \<lparr>m_SessionUID = uid, m_NetState = NetState_None, m_IsRunning = False, m_Socket = Some True, m_Resolver = True,
      m_Service = True, m_PacketBuffer = \<lparr>m_Buffer = replicate 655360 0, m_Capacity = 655360, m_BufferSize = 65536,
        m_ReadPos = 0, m_WritePos = 0\<rparr>, m_SeqNum = 0, m_ReadPending = True\<rparr>"

definition ex_app :: "(int \<times> session_ptr) list \<Rightarrow> ClientApp" where
  "ex_app regs = ClientApp_blank
     \<lparr>c_heap := [SessionPtr 10 \<mapsto> ex_csession 0, SessionPtr 11 \<mapsto> ex_csession 1], cl_next := 12, c_next_uid := 2,
      c_service := (AsioService_new ServiceType_Client True 2)\<lparr>m_Sessions := [SessionPtr 10, SessionPtr 11], m_SessionCount := 2\<rparr>,
      cm_Sessions := regs, cm_IsStressTest := True, cl_threadCnt := 1, cl_maxSessionCnt := 2,
      cl_windows := {MainWin, LobbyWin, ChatWin}\<rparr>"

lemma ex_app_fields [simp]:
  "c_heap (ex_app regs) = [SessionPtr 10 \<mapsto> ex_csession 0, SessionPtr 11 \<mapsto> ex_csession 1]"
  "c_manager (ex_app regs) = Map.empty" "cm_Sessions (ex_app regs) = regs" "cm_IsStressTest (ex_app regs)"
  "\<not> cm_run (ex_app regs)" "cl_threadCnt (ex_app regs) = 1" "cl_maxSessionCnt (ex_app regs) = 2"
  "cl_windows (ex_app regs) = {MainWin, LobbyWin, ChatWin}" "cl_posts (ex_app regs) = []"
  "m_Sessions (c_service (ex_app regs)) = [SessionPtr 10, SessionPtr 11]" "\<not> cw_isConnect (ex_app regs)"
  "cw_chatMessage (ex_app regs) = []" "cw_listbox (ex_app regs) = []" "bw_chatRooms (ex_app regs) = []"
  by (simp_all add: ex_app_def ClientApp_blank_def)

lemma ex_csession_fields [simp]:
  "m_SessionUID (ex_csession u) = u" "m_Socket (ex_csession u) = Some True" "m_Service (ex_csession u)"
  by (simp_all add: ex_csession_def)

definition ex_winenv :: WinEnv where
  "ex_winenv = \<lparr>ce_utf8 = (\<lambda>s. \<forall>b \<in> set s. b < 128), ce_pad = (0, 0), ce_narrow = map ucast, ce_widen = map ucast,
     we_stamp = [62], we_title_prefix = []\<rparr>"

section \<open>Registering connected sessions\<close>

lemma Init_fields [simp]:
  "cm_IsStressTest (ClientManager_Init u s c) = cm_IsStressTest c"
  "cl_threadCnt (ClientManager_Init u s c) = cl_threadCnt c"
  "cl_maxSessionCnt (ClientManager_Init u s c) = cl_maxSessionCnt c"
  "cm_Sessions (ClientManager_Init u s c) =
     (if map_of (cm_Sessions c) u = None then omap_put u s (cm_Sessions c) else cm_Sessions c)"
  by (cases "map_of (cm_Sessions c) u"; simp add: ClientManager_Init_def Let_def)+

lemma length_omap_put_new: "u \<notin> fst ` set m \<Longrightarrow> length (omap_put u s m) = Suc (length m)"
  by (induction m) auto

lemma fst_omap_put: "fst ` set (omap_put u s m) = insert u (fst ` set m)"
  by (induction m) auto

lemma register_all:
  fixes c :: "'z Client_scheme"
  assumes "distinct (map fst us)" "fst ` set us \<inter> fst ` set (cm_Sessions c) = {}"
    "cm_IsStressTest c" "target = cl_threadCnt c * cl_maxSessionCnt c" "0 < target" "target < 2147483648"
    "int (length (cm_Sessions c) + length us) < 2147483648"
    "cm_run c \<longleftrightarrow> target \<le> int (length (cm_Sessions c))"
  shows "let c' = fold (\<lambda>(u, s). ClientManager_Init u s) us c
    in length (cm_Sessions c') = length (cm_Sessions c) + length us
       \<and> (cm_run c' \<longleftrightarrow> target \<le> int (length (cm_Sessions c')))"
  using assms
proof (induction us arbitrary: c)
  case (Cons e us)
  obtain u s where e: "e = (u, s)" by (cases e)
  let ?c1 = "ClientManager_Init u s c"
  have fresh: "u \<notin> fst ` set (cm_Sessions c)" using Cons.prems(2) e by auto
  then have n: "map_of (cm_Sessions c) u = None" by (simp add: map_of_eq_None_iff)
  have ss: "cm_Sessions ?c1 = omap_put u s (cm_Sessions c)" using n by simp
  have l: "length (cm_Sessions ?c1) = Suc (length (cm_Sessions c))"
    using ss length_omap_put_new [OF fresh] by simp
  have i: "i32 (int (length (cm_Sessions ?c1))) = int (length (cm_Sessions ?c1))" "i32 target = target"
    using Cons.prems(5-7) l by (auto intro!: i32_id)
  have run: "cm_run ?c1 \<longleftrightarrow> cm_run c \<or> int (length (cm_Sessions ?c1)) = target"
    using i Cons.prems(3,4) n ss by (simp add: ClientManager_Init_def Let_def)
  have "cm_run ?c1 \<longleftrightarrow> target \<le> int (length (cm_Sessions ?c1))"
    using run Cons.prems(8) l by auto
  moreover have "fst ` set us \<inter> fst ` set (cm_Sessions ?c1) = {}"
    using Cons.prems(1,2) e ss by (auto simp: fst_omap_put)
  ultimately show ?case
    using Cons.IH [of ?c1] Cons.prems e l by (simp del: Init_fields(4))
qed (simp add: Let_def)



section \<open>Connecting\<close>

text \<open>
  C36. The user is not told that the connection is up: a session that connects registers itself
  in both managers and posts its notice to the main window, whose procedure does not know it;
  the chat window, which does, never gets it, and goes on refusing to send.
\<close>

theorem connected_notice_lost:
  fixes c :: ClientApp
  assumes "c_heap c s = Some x" "MainWin \<in> cl_windows c" "cl_posts c = []" "\<not> cw_isConnect c"
    "c_manager c (m_SessionUID x) = None" "map_of (cm_Sessions c) (m_SessionUID x) = None"
    "omap_inv (cm_Sessions c)"
  shows "\<exists>c1 c2. ClientSession_OnConnected s c = Inr c1 \<and> cl_posts c1 = [(MainWin, WM_CLIENT_CONNECTED)]
    \<and> SessionManager_GetSession (m_SessionUID x) (c_manager c1) = Some s
    \<and> map_of (cm_Sessions c1) (m_SessionUID x) = Some s
    \<and> DispatchMessage env c1 = Inr c2 \<and> \<not> cw_isConnect c2 \<and> cw_chatMessage c2 = cw_chatMessage c
    \<and> ChatWindow_SendChatMessage env text c2 = Inr (show_alert Alert_not_connected c2)"
proof -
  let ?c0 = "upd_sess s (\<lambda>y. y\<lparr>m_IsRunning := True\<rparr>)
      (c\<lparr>c_manager := SessionManager_AddSession (uid_of c) (Some s) (c_manager c)\<rparr>)"
  let ?c3 = "ClientManager_Init (m_SessionUID x) s ?c0"
  let ?c1 = "?c3\<lparr>cl_posts := [(MainWin, WM_CLIENT_CONNECTED)]\<rparr>"
  have u: "uid_of c s = m_SessionUID x" using assms(1) by (simp add: uid_of_def)
  have f: "cl_windows ?c3 = cl_windows c" "cl_posts ?c3 = cl_posts c" "c_manager ?c3 = c_manager ?c0"
    "cw_isConnect ?c3 = cw_isConnect c" "cw_chatMessage ?c3 = cw_chatMessage c"
    by (simp_all add: ClientManager_Init_def Let_def upd_sess_def)
  have "ClientSession_OnConnected s c = Inr ?c1"
    using assms(1-3) f u by (simp add: ClientSession_OnConnected_def PostMessage_def Let_def uid_of_def)
  moreover have "SessionManager_GetSession (m_SessionUID x) (c_manager ?c1) = Some s"
    using f(3) u assms(5) by (simp add: SessionManager_GetSession_def SessionManager_AddSession_def)
  moreover have "map_of (cm_Sessions ?c1) (m_SessionUID x) = Some s"
    using assms(6) std_map.find_put [OF assms(7)] by simp
  moreover have "DispatchMessage env ?c1 = Inr (?c1\<lparr>cl_posts := []\<rparr>)"
    by (simp add: DispatchMessage_def MainWndProc_def Let_def)
  ultimately show ?thesis
    using f assms(4) by (intro exI [of _ ?c1] exI [of _ "?c1\<lparr>cl_posts := []\<rparr>"])
      (simp add: ChatWindow_SendChatMessage_def)
qed

theorem connected_notice_lost_witness:
  "\<exists>c1 c2. ClientSession_OnConnected (SessionPtr 10) (ex_app []) = Inr c1
     \<and> DispatchMessage ex_winenv c1 = Inr c2 \<and> ChatWindow_SendChatMessage ex_winenv [104, 105] c2 = Inr (show_alert Alert_not_connected c2)"
  using connected_notice_lost [of "ex_app []" "SessionPtr 10" "ex_csession 0" ex_winenv "[104, 105]"]
  by (auto simp: omap_inv_def)

section \<open>The history of the chat window\<close>

lemma trim_messages_last: "trim_messages ms = drop (length ms - 100) ms"
proof (induction ms rule: trim_messages.induct)
  case (1 ms)
  show ?case
  proof (cases "100 < length ms")
    case True
    then obtain m rest where "ms = m # rest" by (cases ms) auto
    moreover from this True have "length ms - 100 = Suc (length rest - 100)" by simp
    ultimately show ?thesis using True 1 trim_messages.simps [of ms] by simp
  qed (simp add: trim_messages.simps [of ms])
qed

lemma drop_append_last:
  "drop (length (drop (length xs - n) xs @ ys) - n) (drop (length xs - n) xs @ ys)
     = drop (length (xs @ ys) - n) (xs @ ys)"
  by (cases "n \<le> length xs") (auto simp: add.commute)

text \<open>
  C37. Whatever messages arrive, the chat window remembers the last hundred lines in order and
  nothing else; the list box on the screen is never trimmed and shows them all.
\<close>

theorem chat_history_window:
  assumes "length (cw_chatMessage c) \<le> 100"
  shows "let c' = fold (\<lambda>res. ChatWindow_WndProc env (WM_CLIENT_RECV res)) rs c;
      line = (\<lambda>res. ce_widen env (message_res_sender res @ ascii_bytes '': '' @ message_res_message res))
    in cw_chatMessage c' = drop (length (cw_chatMessage c) + length rs - 100) (cw_chatMessage c @ map line rs)
       \<and> cw_listbox c' = cw_listbox c @ map (\<lambda>res. we_stamp env @ line res) rs"
  using assms
proof (induction rs rule: rev_induct)
  case (snoc r rs)
  define line where "line res = ce_widen env (message_res_sender res @ ascii_bytes '': '' @ message_res_message res)"
    for res :: ChatMessageRes
  have "trim_messages (drop (length (cw_chatMessage c) + length rs - 100) (cw_chatMessage c @ map line rs) @ [line r])
      = drop (Suc (length (cw_chatMessage c) + length rs) - 100) (cw_chatMessage c @ map line rs @ [line r])"
    using drop_append_last [of "cw_chatMessage c @ map line rs" 100 "[line r]"]
    by (simp only: trim_messages_last length_append length_map append_assoc list.size add_Suc_right add_0_right)
  with snoc show ?case
    by (simp add: Let_def ChatWindow_WndProc_def ChatWindow_OnMessageRecv_def ChatWindow_AddChatMessage_def
        line_def [symmetric] del: drop_append)
qed (simp add: Let_def)

theorem chat_history_window_witness:
  "cw_chatMessage (fold (\<lambda>res. ChatWindow_WndProc ex_winenv (WM_CLIENT_RECV res))
     (replicate 101 \<lparr>message_res_sender = [97], message_res_message = [98]\<rparr>) (ex_app []))
   = drop 1 (map (\<lambda>res. ce_widen ex_winenv (message_res_sender res @ ascii_bytes '': '' @ message_res_message res))
       (replicate 101 \<lparr>message_res_sender = [97], message_res_message = [98]\<rparr>))"
  using chat_history_window [of "ex_app []" ex_winenv "replicate 101 \<lparr>message_res_sender = [97], message_res_message = [98]\<rparr>"]
  by (simp add: Let_def del: fold_replicate)

section \<open>Closing the program\<close>

text \<open>
  Stopping takes the sessions of the manager out of the service and closes them; it leaves
  every other session as it is.
\<close>

lemma stop_sessions_ok:
  assumes "\<forall>s \<in> snd ` set es. c_heap c s \<noteq> None" "distinct (map snd es)" "distinct (m_Sessions (c_service c))"
  shows "\<exists>c'. stop_sessions es c = Inr c'
    \<and> distinct (m_Sessions (c_service c'))
    \<and> set (m_Sessions (c_service c')) = set (m_Sessions (c_service c)) - {s \<in> snd ` set es. blocks c s}
    \<and> (\<forall>s \<in> snd ` set es. c_heap c' s \<noteq> None \<and> \<not> blocks c' s)
    \<and> (\<forall>s. s \<notin> snd ` set es \<longrightarrow> c_heap c' s = c_heap c s)"
  using assms
proof (induction es arbitrary: c)
  case (Cons e es)
  obtain uid s where e: "e = (uid, s)" by (cases e)
  obtain x where "c_heap c s = Some x" using Cons.prems(1) e by auto
  then obtain c1 y where c1: "AsioSession_Disconnect ClientSession_OnDisconnected False s c = Inr c1"
    "c_heap c1 = (c_heap c)(s \<mapsto> y)"
    "m_Sessions (c_service c1) = (if blocks c s then remove1 s (m_Sessions (c_service c)) else m_Sessions (c_service c))"
    by (rule client_hook.Disconnect_unlocked)
  let ?c2 = "upd_sess s AsioSession_Reset c1"
  let ?c3 = "?c2\<lparr>cm_SessionSeqNum := omap_erase uid (cm_SessionSeqNum ?c2)\<rparr>"
  have h: "c_heap ?c3 t = (if t = s then Some (AsioSession_Reset y) else c_heap c t)" for t
    using c1(2) by simp
  have new: "s \<notin> snd ` set es" using Cons.prems(2) e by simp
  have same: "blocks ?c3 t = blocks c t" if "t \<noteq> s" for t
    using that h [of t] by (simp add: blocks_def)
  have sv: "m_Sessions (c_service ?c3) = m_Sessions (c_service c1)" by simp
  have pre: "\<forall>s \<in> snd ` set es. c_heap ?c3 s \<noteq> None" "distinct (map snd es)" "distinct (m_Sessions (c_service ?c3))"
    using Cons.prems e c1(2,3) by auto
  obtain c' where c': "stop_sessions es ?c3 = Inr c'" "distinct (m_Sessions (c_service c'))"
    "set (m_Sessions (c_service c')) = set (m_Sessions (c_service ?c3)) - {s \<in> snd ` set es. blocks ?c3 s}"
    "\<forall>s \<in> snd ` set es. c_heap c' s \<noteq> None \<and> \<not> blocks c' s" "\<forall>s. s \<notin> snd ` set es \<longrightarrow> c_heap c' s = c_heap ?c3 s"
    using Cons.IH [OF pre] by blast
  have here: "c_heap c' s = Some (AsioSession_Reset y)" using c'(5) new h by simp
  then have gone: "\<not> blocks c' s" by (simp add: blocks_def AsioSession_Reset_def)
  have "set (m_Sessions (c_service c')) = set (m_Sessions (c_service c)) - {s \<in> snd ` set (e # es). blocks c s}"
  proof -
    have "{t \<in> snd ` set es. blocks ?c3 t} = {t \<in> snd ` set es. blocks c t}"
    proof (rule Collect_cong, rule conj_cong [OF refl])
      fix t assume "t \<in> snd ` set es"
      with new have "t \<noteq> s" by metis
      then show "blocks ?c3 t = blocks c t" by (rule same)
    qed
    moreover have "{t \<in> snd ` set (e # es). blocks c t}
        = (if blocks c s then {s} else {}) \<union> {t \<in> snd ` set es. blocks c t}"
      using e by auto
    moreover have "set (m_Sessions (c_service c1)) = set (m_Sessions (c_service c)) - (if blocks c s then {s} else {})"
      using c1(3) Cons.prems(3) by (simp add: set_remove1_eq)
    ultimately show ?thesis using c'(3) sv by (simp add: Diff_eq Int_assoc)
  qed
  moreover have "stop_sessions (e # es) c = Inr c'" using c'(1) c1(1) e by (simp add: Let_def)
  moreover have "\<forall>t \<in> snd ` set (e # es). c_heap c' t \<noteq> None \<and> \<not> blocks c' t"
    using c'(4) here gone e by auto
  moreover have "\<forall>t. t \<notin> snd ` set (e # es) \<longrightarrow> c_heap c' t = c_heap c t"
    using c'(5) h e by (auto simp del: upd_sess_fields)
  ultimately show ?case using c'(2) by blast
qed simp

text \<open>
  C26. Closing the chat window ends the program, unless a session of the service is not
  registered in the manager (it was created and never connected) and still has its socket
  and its service: then the closing thread waits for itself.
\<close>

theorem client_close_deadlock_iff:
  assumes "\<forall>s \<in> set (m_Sessions (c_service c)) \<union> snd ` set (cm_Sessions c). c_heap c s \<noteq> None"
    "distinct (map snd (cm_Sessions c))" "distinct (m_Sessions (c_service c))"
  shows "if \<exists>s \<in> set (m_Sessions (c_service c)) - snd ` set (cm_Sessions c). blocks c s
    then ChatWindow_Destroy c = Inl SelfDeadlock
    else \<exists>c'. ChatWindow_Destroy c = Inr c' \<and> app_quit c'
      \<and> m_Sessions (c_service c') = [] \<and> m_IoStopped (c_service c')"
proof -
  let ?reg = "snd ` set (cm_Sessions c)"
  obtain c1 where c1: "stop_sessions (cm_Sessions c) c = Inr c1" "distinct (m_Sessions (c_service c1))"
    "set (m_Sessions (c_service c1)) = set (m_Sessions (c_service c)) - {s \<in> ?reg. blocks c s}"
    "\<forall>s \<in> ?reg. c_heap c1 s \<noteq> None \<and> \<not> blocks c1 s" "\<forall>s. s \<notin> ?reg \<longrightarrow> c_heap c1 s = c_heap c s"
    using stop_sessions_ok [of "cm_Sessions c" c] assms by blast
  let ?c2 = "c1\<lparr>cm_Sessions := []\<rparr>"
  have same: "blocks ?c2 s = (blocks c s \<and> s \<notin> ?reg)" for s
    using c1(4,5) by (cases "s \<in> ?reg") (auto simp: blocks_def)
  have sub: "set (m_Sessions (c_service ?c2)) \<subseteq> set (m_Sessions (c_service c))" using c1(3) by auto
  have alloc: "\<forall>s \<in> set (m_Sessions (c_service ?c2)). c_heap ?c2 s \<noteq> None"
  proof
    fix s assume "s \<in> set (m_Sessions (c_service ?c2))"
    then show "c_heap ?c2 s \<noteq> None" using sub c1(4,5) assms(1) by (cases "s \<in> ?reg") auto
  qed
  have bad: "(\<exists>s \<in> set (m_Sessions (c_service ?c2)). blocks ?c2 s)
      \<longleftrightarrow> (\<exists>s \<in> set (m_Sessions (c_service c)) - ?reg. blocks c s)"
    using c1(3) same by auto
  have dist: "distinct (m_Sessions (c_service ?c2))" using c1(2) by simp
  show ?thesis
    using client_hook.CloseService_result [OF alloc dist] c1(1) unfolding bad
    by (auto simp: ChatWindow_Destroy_def ClientManager_StopClient_def)
qed

theorem client_close_deadlock_iff_witness:
  "ChatWindow_Destroy (ex_app [(0, SessionPtr 10)]) = Inl SelfDeadlock
   \<and> (\<exists>c'. ChatWindow_Destroy (ex_app [(0, SessionPtr 10), (1, SessionPtr 11)]) = Inr c' \<and> app_quit c')"
  using client_close_deadlock_iff [of "ex_app [(0, SessionPtr 10)]"]
    client_close_deadlock_iff [of "ex_app [(0, SessionPtr 10), (1, SessionPtr 11)]"]
  by (auto simp: blocks_def)

end
