(* ===== verification/Receive_Path.thy ===== *)
theory Receive_Path
  imports Server_Core
begin

text \<open>
  What the receive path of \<^verbatim>\<open>Server_Core\<close> does to a byte stream: \<open>HandleRead\<close> hands every
  chunk on exactly once, \<open>SessionPacketBuffer\<close> appends it to what is left of the stream and
  queues the packets that became complete. Over any sequence of chunks this is the cutting
  of the concatenated stream, as long as the write position of the session's receive buffer
  stays within nine tenths of its capacity.
\<close>

section \<open>The receive buffers\<close>

definition recv_inv :: "('s, 'z) Core_scheme \<Rightarrow> bool" where
  "recv_inv c \<longleftrightarrow> router_inv (c_router c)
     \<and> (\<forall>k b. c_buffers c k = Some b \<longrightarrow> pb_inv b \<and> m_BufferSize b = 65536)"

definition recv_pending :: "('s, 'z) Core_scheme \<Rightarrow> int \<Rightarrow> byte list" where
  "recv_pending c u = (case c_buffers c u of None \<Rightarrow> [] | Some b \<Rightarrow> pb.bb_bytes b)"

definition recv_mem :: "('s, 'z) Core_scheme \<Rightarrow> int \<Rightarrow> byte list" where
  "recv_mem c u = (case c_buffers c u of None \<Rightarrow> [] | Some b \<Rightarrow> m_Buffer b)"

definition recv_wpos :: "('s, 'z) Core_scheme \<Rightarrow> int \<Rightarrow> int" where
  "recv_wpos c u = (case c_buffers c u of None \<Rightarrow> 0 | Some b \<Rightarrow> m_WritePos b)"

definition recv_rpos :: "('s, 'z) Core_scheme \<Rightarrow> int \<Rightarrow> int" where
  "recv_rpos c u = (case c_buffers c u of None \<Rightarrow> 0 | Some b \<Rightarrow> m_ReadPos b)"

text \<open>The bytes that a queued item points at: what a worker that takes it will read.\<close>

definition item_bytes :: "('s, 'z) Core_scheme \<Rightarrow> PacketQueueItem \<Rightarrow> byte list" where
  "item_bytes c it =
     take (nat (item_len it)) (drop (nat (snd (item_buffer it))) (recv_mem c (fst (item_buffer it))))"

definition mem_item :: "byte list \<Rightarrow> PacketQueueItem \<Rightarrow> byte list" where
  "mem_item mem it = take (nat (item_len it)) (drop (nat (snd (item_buffer it))) mem)"

lemma frame_items_key: "it \<in> set (frame_items uid base fs) \<Longrightarrow> fst (item_buffer it) = fst base"
  by (induction uid base fs rule: frame_items.induct) (auto simp: PacketQueueItem_of_def)

lemma frame_items_session: "it \<in> set (frame_items uid base fs) \<Longrightarrow> item_sessionId it = uid"
  by (induction uid base fs rule: frame_items.induct) (auto simp: PacketQueueItem_of_def)

lemma length_frame_items [simp]: "length (frame_items uid base fs) = length fs"
  by (induction uid base fs rule: frame_items.induct) simp_all

lemma frame_items_lens: "map item_len (frame_items uid base fs) = map (int \<circ> length) fs"
  by (induction uid base fs rule: frame_items.induct) (simp_all add: PacketQueueItem_of_def)

lemma frame_items_bytes:
  "0 \<le> snd base \<Longrightarrow> drop (nat (snd base)) mem = concat fs @ rest \<Longrightarrow>
   map (mem_item mem) (frame_items uid base fs) = fs"
proof (induction uid base fs rule: frame_items.induct)
  case (2 uid base f fs)
  have "drop (nat (snd base + int (length f))) mem = drop (length f) (drop (nat (snd base)) mem)"
    using "2.prems"(1) by (simp add: nat_add_distrib add.commute)
  with 2 show ?case by (simp add: mem_item_def PacketQueueItem_of_def)
qed simp

section \<open>One chunk through \<^verbatim>\<open>NetworkHandler::RecvData\<close>\<close>

lemma AddData_ok:
  assumes inv: "recv_inv c" and x: "c_heap c s = Some x" and u: "u = m_SessionUID x"
    and chunk: "chunk \<noteq> []" and room: "recv_wpos c u + int (length chunk) \<le> 655360"
  obtains b where
    "SessionPacketBuffer_AddData (Some s) (Some chunk) (length chunk) c
       = Inr (c\<lparr>c_buffers := (c_buffers c)(u \<mapsto> b)\<rparr>)"
    "pb_inv b" "m_BufferSize b = 65536" "pb.bb_bytes b = recv_pending c u @ chunk"
    "m_WritePos b = recv_wpos c u + int (length chunk)" "m_ReadPos b = recv_rpos c u"
    "\<exists>m0. length m0 = 655360 \<and> m_Buffer b = overwrite m0 (nat (recv_wpos c u)) chunk"
proof -
  obtain b0 where b0: "(case c_buffers c u of None \<Rightarrow> PacketBuffer_new | Some b \<Rightarrow> Inr b) = Inr b0"
    "pb_inv b0" "m_BufferSize b0 = 65536" "pb.bb_bytes b0 = recv_pending c u"
    "m_WritePos b0 = recv_wpos c u" "m_ReadPos b0 = recv_rpos c u"
  proof (cases "c_buffers c u")
    case None
    obtain b where "PacketBuffer_new = Inr b" "pb_inv b" "pb_empty b" "m_BufferSize b = 65536"
      by (rule new_inv)
    with None show thesis
      using pb_empty_pending [of b]
      by (intro that [of b]) (auto simp: recv_pending_def recv_wpos_def recv_rpos_def pb_empty_def pending_eq_bytes)
  next
    case (Some b)
    with inv show thesis
      by (intro that [of b]) (auto simp: recv_inv_def recv_pending_def recv_wpos_def recv_rpos_def)
  qed
  have cap: "int (length (m_Buffer b0)) = 655360" using pb_invD [OF b0(2)] b0(3) by simp
  have fit: "m_WritePos b0 + int (length chunk) \<le> int (length (m_Buffer b0))" using room b0(5) cap by simp
  obtain b1 where b1: "PacketBuffer_OnWrite_copy chunk (int (length chunk)) b0 = Inr (True, b1)"
    "pb_inv b1" "pb.bb_bytes b1 = pb.bb_bytes b0 @ chunk"
    "m_WritePos b1 = m_WritePos b0 + int (length chunk)" "9 * m_BufferSize b1 = 9 * m_BufferSize b0"
    "m_ReadPos b1 = m_ReadPos b0" "m_Buffer b1 = overwrite (m_Buffer b0) (nat (m_WritePos b0)) chunk"
    using pb.put_bytes [OF b0(2) chunk fit] by auto
  have w: "i32 (int (length chunk)) = int (length chunk)"
    using room b0 pb_invD [OF b0(2)] by (intro i32_id) auto
  have "SessionPacketBuffer_AddData (Some s) (Some chunk) (length chunk) c
       = Inr (c\<lparr>c_buffers := (c_buffers c)(u \<mapsto> b1)\<rparr>)"
    using chunk u b0(1) b1(1) w x by (simp add: SessionPacketBuffer_AddData_def Let_def)
  moreover have "length (m_Buffer b0) = 655360" using cap by simp
  ultimately show thesis using b0 b1 by (intro that [of b1]) auto
qed

text \<open>
  The state after the packets of \<open>stream\<close> were queued: the relation between the core before
  and after, in the terms of the specification.
\<close>

definition queued :: "int \<Rightarrow> byte list list \<Rightarrow> ('s, 'z) Core_scheme \<Rightarrow> ('s, 'z) Core_scheme \<Rightarrow> bool" where
  "queued u fs c c' \<longleftrightarrow>
     (\<exists>items. c_router c' = push_items u items (c_router c)
        \<and> map (item_bytes c') items = fs \<and> map item_len items = map (int \<circ> length) fs
        \<and> (\<forall>it \<in> set items. item_sessionId it = u))"

lemma ProcessSessionBuffer_ok:
  assumes inv: "recv_inv c" and x: "c_heap c s = Some x" and u: "u = m_SessionUID x" "0 \<le> u"
    and b: "c_buffers c u = Some b" and bs: "bs = pb.bb_bytes b" "bs \<noteq> []"
    and calm: "m_WritePos b \<le> 589824" and ns: "\<not> stalls bs"
  obtains b' where
    "SessionPacketBuffer_ProcessSessionBuffer (Some s) c
       = Some (Inr (c\<lparr>c_router := push_items u (frame_items u (u, m_ReadPos b) (frames bs)) (c_router c),
                     c_buffers := (c_buffers c)(u \<mapsto> b')\<rparr>))"
    "pb_inv b'" "m_BufferSize b' = 65536" "pb.bb_bytes b' = leftover bs" "m_Buffer b' = m_Buffer b"
    "m_WritePos b' \<le> m_WritePos b" "frames bs \<noteq> [] \<Longrightarrow> leftover bs = [] \<Longrightarrow> m_WritePos b' = 0"
proof -
  have pi: "pb_inv b" "m_BufferSize b = 65536" using inv b by (auto simp: recv_inv_def)
  have ri: "router_inv (c_router c)" using inv by (simp add: recv_inv_def)
  note I = pb_invD [OF pi(1)]
  have lbs: "int (length bs) = m_WritePos b - m_ReadPos b" using pb.length_bytes [OF pi(1)] bs(1) by simp
  then have lt: "m_ReadPos b < m_WritePos b" using bs(2) by (cases bs) auto
  have pos: "PacketBuffer_ReadPos b = Inr (m_ReadPos b)"
    using I lt by (simp add: PacketBuffer_ReadPos_def subscript_def in_vec_def)
  let ?mem = "drop (nat (m_ReadPos b)) (m_Buffer b)"
  let ?n = "length (concat (frames bs))"
  let ?d = "m_WritePos b - m_ReadPos b"
  have ds: "PacketBuffer_DataSize b = ?d" using pi(1) by simp
  have win: "take (nat ?d) ?mem = bs"
    using I pi(1) by (simp add: bs(1) pb.bb_bytes_def between_def nat_diff_distrib)
  let ?items = "frame_items u (u, m_ReadPos b) (frames bs)"
  have run: "AsioSession_ProcessPacket u (u, m_ReadPos b) ?mem (PacketBuffer_DataSize b) (c_router c)
    = Some (Inr (int ?n, push_items u ?items (c_router c)))"
    unfolding ds
    using ProcessPacket_ends [of ?d ?mem "c_router c" u "(u, m_ReadPos b)", unfolded win]
      I ri u(2) ns by simp
  have le: "?n \<le> length (pb.bb_bytes b)" using length_frames [of bs] bs(1) by simp
  have drp: "drop ?n bs = leftover bs" by (metis concat_frames append_eq_conv_conj)
  show thesis
  proof (cases "?n = 0")
    case True
    have "SessionPacketBuffer_ProcessSessionBuffer (Some s) c
       = Some (Inr (c\<lparr>c_router := push_items u ?items (c_router c)\<rparr>))"
      using x u(1) b pos run True
      by (simp add: SessionPacketBuffer_ProcessSessionBuffer_def Let_def)
    moreover have "(c_buffers c)(u \<mapsto> b) = c_buffers c" using b by auto
    moreover have "frames bs = []"
    proof (rule ccontr)
      assume "frames bs \<noteq> []"
      then have "frame_ready bs \<and> 0 < frame_size bs" by (metis frames.simps)
      then have "take (frame_size bs) bs \<in> set (frames bs)" "take (frame_size bs) bs \<noteq> []"
        using bs(2) by (auto simp: frames_step)
      with True show False by auto
    qed
    ultimately show thesis
      using pi True drp bs(1) by (intro that [of b]) auto
  next
    case False
    obtain b1 where b1: "PacketBuffer_OnRead (int ?n) b = (True, b1)" "pb_inv b1"
      "pb.bb_bytes b1 = drop ?n (pb.bb_bytes b)" "m_Buffer b1 = m_Buffer b"
      "m_WritePos b1 = m_WritePos b" "9 * m_BufferSize b1 = 9 * m_BufferSize b"
      using pb.skip_bytes [OF pi(1) le] by auto
    obtain b2 where b2: "PacketBuffer_Clear b1 = Inr b2" "pb_inv b2" "pb.bb_bytes b2 = pb.bb_bytes b1"
      "m_Buffer b2 = m_Buffer b1" "m_WritePos b2 \<le> m_WritePos b1"
      "9 * m_BufferSize b2 = 9 * m_BufferSize b1" "pb.bb_bytes b1 = [] \<Longrightarrow> m_WritePos b2 = 0"
      using pb.tidy_bytes [OF b1(2)] b1(5,6) calm pi(2) by auto
    have "SessionPacketBuffer_ProcessSessionBuffer (Some s) c
       = Some (Inr (c\<lparr>c_router := push_items u ?items (c_router c),
                     c_buffers := (c_buffers c)(u \<mapsto> b2)\<rparr>))"
      using x u(1) b pos run False b1(1) b2(1)
      by (auto simp: SessionPacketBuffer_ProcessSessionBuffer_def Let_def)
    with b1 b2 pi(2) bs(1) drp show thesis by (intro that [of b2]) auto
  qed
qed

text \<open>
  The step lemma of the stream: one chunk in, the complete packets queued, the rest kept.
\<close>

lemma RecvData_ok:
  assumes inv: "recv_inv c" and x: "c_heap c s = Some x" and u: "u = m_SessionUID x" "0 \<le> u"
    and chunk: "chunk \<noteq> []" and room: "recv_wpos c u + int (length chunk) \<le> 589824"
    and ns: "\<not> stalls (recv_pending c u @ chunk)"
  obtains c' where
    "NetworkHandler_RecvData (Some s) (Some chunk) (length chunk) c = Some (Inr c')"
    "recv_inv c'" "recv_pending c' u = leftover (recv_pending c u @ chunk)"
    "queued u (frames (recv_pending c u @ chunk)) c c'"
    "c_router c' = push_items u (frame_items u (u, recv_rpos c u) (frames (recv_pending c u @ chunk)))
                     (c_router c)"
    "recv_wpos c' u \<le> recv_wpos c u + int (length chunk)"
    "frames (recv_pending c u @ chunk) \<noteq> [] \<Longrightarrow> leftover (recv_pending c u @ chunk) = [] \<Longrightarrow>
       recv_wpos c' u = 0"
    "\<exists>m0. length m0 = 655360 \<and> recv_mem c' u = overwrite m0 (nat (recv_wpos c u)) chunk"
    "c_heap c' = c_heap c" "c_tasks c' = c_tasks c" "c_manager c' = c_manager c"
    "c_analyzer c' = IncrementRecvCnt (c_analyzer c)" "c_writes c' = c_writes c" "Core.more c' = Core.more c"
    "\<And>v. v \<noteq> u \<Longrightarrow> c_buffers c' v = c_buffers c v"
proof -
  let ?c1 = "c\<lparr>c_analyzer := IncrementRecvCnt (c_analyzer c)\<rparr>"
  let ?bs = "recv_pending c u @ chunk"
  have same: "recv_pending ?c1 u = recv_pending c u" "recv_wpos ?c1 u = recv_wpos c u"
    "recv_rpos ?c1 u = recv_rpos c u"
    "recv_inv ?c1" "c_heap ?c1 s = Some x" "c_buffers ?c1 = c_buffers c"
    using inv x by (simp_all add: recv_pending_def recv_wpos_def recv_rpos_def recv_inv_def)
  obtain b where b: "SessionPacketBuffer_AddData (Some s) (Some chunk) (length chunk) ?c1
       = Inr (?c1\<lparr>c_buffers := (c_buffers c)(u \<mapsto> b)\<rparr>)"
    "pb_inv b" "m_BufferSize b = 65536" "pb.bb_bytes b = ?bs"
    "m_WritePos b = recv_wpos c u + int (length chunk)" "m_ReadPos b = recv_rpos c u"
    "\<exists>m0. length m0 = 655360 \<and> m_Buffer b = overwrite m0 (nat (recv_wpos c u)) chunk"
    using AddData_ok [OF same(4,5) u(1) chunk] same room by auto
  let ?c2 = "?c1\<lparr>c_buffers := (c_buffers c)(u \<mapsto> b)\<rparr>"
  have inv2: "recv_inv ?c2" using inv b by (auto simp: recv_inv_def)
  obtain b' where b': "SessionPacketBuffer_ProcessSessionBuffer (Some s) ?c2
       = Some (Inr (?c2\<lparr>c_router := push_items u (frame_items u (u, m_ReadPos b) (frames ?bs)) (c_router ?c2),
                     c_buffers := (c_buffers ?c2)(u \<mapsto> b')\<rparr>))"
    "pb_inv b'" "m_BufferSize b' = 65536" "pb.bb_bytes b' = leftover ?bs" "m_Buffer b' = m_Buffer b"
    "m_WritePos b' \<le> m_WritePos b" "frames ?bs \<noteq> [] \<Longrightarrow> leftover ?bs = [] \<Longrightarrow> m_WritePos b' = 0"
    using ProcessSessionBuffer_ok [OF inv2 _ u, of s b ?bs] x b room chunk ns by auto
  let ?items = "frame_items u (u, m_ReadPos b) (frames ?bs)"
  let ?c3 = "?c2\<lparr>c_router := push_items u ?items (c_router ?c2), c_buffers := (c_buffers ?c2)(u \<mapsto> b')\<rparr>"
  have "NetworkHandler_RecvData (Some s) (Some chunk) (length chunk) c = Some (Inr ?c3)"
    using chunk b(1) b'(1) by (simp add: NetworkHandler_RecvData_def Let_def)
  moreover have "recv_inv ?c3" using inv b' by (auto simp: recv_inv_def)
  moreover have "queued u (frames ?bs) c ?c3"
  proof -
    have I: "0 \<le> m_ReadPos b" using pb_invD [OF b(2)] by simp
    have "nat (m_ReadPos b) \<le> nat (m_WritePos b)" using pb_invD [OF b(2)] by simp
    then have "drop (nat (m_ReadPos b)) (m_Buffer b) = ?bs @ drop (nat (m_WritePos b)) (m_Buffer b)"
      using drop_between_append [of _ _ "m_Buffer b"] b(4) by (simp add: pb.bb_bytes_def)
    then have "drop (nat (m_ReadPos b)) (m_Buffer b)
        = concat (frames ?bs) @ (leftover ?bs @ drop (nat (m_WritePos b)) (m_Buffer b))"
      by (metis append_assoc concat_frames)
    then have "map (mem_item (m_Buffer b)) ?items = frames ?bs"
      using I by (intro frame_items_bytes) auto
    moreover have "map (item_bytes ?c3) ?items = map (mem_item (m_Buffer b)) ?items"
      using b'(5) frame_items_key [of _ u "(u, m_ReadPos b)"]
      by (intro map_cong) (auto simp: item_bytes_def mem_item_def recv_mem_def)
    ultimately show ?thesis
      using frame_items_session [of _ u "(u, m_ReadPos b)"]
      by (auto simp: queued_def frame_items_lens intro!: exI [of _ ?items])
  qed
  moreover have "recv_pending ?c3 u = leftover ?bs" using b' by (simp add: recv_pending_def)
  moreover have "recv_wpos ?c3 u \<le> recv_wpos c u + int (length chunk)"
    using b'(6) b(5) by (simp add: recv_wpos_def)
  moreover have "\<exists>m0. length m0 = 655360 \<and> recv_mem ?c3 u = overwrite m0 (nat (recv_wpos c u)) chunk"
    using b'(5) b(7) by (simp add: recv_mem_def)
  moreover have "frames ?bs \<noteq> [] \<Longrightarrow> leftover ?bs = [] \<Longrightarrow> recv_wpos ?c3 u = 0"
    using b'(7) by (simp add: recv_wpos_def)
  ultimately show thesis using b(6) by (intro that [of ?c3]) auto
qed

end
