(* ===== verification/Receive_Stream.thy ===== *)
theory Receive_Stream
  imports Receive_Path
begin

text \<open>
  The receive path over whole byte streams. \<open>reads\<close> runs the completion handler for one
  chunk after the other and logs, after each, the bytes that the newly queued items point
  at: the packets as the server saw them when it queued them.
\<close>

definition sess_ready :: "('s, 'z) Core_scheme \<Rightarrow> session_ptr \<Rightarrow> bool" where
  "sess_ready c s \<longleftrightarrow>
     (case c_heap c s of
        None \<Rightarrow> False
      | Some x \<Rightarrow> m_Socket x \<noteq> None \<and> pb_inv (m_PacketBuffer x) \<and> pb_empty (m_PacketBuffer x)
          \<and> m_BufferSize (m_PacketBuffer x) = 65536 \<and> 0 \<le> m_SessionUID x)"

lemma sess_readyE:
  assumes "sess_ready c s"
  obtains x where "c_heap c s = Some x" "m_Socket x \<noteq> None" "pb_inv (m_PacketBuffer x)"
    "pb_empty (m_PacketBuffer x)" "m_BufferSize (m_PacketBuffer x) = 65536" "0 \<le> m_SessionUID x"
    "uid_of c s = m_SessionUID x"
  using assms by (auto simp: sess_ready_def uid_of_def split: option.splits)

lemma recv_upd_sess [simp]:
  "recv_inv (upd_sess s f c) = recv_inv c" "recv_pending (upd_sess s f c) u = recv_pending c u"
  "recv_wpos (upd_sess s f c) u = recv_wpos c u" "recv_rpos (upd_sess s f c) u = recv_rpos c u"
  "recv_mem (upd_sess s f c) u = recv_mem c u"
  by (simp_all add: recv_inv_def recv_pending_def recv_wpos_def recv_rpos_def recv_mem_def)

lemma recv_analyzer [simp]:
  "recv_inv (c\<lparr>c_analyzer := a\<rparr>) = recv_inv c"
  "recv_pending (c\<lparr>c_analyzer := a\<rparr>) u = recv_pending c u"
  "recv_wpos (c\<lparr>c_analyzer := a\<rparr>) u = recv_wpos c u"
  "recv_mem (c\<lparr>c_analyzer := a\<rparr>) u = recv_mem c u"
  by (simp_all add: recv_inv_def recv_pending_def recv_wpos_def recv_mem_def)

lemma queued_cong:
  "queued u fs c c' \<Longrightarrow> c_router d = c_router c \<Longrightarrow> c_router d' = c_router c' \<Longrightarrow>
   (\<And>v. recv_mem d' v = recv_mem c' v) \<Longrightarrow> queued u fs d d'"
  unfolding queued_def by (auto simp: item_bytes_def cong: map_cong)

text \<open>The session's own buffer is a pass-through: filled, copied out whole, and empty again.\<close>

definition own_filled :: "byte list \<Rightarrow> PacketBuffer \<Rightarrow> PacketBuffer" where
  "own_filled chunk b = b\<lparr>m_Buffer := overwrite (m_Buffer b) 0 chunk, m_WritePos := int (length chunk)\<rparr>"

lemma own_buffer_pass:
  assumes b: "pb_inv b" "pb_empty b" "m_BufferSize b = 65536" and n: "length chunk \<le> 655360" "chunk \<noteq> []"
  shows "memcpy (m_Buffer b) (m_WritePos b) chunk (int (length chunk)) = Inr (overwrite (m_Buffer b) 0 chunk)"
    "PacketBuffer_OnWrite (int (length chunk)) (b\<lparr>m_Buffer := overwrite (m_Buffer b) 0 chunk\<rparr>)
       = (True, own_filled chunk b)"
    "PacketBuffer_ReadPos (own_filled chunk b) = Inr 0"
    "PacketBuffer_DataSize (own_filled chunk b) = int (length chunk)"
    "take (length chunk) (m_Buffer (own_filled chunk b)) = chunk"
    "PacketBuffer_OnRead (int (length chunk)) (own_filled chunk b)
       = (True, (own_filled chunk b)\<lparr>m_ReadPos := int (length chunk)\<rparr>)"
    "PacketBuffer_Clear ((own_filled chunk b)\<lparr>m_ReadPos := int (length chunk)\<rparr>)
       = Inr ((own_filled chunk b)\<lparr>m_WritePos := 0\<rparr>)"
    "pb_inv ((own_filled chunk b)\<lparr>m_WritePos := 0\<rparr>)"
proof -
  note I = pb_invD [OF b(1)]
  have e: "m_ReadPos b = 0" "m_WritePos b = 0" using b(2) by (auto simp: pb_empty_def)
  have len: "length (m_Buffer b) = 655360" "m_Capacity b = 655360" using I b(3) by auto
  show "memcpy (m_Buffer b) (m_WritePos b) chunk (int (length chunk)) = Inr (overwrite (m_Buffer b) 0 chunk)"
    using n e len by (simp add: memcpy_def)
  show "PacketBuffer_OnWrite (int (length chunk)) (b\<lparr>m_Buffer := overwrite (m_Buffer b) 0 chunk\<rparr>)
       = (True, own_filled chunk b)"
    using n e len
    by (simp add: PacketBuffer_OnWrite_def PacketBuffer_FreeSize_def i32_id own_filled_def)
  show "PacketBuffer_ReadPos (own_filled chunk b) = Inr 0"
    using n e len by (simp add: PacketBuffer_ReadPos_def own_filled_def subscript_def in_vec_def)
  show "PacketBuffer_DataSize (own_filled chunk b) = int (length chunk)"
    using n e by (simp add: PacketBuffer_DataSize_def own_filled_def i32_id)
  show "take (length chunk) (m_Buffer (own_filled chunk b)) = chunk"
    by (simp add: own_filled_def overwrite_def)
  show "PacketBuffer_OnRead (int (length chunk)) (own_filled chunk b)
       = (True, (own_filled chunk b)\<lparr>m_ReadPos := int (length chunk)\<rparr>)"
    using n e by (simp add: PacketBuffer_OnRead_def PacketBuffer_DataSize_def own_filled_def i32_id)
  show "PacketBuffer_Clear ((own_filled chunk b)\<lparr>m_ReadPos := int (length chunk)\<rparr>)
       = Inr ((own_filled chunk b)\<lparr>m_WritePos := 0\<rparr>)"
    using n e by (simp add: PacketBuffer_Clear_def PacketBuffer_DataSize_def own_filled_def i32_id)
  show "pb_inv ((own_filled chunk b)\<lparr>m_WritePos := 0\<rparr>)"
    using n e len b(1,3) by (simp add: pb_inv_def own_filled_def)
qed

text \<open>What a read leaves alone: all but the buffer and the read flag of the session, and the receive path.\<close>

definition read_frame :: "session_ptr \<Rightarrow> ('s, 'z) Core_scheme \<Rightarrow> ('s, 'z) Core_scheme \<Rightarrow> bool" where
  "read_frame s c c' \<longleftrightarrow> c_manager c' = c_manager c \<and> c_writes c' = c_writes c \<and> Core.more c' = Core.more c
     \<and> (\<exists>x b. c_heap c s = Some x \<and> c_heap c' = (c_heap c)(s \<mapsto> x\<lparr>m_PacketBuffer := b, m_ReadPending := True\<rparr>))"

lemma upd_sess_more [simp]: "Core.more (upd_sess s f c) = Core.more c"
  by (simp add: upd_sess_def)

lemma read_completes_ok:
  assumes ready: "sess_ready c s" and inv: "recv_inv c" and u: "u = uid_of c s"
    and chunk: "chunk \<noteq> []" and room: "0 \<le> recv_wpos c u" "recv_wpos c u + int (length chunk) \<le> 589824"
    and ns: "\<not> stalls (recv_pending c u @ chunk)"
  obtains c' where
    "read_completes chunk s c = Some (Inr c')" "sess_ready c' s" "uid_of c' s = u" "recv_inv c'"
    "recv_pending c' u = leftover (recv_pending c u @ chunk)"
    "queued u (frames (recv_pending c u @ chunk)) c c'"
    "c_router c' = push_items u (frame_items u (u, recv_rpos c u) (frames (recv_pending c u @ chunk)))
                     (c_router c)"
    "recv_wpos c' u \<le> recv_wpos c u + int (length chunk)"
    "frames (recv_pending c u @ chunk) \<noteq> [] \<Longrightarrow> leftover (recv_pending c u @ chunk) = [] \<Longrightarrow>
       recv_wpos c' u = 0"
    "\<exists>m0. length m0 = 655360 \<and> recv_mem c' u = overwrite m0 (nat (recv_wpos c u)) chunk"
    "c_tasks c' = c_tasks c" "\<And>v. v \<noteq> u \<Longrightarrow> c_buffers c' v = c_buffers c v"
    "read_frame s c c'"
proof -
  obtain x where x: "c_heap c s = Some x" "m_Socket x \<noteq> None" "pb_inv (m_PacketBuffer x)"
    "pb_empty (m_PacketBuffer x)" "m_BufferSize (m_PacketBuffer x) = 65536" "0 \<le> m_SessionUID x"
    "u = m_SessionUID x"
    using ready u by (auto elim: sess_readyE)
  let ?b = "m_PacketBuffer x"
  let ?n = "int (length chunk)"
  have n: "length chunk \<le> 655360" using room by simp
  note P = own_buffer_pass [OF x(3-5) n chunk]
  let ?ca = "upd_sess s (\<lambda>y. y\<lparr>m_PacketBuffer := (m_PacketBuffer y)\<lparr>m_Buffer := overwrite (m_Buffer ?b) 0 chunk\<rparr>,
                              m_ReadPending := False\<rparr>) c"
  let ?cb = "upd_sess s (\<lambda>y. y\<lparr>m_PacketBuffer := own_filled chunk ?b\<rparr>) ?ca"
  let ?xb = "x\<lparr>m_PacketBuffer := own_filled chunk ?b, m_ReadPending := False\<rparr>"
  have xb: "c_heap ?cb s = Some ?xb" using x(1) by simp
  have pre: "recv_inv ?cb" "u = m_SessionUID ?xb" "0 \<le> u"
    "recv_wpos ?cb u + int (length chunk) \<le> 589824" "\<not> stalls (recv_pending ?cb u @ chunk)"
    using inv x room ns by simp_all
  define cb where "cb = ?cb"
  have cb: "c_heap cb s = Some ?xb" "recv_inv cb" "recv_pending cb u = recv_pending c u"
    "recv_wpos cb u = recv_wpos c u" "recv_rpos cb u = recv_rpos c u" "c_router cb = c_router c"
    "c_tasks cb = c_tasks c" "c_buffers cb = c_buffers c" "u = m_SessionUID ?xb" "0 \<le> u"
    "c_heap cb = c_heap ?cb"
    using xb inv x(6,7) by (simp_all add: cb_def)
  have rm: "recv_wpos cb u + int (length chunk) \<le> 589824" "\<not> stalls (recv_pending cb u @ chunk)"
    using room ns by (simp_all add: cb(3,4))
  obtain c2 where c2: "NetworkHandler_RecvData (Some s) (Some chunk) (length chunk) cb = Some (Inr c2)"
    "recv_inv c2" "recv_pending c2 u = leftover (recv_pending cb u @ chunk)"
    "queued u (frames (recv_pending cb u @ chunk)) cb c2"
    "c_router c2 = push_items u (frame_items u (u, recv_rpos cb u) (frames (recv_pending cb u @ chunk)))
                     (c_router cb)"
    "recv_wpos c2 u \<le> recv_wpos cb u + int (length chunk)"
    "frames (recv_pending cb u @ chunk) \<noteq> [] \<Longrightarrow> leftover (recv_pending cb u @ chunk) = [] \<Longrightarrow>
       recv_wpos c2 u = 0"
    "\<exists>m0. length m0 = 655360 \<and> recv_mem c2 u = overwrite m0 (nat (recv_wpos cb u)) chunk"
    "c_heap c2 = c_heap cb" "c_tasks c2 = c_tasks cb"
    "c_manager c2 = c_manager cb" "c_writes c2 = c_writes cb" "Core.more c2 = Core.more cb"
    "\<And>v. v \<noteq> u \<Longrightarrow> c_buffers c2 v = c_buffers cb v"
    by (rule RecvData_ok [OF cb(2,1,9,10) chunk rm]) blast
  note c2 = c2 [unfolded cb(3-8)]
  let ?b3 = "(own_filled chunk ?b)\<lparr>m_WritePos := 0\<rparr>"
  let ?c3 = "upd_sess s (\<lambda>z. z\<lparr>m_PacketBuffer := ?b3\<rparr>) c2"
  let ?c4 = "upd_sess s (\<lambda>y. y\<lparr>m_ReadPending := True\<rparr>)
               (?c3\<lparr>c_analyzer := ResetRecvCount (c_analyzer ?c3)\<rparr>)"
  have heap2: "c_heap c2 s = Some ?xb" using c2(9) cb(1) by simp
  have do_read: "AsioSession_DoRead s ?c3 = Inr ?c4"
  proof -
    have "PacketBuffer_WritePos ?b3 = Inr 0"
      using pb_invD [OF P(8)] x(5)
      by (simp add: PacketBuffer_WritePos_def subscript_def in_vec_def own_filled_def)
    then show ?thesis
      using heap2 x(2) by (auto simp: AsioSession_DoRead_def Let_def)
  qed
  have run: "read_completes chunk s c = Some (Inr ?c4)"
  proof -
    have "read_completes chunk s c = AsioSession_HandleRead Read_ok ?n s ?ca"
      using x(1) P(1) by (simp add: read_completes_def)
    also have "\<dots> = Some (AsioSession_DoRead s ?c3)"
      using x(1) P(2-7) c2(1) [unfolded cb_def] heap2
      by (simp add: AsioSession_HandleRead_def Let_def)
    finally show ?thesis using do_read by simp
  qed
  have heap4: "c_heap ?c4 s = Some (x\<lparr>m_PacketBuffer := ?b3, m_ReadPending := True\<rparr>)"
    using heap2 by simp
  have "pb_empty ?b3" using x(4) by (simp add: pb_empty_def own_filled_def)
  then have ready4: "sess_ready ?c4 s" "uid_of ?c4 s = u"
    using heap4 x(2,5-7) P(8) by (simp_all add: sess_ready_def uid_of_def own_filled_def del: upd_sess_fields(11))
  have q4: "queued u (frames (recv_pending c u @ chunk)) c ?c4"
    by (rule queued_cong [OF c2(4)]) (simp_all add: cb(6))
  have frame: "read_frame s c ?c4"
  proof -
    have "c_heap ?c4 = (c_heap c)(s \<mapsto> x\<lparr>m_PacketBuffer := ?b3, m_ReadPending := True\<rparr>)"
      using heap4 c2(9) by (auto simp: cb_def fun_eq_iff)
    then show ?thesis
      using x(1) c2(11-13) by (auto simp: read_frame_def cb_def simp del: upd_sess_fields(11))
  qed
  show thesis
    using run ready4 q4 c2 frame by (intro that [of ?c4]) auto
qed

section \<open>Streams\<close>

fun reads :: "session_ptr \<Rightarrow> byte list list \<Rightarrow> ('s, 'z) Core_scheme \<Rightarrow> (byte list list \<times> ('s, 'z) Core_scheme) run" where
  "reads s [] c = Some (Inr ([], c))"
| "reads s (ch # chs) c =
     bindO (read_completes ch s c) (\<lambda>c1.
       let w = worker_of (c_router c) (uid_of c s);
           new = drop (length (wk_backlog w (c_router c))) (wk_backlog w (c_router c1))
       in bindO (reads s chs c1) (\<lambda>(log, c2). Some (Inr (map (item_bytes c1) new @ log, c2))))"

lemma new_items:
  assumes "router_inv r" "r_IsRunning r"
  shows "drop (length (wk_backlog (worker_of r u) r)) (wk_backlog (worker_of r u) (push_items u items r)) = items"
  using worker_of_less [OF assms, of u] assms
  by (simp add: wk_backlog_def push_items_def queue_router_push)

lemma recv_wpos_nonneg: "recv_inv c \<Longrightarrow> 0 \<le> recv_wpos c u"
  using pb_invD by (fastforce simp: recv_inv_def recv_wpos_def split: option.split)

lemma reads_ok:
  assumes "sess_ready c s" "recv_inv c" "u = uid_of c s" "r_IsRunning (c_router c)"
    "\<forall>ch \<in> set chunks. ch \<noteq> []" "\<not> frame_ready (recv_pending c u)"
    "recv_wpos c u + int (length (concat chunks)) \<le> 589824"
    "\<not> stalls (recv_pending c u @ concat chunks)"
  shows "\<exists>c'. reads s chunks c = Some (Inr (frames (recv_pending c u @ concat chunks), c'))
    \<and> sess_ready c' s \<and> recv_inv c' \<and> recv_pending c' u = leftover (recv_pending c u @ concat chunks)
    \<and> c_tasks c' = c_tasks c"
  using assms
proof (induction chunks arbitrary: c)
  case Nil
  then show ?case by (simp add: frames_stop)
next
  case (Cons ch chs)
  let ?p = "recv_pending c u"
  have ch: "ch \<noteq> []" using Cons.prems by simp
  have ns: "\<not> stalls ((?p @ ch) @ concat chs)" using Cons.prems by simp
  then have ns1: "\<not> stalls (?p @ ch)" by (rule not_stalls_prefix)
  have w: "0 \<le> recv_wpos c u" using recv_wpos_nonneg Cons.prems by blast
  have room: "recv_wpos c u + int (length ch) \<le> 589824" using Cons.prems by simp
  obtain c1 where c1: "read_completes ch s c = Some (Inr c1)" "sess_ready c1 s" "uid_of c1 s = u"
    "recv_inv c1" "recv_pending c1 u = leftover (?p @ ch)" "queued u (frames (?p @ ch)) c c1"
    "c_router c1 = push_items u (frame_items u (u, recv_rpos c u) (frames (?p @ ch))) (c_router c)"
    "recv_wpos c1 u \<le> recv_wpos c u + int (length ch)" "c_tasks c1 = c_tasks c"
    by (rule read_completes_ok [OF Cons.prems(1,2,3) ch w room ns1]) blast
  obtain items where items: "c_router c1 = push_items u items (c_router c)"
    "map (item_bytes c1) items = frames (?p @ ch)"
    using c1(6) by (auto simp: queued_def)
  have ri: "router_inv (c_router c)" using Cons.prems by (simp add: recv_inv_def)
  let ?w = "worker_of (c_router c) (uid_of c s)"
  have new: "drop (length (wk_backlog ?w (c_router c))) (wk_backlog ?w (c_router c1)) = items"
    unfolding items(1) using Cons.prems(3) new_items [OF ri Cons.prems(4), of u items] by simp
  have run1: "r_IsRunning (c_router c1)" using items(1) Cons.prems(4) by simp
  have nr: "\<not> frame_ready (recv_pending c1 u)" using leftover_not_ready [OF ns1] c1(5) by simp
  note ap = frames_append [OF ns1, of "concat chs"]
  obtain c2 where c2: "reads s chs c1 = Some (Inr (frames (recv_pending c1 u @ concat chs), c2))"
    "sess_ready c2 s" "recv_inv c2" "recv_pending c2 u = leftover (recv_pending c1 u @ concat chs)"
    "c_tasks c2 = c_tasks c1"
    using Cons.IH [OF c1(2,4) c1(3) [symmetric] run1 _ nr] Cons.prems(5,7) c1(5,8) ns ap
    by auto
  have "reads s (ch # chs) c = Some (Inr (frames (?p @ concat (ch # chs)), c2))"
    using c1(1) new items(2) c2(1) ap c1(5) by (simp add: Let_def)
  then show ?case using c2 ap c1(5,9) by auto
qed

section \<open>A packet that is still queued\<close>

text \<open>
  The queue item points into the receive buffer. When the packets of a chunk end with it,
  the buffer is rewound, and the next chunk lands on the same bytes.
\<close>

lemma queued_overwritten:
  assumes ready: "sess_ready c s" and inv: "recv_inv c" and run: "r_IsRunning (c_router c)"
    and u: "u = uid_of c s" and start: "recv_wpos c u = 0"
    and f: "is_packet f" and g: "is_packet g" "length g = length f" "length f \<le> 65536"
  obtains c1 c2 it where
    "read_completes f s c = Some (Inr c1)" "read_completes g s c1 = Some (Inr c2)"
    "wk_backlog (worker_of (c_router c) u) (c_router c2) = wk_backlog (worker_of (c_router c) u) (c_router c) @ [it, it]"
    "item_bytes c1 it = f" "item_bytes c2 it = g"
proof -
  have rpos: "recv_rpos d u = 0 \<and> recv_pending d u = []" if "recv_inv d" "recv_wpos d u = 0" for d
    using that pb_invD
    by (fastforce simp: recv_inv_def recv_wpos_def recv_rpos_def recv_pending_def pb.bb_bytes_def split: option.splits)
  have fr: "frames p = [p]" "leftover p = []" "\<not> stalls p" if "is_packet p" for p
    using frames_packet [OF that, of "[]"] frames_stop [of "[]"] by (simp_all add: frame_ready_def)
  have ne: "f \<noteq> []" "g \<noteq> []" using f g by (auto simp: is_packet_def)
  let ?it = "PacketQueueItem_of u (u, 0) (int (length f))"
  have P0: "recv_rpos c u = 0" "recv_pending c u = []" using rpos [OF inv start] by auto
  have pre0: "0 \<le> recv_wpos c u" "recv_wpos c u + int (length f) \<le> 589824" "\<not> stalls (recv_pending c u @ f)"
    using start g(3) P0 fr(3) [OF f] by simp_all
  obtain c1 where c1: "read_completes f s c = Some (Inr c1)" "sess_ready c1 s" "uid_of c1 s = u" "recv_inv c1"
    "c_router c1 = push_items u (frame_items u (u, recv_rpos c u) (frames (recv_pending c u @ f))) (c_router c)"
    "frames (recv_pending c u @ f) \<noteq> [] \<Longrightarrow> leftover (recv_pending c u @ f) = [] \<Longrightarrow> recv_wpos c1 u = 0"
    "\<exists>m0. length m0 = 655360 \<and> recv_mem c1 u = overwrite m0 (nat (recv_wpos c u)) f"
    by (rule read_completes_ok [OF ready inv u ne(1) pre0]) blast
  have w1: "recv_wpos c1 u = 0" using c1(6) P0(2) fr(1,2) [OF f] by simp
  have P1: "recv_rpos c1 u = 0" "recv_pending c1 u = []" using rpos [OF c1(4) w1] by auto
  have pre1: "0 \<le> recv_wpos c1 u" "recv_wpos c1 u + int (length g) \<le> 589824" "\<not> stalls (recv_pending c1 u @ g)"
    using w1 g P1 fr(3) [OF g(1)] by simp_all
  obtain c2 where c2: "read_completes g s c1 = Some (Inr c2)"
    "c_router c2 = push_items u (frame_items u (u, recv_rpos c1 u) (frames (recv_pending c1 u @ g))) (c_router c1)"
    "\<exists>m0. length m0 = 655360 \<and> recv_mem c2 u = overwrite m0 (nat (recv_wpos c1 u)) g"
    by (rule read_completes_ok [OF c1(2,4) c1(3) [symmetric] ne(2) pre1]) blast
  have r1: "c_router c1 = push_items u [?it] (c_router c)"
    using c1(5) P0 fr(1) [OF f] by simp
  have r2: "c_router c2 = push_items u [?it] (c_router c1)"
    using c2(2) P1 fr(1) [OF g(1)] g(2) by simp
  have ri: "router_inv (c_router c)" using inv by (simp add: recv_inv_def)
  have "wk_backlog (worker_of (c_router c) u) (c_router c2)
      = wk_backlog (worker_of (c_router c) u) (c_router c) @ [?it, ?it]"
    unfolding r2 r1 push_items_append [OF ri]
    using worker_of_less [OF ri run, of u] run
    by (simp add: wk_backlog_def push_items_def queue_router_push)
  moreover have "item_bytes c1 ?it = f"
    using c1(7) start by (auto simp: item_bytes_def PacketQueueItem_of_def overwrite_def)
  moreover have "item_bytes c2 ?it = g"
    using c2(3) w1 g(2) by (auto simp: item_bytes_def PacketQueueItem_of_def overwrite_def)
  ultimately show thesis using c1(1) c2(1) by (intro that) auto
qed

end
