(* ===== verification/Chat_Room.thy ===== *)
theory Chat_Room
  imports Core_Types
begin

text \<open>
  \<^verbatim>\<open>GameServer/Player.h\<close>, \<^verbatim>\<open>ChatRoom.h\<close>, \<^verbatim>\<open>ChatRoom.cpp\<close>, \<^verbatim>\<open>ChatRoomManager.h\<close> and
  \<^verbatim>\<open>ChatRoomManager.cpp\<close>: players, rooms and the table of rooms.

  Players and rooms are shared objects: a room holds pointers to players, a handler changes
  a player after a room has stored it. A pointer is an index into a heap of objects that
  only grows; a pointer outside the heap is null. \<^verbatim>\<open>ChatRoom::BroadCast\<close>, which sends through
  sessions, is with the handlers.
\<close>

section \<open>Heap objects\<close>

type_synonym player_ptr = nat
type_synonym room_ptr = nat

definition deref :: "'a list \<Rightarrow> nat \<Rightarrow> 'a res" where
  "deref heap p = (if p < length heap then Inr (heap ! p) else Inl NullDeref)"

lemma deref_in [simp]: "p < length heap \<Longrightarrow> deref heap p = Inr (heap ! p)"
  by (simp add: deref_def)

lemma deref_Inr_iff: "deref heap p = Inr x \<longleftrightarrow> p < length heap \<and> x = heap ! p"
  by (auto simp: deref_def)

record Player =
  m_PlayerUID :: uint64
  m_Name :: "byte list"
  m_ChatRoomID :: uint16
  ownerSession :: "session_ptr option"

definition Player_new :: Player where
  "Player_new = \<lparr>m_PlayerUID = 0, m_Name = [], m_ChatRoomID = 0, ownerSession = None\<rparr>"

text \<open>
  \<open>cr_ChatRoom\<close> is the \<^verbatim>\<open>std::multimap\<close> from room id to player. \<^verbatim>\<open>m_MaxUser\<close> has no initialiser;
  \<^verbatim>\<open>make_shared\<close> zeroes the object.
\<close>

record ChatRoom =
  cr_ChatRoom :: "(uint16 \<times> player_ptr) list"
  m_RoomID :: uint16
  m_RoomName :: "byte list"
  m_MaxUser :: uint16

definition ChatRoom_new :: ChatRoom where
  "ChatRoom_new = \<lparr>cr_ChatRoom = [], m_RoomID = 0, m_RoomName = [], m_MaxUser = 0\<rparr>"

section \<open>Rooms\<close>

text \<open>
  \<^verbatim>\<open>StringToUTF8\<close> calls two Win32 conversions. Both work on C strings, so they see the bytes
  before the first NUL, and both report failure by the size 0. A failed second conversion
  asks for a string of size \<open>- 1\<close>.
\<close>

record Win32Text =
  acp_to_wide :: "byte list \<Rightarrow> uint16 list option"
  wide_to_utf8 :: "uint16 list \<Rightarrow> byte list option"

definition StringToUTF8 :: "Win32Text \<Rightarrow> byte list \<Rightarrow> byte list res" where
  "StringToUTF8 win wstr =
     (let wideStr = (case acp_to_wide win (takeWhile (\<lambda>b. b \<noteq> 0) wstr) of None \<Rightarrow> [] | Some w \<Rightarrow> w)
      in case wide_to_utf8 win (takeWhile (\<lambda>b. b \<noteq> 0) wideStr) of
           None \<Rightarrow> Inl LengthError
         | Some utf8Str \<Rightarrow> Inr utf8Str)"

definition ChatRoom_Enter :: "Player list \<Rightarrow> player_ptr \<Rightarrow> ChatRoom \<Rightarrow> ChatRoom res" where
  "ChatRoom_Enter players player room =
     bindR (deref players player) (\<lambda>p.
       Inr (room\<lparr>cr_ChatRoom := mmap_emplace (m_ChatRoomID p) player (cr_ChatRoom room)\<rparr>))"

definition ChatRoom_Leave :: "Player list \<Rightarrow> player_ptr \<Rightarrow> ChatRoom \<Rightarrow> ChatRoom res" where
  "ChatRoom_Leave players player room =
     bindR (deref players player) (\<lambda>p.
       Inr (room\<lparr>cr_ChatRoom := omap_erase (m_ChatRoomID p) (cr_ChatRoom room)\<rparr>))"

definition ChatRoom_SetRoomInfo ::
    "Win32Text \<Rightarrow> uint16 \<Rightarrow> byte list \<Rightarrow> uint16 \<Rightarrow> ChatRoom \<Rightarrow> ChatRoom res" where
  "ChatRoom_SetRoomInfo win roomID roomName maxUser room =
     bindR (StringToUTF8 win roomName) (\<lambda>name.
       Inr (room\<lparr>m_RoomID := roomID, m_RoomName := name, m_MaxUser := maxUser\<rparr>))"

definition ChatRoom_GetCurrentUser :: "ChatRoom \<Rightarrow> uint16" where
  "ChatRoom_GetCurrentUser room = of_nat (length (cr_ChatRoom room))"

definition ChatRoom_GetChatRoom :: "ChatRoom \<Rightarrow> (uint16 \<times> player_ptr) list" where
  "ChatRoom_GetChatRoom room = cr_ChatRoom room"

text \<open>The players in a room, in the order a broadcast visits them.\<close>

definition members :: "ChatRoom \<Rightarrow> player_ptr list" where
  "members room = map snd (cr_ChatRoom room)"

lemma members_Enter:
  assumes "player < length players"
  obtains room' where "ChatRoom_Enter players player room = Inr room'"
    "set (members room') = insert player (set (members room))"
    "length (members room') = Suc (length (members room))"
    "mmap_inv (cr_ChatRoom room) \<Longrightarrow> mmap_inv (cr_ChatRoom room')"
    "m_RoomID room' = m_RoomID room" "m_RoomName room' = m_RoomName room"
    "m_MaxUser room' = m_MaxUser room"
    "cr_ChatRoom room' = mmap_emplace (m_ChatRoomID (players ! player)) player (cr_ChatRoom room)"
  using assms
  by (intro that [of "room\<lparr>cr_ChatRoom :=
          mmap_emplace (m_ChatRoomID (players ! player)) player (cr_ChatRoom room)\<rparr>"])
    (auto simp: ChatRoom_Enter_def members_def set_mmap_emplace mmap_inv_emplace)

text \<open>
  \<^verbatim>\<open>Leave\<close> erases by key: everybody who entered under the same room id goes, and a player
  whose id changed after entering stays.
\<close>

lemma members_Leave:
  assumes "player < length players"
  shows "\<exists>room'. ChatRoom_Leave players player room = Inr room'
    \<and> set (members room') = {p. \<exists>k. (k, p) \<in> set (cr_ChatRoom room) \<and> k \<noteq> m_ChatRoomID (players ! player)}"
  using assms by (force simp: ChatRoom_Leave_def members_def omap_erase_def)

section \<open>The table of rooms\<close>

record ChatRoomManager =
  rm_ChatRoom :: "(uint16 \<times> room_ptr) list"
  roomNumber :: uint16

definition ChatRoomManager_new :: ChatRoomManager where
  "ChatRoomManager_new = \<lparr>rm_ChatRoom = [], roomNumber = 0\<rparr>"

text \<open>The second component of the state is the heap of rooms; the result is the new room.\<close>

definition ChatRoomManager_CreateRoom ::
    "Win32Text \<Rightarrow> byte list \<Rightarrow> uint16 \<Rightarrow> ChatRoomManager \<times> ChatRoom list
       \<Rightarrow> (room_ptr \<times> ChatRoomManager \<times> ChatRoom list) res" where
  "ChatRoomManager_CreateRoom win name maxUser st =
     (let (m, rooms) = st;
          m1 = m\<lparr>roomNumber := roomNumber m + 1\<rparr>;
          chatRoom = length rooms
      in bindR (ChatRoom_SetRoomInfo win (roomNumber m1) name maxUser ChatRoom_new) (\<lambda>room.
         Inr (chatRoom, m1\<lparr>rm_ChatRoom := omap_put (roomNumber m1) chatRoom (rm_ChatRoom m1)\<rparr>,
              rooms @ [room])))"

definition ChatRoomManager_RemoveRoom :: "uint16 \<Rightarrow> ChatRoomManager \<Rightarrow> ChatRoomManager" where
  "ChatRoomManager_RemoveRoom roomID m = m\<lparr>rm_ChatRoom := omap_erase roomID (rm_ChatRoom m)\<rparr>"

definition ChatRoomManager_GetRoom :: "uint16 \<Rightarrow> ChatRoomManager \<Rightarrow> room_ptr option" where
  "ChatRoomManager_GetRoom roomID m = map_of (rm_ChatRoom m) roomID"

definition ChatRoomManager_GetAllRoom :: "ChatRoomManager \<Rightarrow> (uint16 \<times> room_ptr) list" where
  "ChatRoomManager_GetAllRoom m = rm_ChatRoom m"

text \<open>
  The table is sorted by id, every entry points at a room of the heap, and that room carries
  the id it is filed under.
\<close>

definition rooms_inv :: "ChatRoomManager \<Rightarrow> ChatRoom list \<Rightarrow> bool" where
  "rooms_inv m rooms \<longleftrightarrow> omap_inv (rm_ChatRoom m)
     \<and> (\<forall>i r. map_of (rm_ChatRoom m) i = Some r \<longrightarrow> r < length rooms \<and> m_RoomID (rooms ! r) = i)"

lemma rooms_inv_new [simp]: "rooms_inv ChatRoomManager_new rooms"
  by (simp add: rooms_inv_def ChatRoomManager_new_def omap_inv_def)

lemma CreateRoom_ok:
  assumes "rooms_inv m rooms" "StringToUTF8 win name = Inr utf8"
  obtains m' where
    "ChatRoomManager_CreateRoom win name maxUser (m, rooms) =
       Inr (length rooms, m', rooms @ [\<lparr>cr_ChatRoom = [], m_RoomID = roomNumber m + 1,
                                        m_RoomName = utf8, m_MaxUser = maxUser\<rparr>])"
    "rooms_inv m' (rooms @ [\<lparr>cr_ChatRoom = [], m_RoomID = roomNumber m + 1,
                              m_RoomName = utf8, m_MaxUser = maxUser\<rparr>])"
    "roomNumber m' = roomNumber m + 1"
    "\<And>i. ChatRoomManager_GetRoom i m' =
       (if i = roomNumber m + 1 then Some (length rooms) else ChatRoomManager_GetRoom i m)"
    "rm_ChatRoom m' = omap_put (roomNumber m + 1) (length rooms) (rm_ChatRoom m)"
proof (rule that)
  let ?m = "m\<lparr>roomNumber := roomNumber m + 1,
              rm_ChatRoom := omap_put (roomNumber m + 1) (length rooms) (rm_ChatRoom m)\<rparr>"
  show "ChatRoomManager_CreateRoom win name maxUser (m, rooms) =
       Inr (length rooms, ?m, rooms @ [\<lparr>cr_ChatRoom = [], m_RoomID = roomNumber m + 1,
                                        m_RoomName = utf8, m_MaxUser = maxUser\<rparr>])"
    using assms(2)
    by (simp add: ChatRoomManager_CreateRoom_def ChatRoom_SetRoomInfo_def ChatRoom_new_def Let_def)
  show "rooms_inv ?m (rooms @ [\<lparr>cr_ChatRoom = [], m_RoomID = roomNumber m + 1,
                              m_RoomName = utf8, m_MaxUser = maxUser\<rparr>])"
    using assms(1)
    by (auto simp: rooms_inv_def std_map.find_put std_map.inv_put nth_append less_Suc_eq)
  show "ChatRoomManager_GetRoom i ?m =
       (if i = roomNumber m + 1 then Some (length rooms) else ChatRoomManager_GetRoom i m)" for i
    using assms(1) by (simp add: ChatRoomManager_GetRoom_def rooms_inv_def std_map.find_put)
qed simp_all

lemma rooms_inv_Remove: "rooms_inv m rooms \<Longrightarrow> rooms_inv (ChatRoomManager_RemoveRoom i m) rooms"
  by (auto simp: rooms_inv_def ChatRoomManager_RemoveRoom_def std_map.find_erase std_map.inv_erase)

text \<open>Changing a room other than its id keeps the invariant.\<close>

lemma rooms_inv_update:
  "rooms_inv m rooms \<Longrightarrow> m_RoomID room = m_RoomID (rooms ! r) \<Longrightarrow> rooms_inv m (rooms[r := room])"
  unfolding rooms_inv_def by (metis length_list_update nth_list_update nth_list_update_neq)

text \<open>Creating rooms one after the other, from an empty table.\<close>

fun create_rooms :: "Win32Text \<Rightarrow> byte list list \<Rightarrow> ChatRoomManager \<times> ChatRoom list
    \<Rightarrow> (ChatRoomManager \<times> ChatRoom list) res" where
  "create_rooms win [] st = Inr st"
| "create_rooms win (n # ns) st =
     bindR (ChatRoomManager_CreateRoom win n 10 st) (\<lambda>(r, st'). create_rooms win ns st')"

lemma create_rooms_ok:
  assumes "rooms_inv m rooms" "\<forall>n \<in> set ns. \<exists>u. StringToUTF8 win n = Inr u"
  shows "\<exists>m' rooms'. create_rooms win ns (m, rooms) = Inr (m', rooms') \<and> rooms_inv m' rooms'
    \<and> length rooms' = length rooms + length ns
    \<and> roomNumber m' = roomNumber m + of_nat (length ns)
    \<and> (length ns < 65536 \<longrightarrow> (\<forall>k < length ns. ChatRoomManager_GetRoom (roomNumber m + of_nat (Suc k)) m'
          = Some (length rooms + k)))
    \<and> (\<forall>i. (\<forall>k < length ns. i \<noteq> roomNumber m + of_nat (Suc k)) \<longrightarrow>
          ChatRoomManager_GetRoom i m' = ChatRoomManager_GetRoom i m)"
  using assms
proof (induction ns arbitrary: m rooms)
  case (Cons n ns)
  obtain u where u: "StringToUTF8 win n = Inr u" using Cons.prems by auto
  obtain m1 where m1: "ChatRoomManager_CreateRoom win n 10 (m, rooms) =
       Inr (length rooms, m1, rooms @ [\<lparr>cr_ChatRoom = [], m_RoomID = roomNumber m + 1,
                                        m_RoomName = u, m_MaxUser = 10\<rparr>])"
    "rooms_inv m1 (rooms @ [\<lparr>cr_ChatRoom = [], m_RoomID = roomNumber m + 1,
                              m_RoomName = u, m_MaxUser = 10\<rparr>])"
    "roomNumber m1 = roomNumber m + 1"
    "\<And>i. ChatRoomManager_GetRoom i m1 =
       (if i = roomNumber m + 1 then Some (length rooms) else ChatRoomManager_GetRoom i m)"
    by (rule CreateRoom_ok [OF Cons.prems(1) u, where maxUser = 10]) blast
  let ?rooms = "rooms @ [\<lparr>cr_ChatRoom = [], m_RoomID = roomNumber m + 1, m_RoomName = u, m_MaxUser = 10\<rparr>]"
  obtain m' rooms' where IH: "create_rooms win ns (m1, ?rooms) = Inr (m', rooms')" "rooms_inv m' rooms'"
    "length rooms' = length ?rooms + length ns" "roomNumber m' = roomNumber m1 + of_nat (length ns)"
    "length ns < 65536 \<longrightarrow> (\<forall>k < length ns. ChatRoomManager_GetRoom (roomNumber m1 + of_nat (Suc k)) m'
          = Some (length ?rooms + k))"
    "\<forall>i. (\<forall>k < length ns. i \<noteq> roomNumber m1 + of_nat (Suc k)) \<longrightarrow>
          ChatRoomManager_GetRoom i m' = ChatRoomManager_GetRoom i m1"
    using Cons.IH [OF m1(2)] Cons.prems(2) by fastforce
  have first: "ChatRoomManager_GetRoom (roomNumber m + 1) m' = Some (length rooms)"
    if "Suc (length ns) < 65536"
  proof -
    have "roomNumber m + 1 \<noteq> roomNumber m1 + of_nat (Suc k)" if "k < length ns" for k
    proof
      assume "roomNumber m + 1 = roomNumber m1 + of_nat (Suc k)"
      then have "(of_nat (Suc k) :: uint16) = 0" using m1(3) by simp
      then have "65536 dvd Suc k" by (simp add: word_of_nat_eq_0_iff del: of_nat_Suc)
      with that \<open>Suc (length ns) < 65536\<close> show False by (auto dest: dvd_imp_le)
    qed
    with IH(6) m1(4) show ?thesis by simp
  qed
  have nth: "ChatRoomManager_GetRoom (roomNumber m + of_nat (Suc k)) m' = Some (length rooms + k)"
    if "k < Suc (length ns)" "Suc (length ns) < 65536" for k
    using that first IH(5) m1(3) by (cases k) (simp_all add: algebra_simps)
  have other: "ChatRoomManager_GetRoom i m' = ChatRoomManager_GetRoom i m"
    if i: "\<forall>k < Suc (length ns). i \<noteq> roomNumber m + of_nat (Suc k)" for i
  proof -
    have "i \<noteq> roomNumber m + 1" using i [rule_format, of 0] by simp
    moreover have "i \<noteq> roomNumber m1 + of_nat (Suc k)" if "k < length ns" for k
      using i [rule_format, of "Suc k"] that m1(3) by (simp add: algebra_simps)
    ultimately show ?thesis using IH(6) m1(4) by simp
  qed
  show ?case
    using m1 IH(1-4) nth other by (simp add: algebra_simps)
qed simp

section \<open>Properties\<close>

text \<open>
  C34. Rooms that are created one after the other, from a fresh manager, get the ids 1, 2, 3
  and so on, and up to 65535 of them stay reachable under their ids; creation number 65537
  gets the id 1 again and takes the place of the first room.
\<close>

theorem room_ids:
  assumes "\<forall>n \<in> set names. \<exists>u. StringToUTF8 win n = Inr u" "length names = 65536"
    "StringToUTF8 win name = Inr u"
  shows "(\<forall>k \<le> 65535. \<exists>m rooms. create_rooms win (take k names) (ChatRoomManager_new, []) = Inr (m, rooms)
      \<and> rooms_inv m rooms \<and> (\<forall>j < k. ChatRoomManager_GetRoom (of_nat (Suc j)) m = Some j))
    \<and> (\<exists>m rooms m' rooms'. create_rooms win names (ChatRoomManager_new, []) = Inr (m, rooms)
      \<and> ChatRoomManager_CreateRoom win name 10 (m, rooms) = Inr (65536, m', rooms')
      \<and> ChatRoomManager_GetRoom 1 m' = Some 65536)"
proof (intro conjI allI impI)
  fix k :: nat
  assume k: "k \<le> 65535"
  have "\<forall>n \<in> set (take k names). \<exists>u. StringToUTF8 win n = Inr u"
    using assms(1) in_set_takeD by fast
  from create_rooms_ok [OF rooms_inv_new this, of "[]"] k assms(2)
  show "\<exists>m rooms. create_rooms win (take k names) (ChatRoomManager_new, []) = Inr (m, rooms)
      \<and> rooms_inv m rooms \<and> (\<forall>j < k. ChatRoomManager_GetRoom (of_nat (Suc j)) m = Some j)"
    by (auto simp: ChatRoomManager_new_def)
next
  obtain m rooms where m: "create_rooms win names (ChatRoomManager_new, []) = Inr (m, rooms)" "rooms_inv m rooms"
    "length rooms = 65536" "roomNumber m = of_nat 65536"
    using create_rooms_ok [OF rooms_inv_new assms(1), of "[]"] assms(2)
    by (auto simp: ChatRoomManager_new_def simp del: of_nat_numeral)
  have z: "roomNumber m + 1 = 1" using m(4) by (simp add: word_of_nat_eq_0_iff)
  obtain m' where "ChatRoomManager_CreateRoom win name 10 (m, rooms) =
       Inr (length rooms, m', rooms @ [\<lparr>cr_ChatRoom = [], m_RoomID = roomNumber m + 1, m_RoomName = u, m_MaxUser = 10\<rparr>])"
    "\<And>i. ChatRoomManager_GetRoom i m' =
       (if i = roomNumber m + 1 then Some (length rooms) else ChatRoomManager_GetRoom i m)"
    by (rule CreateRoom_ok [OF m(2) assms(3), where maxUser = 10]) blast
  then show "\<exists>m rooms m' rooms'. create_rooms win names (ChatRoomManager_new, []) = Inr (m, rooms)
      \<and> ChatRoomManager_CreateRoom win name 10 (m, rooms) = Inr (65536, m', rooms')
      \<and> ChatRoomManager_GetRoom 1 m' = Some 65536"
    using m z by auto
qed

text \<open>Conversions that leave ASCII alone, for the examples.\<close>

definition ascii_win :: Win32Text where
  "ascii_win = \<lparr>acp_to_wide = (\<lambda>s. Some (map ucast s)), wide_to_utf8 = (\<lambda>w. Some (map ucast w))\<rparr>"

lemma ascii_win_total: "\<exists>u. StringToUTF8 ascii_win n = Inr u"
  by (simp add: StringToUTF8_def ascii_win_def Let_def)

theorem room_ids_witness:
  "\<exists>m rooms. create_rooms ascii_win (replicate 3 [114]) (ChatRoomManager_new, []) = Inr (m, rooms)
     \<and> ChatRoomManager_GetRoom 3 m = Some 2"
proof -
  obtain u where u: "StringToUTF8 ascii_win [114] = Inr u" using ascii_win_total by blast
  have "\<forall>n \<in> set (replicate 65536 [114]). \<exists>u. StringToUTF8 ascii_win n = Inr u"
    using u by simp
  from room_ids [OF this _ u, THEN conjunct1, rule_format, of 3]
  obtain m rooms where "create_rooms ascii_win (take 3 (replicate 65536 [114])) (ChatRoomManager_new, []) = Inr (m, rooms)"
    "\<forall>j < 3. ChatRoomManager_GetRoom (of_nat (Suc j)) m = Some j"
    by auto
  then show ?thesis by (auto dest: spec [of _ 2])
qed

text \<open>
  \<open>Leave\<close> takes out everybody who entered under the room id that the leaving player has
  now: entries under that id go, whoever they belong to, and a player whose id was changed
  after entering stays a member.
\<close>

lemma leave_erases_by_key:
  assumes "p < length players" "mmap_inv (cr_ChatRoom room)"
  shows "\<exists>room'. ChatRoom_Leave players p room = Inr room' \<and> mmap_inv (cr_ChatRoom room')
    \<and> (\<forall>k q. (k, q) \<in> set (cr_ChatRoom room') \<longleftrightarrow>
         (k, q) \<in> set (cr_ChatRoom room) \<and> k \<noteq> m_ChatRoomID (players ! p))"
  using assms mmap_inv_erase [OF assms(2)] by (auto simp: ChatRoom_Leave_def omap_erase_def)

lemma leave_erases_by_key_example:
  "\<exists>room'. ChatRoom_Leave [Player_new\<lparr>m_ChatRoomID := 5\<rparr>, Player_new] 0
      \<lparr>cr_ChatRoom = [(0, 0), (5, 1)], m_RoomID = 5, m_RoomName = [], m_MaxUser = 10\<rparr> = Inr room'
     \<and> (0, 0) \<in> set (cr_ChatRoom room') \<and> (5, 1) \<notin> set (cr_ChatRoom room')"
  using leave_erases_by_key [of 0 "[Player_new\<lparr>m_ChatRoomID := 5\<rparr>, Player_new]"
      "\<lparr>cr_ChatRoom = [(0, 0), (5, 1)], m_RoomID = 5, m_RoomName = [], m_MaxUser = 10\<rparr>"]
  by (fastforce simp: mmap_inv_def)

end
