(* ===== verification/Game_Session.thy ===== *)
theory Game_Session
  imports Server_Core Chat_Room
begin

text \<open>
  \<^verbatim>\<open>GameServer/GameSession.h\<close> and \<^verbatim>\<open>GameSession.cpp\<close>: the session class of the game server, its
  overrides of the hooks of \<^verbatim>\<open>AsioSession\<close>, the state of the game server process, and the
  session maker that \<^verbatim>\<open>main\<close> hands to the service.
\<close>

section \<open>State\<close>

text \<open>A derived class is a record extension; \<^verbatim>\<open>m_Player\<close> holds pointers into the player heap.\<close>

record GameSession = AsioSession +
  m_Player :: "player_ptr list"

text \<open>
  The process: the ServerCore singletons of \<open>Core\<close>, the session pool of \<^verbatim>\<open>main\<close>, the next
  address that \<^verbatim>\<open>new GameSession\<close> yields, the heaps of players and rooms, and the
  \<^verbatim>\<open>ChatRoomManager\<close>.
\<close>

record Game = "unit GameSession_ext Core" +
  g_pool :: "session_ptr list"
  g_next :: nat
  g_players :: "Player list"
  g_rooms :: "ChatRoom list"
  g_manager :: ChatRoomManager

lemma upd_sess_game [simp]:
  "g_pool (upd_sess s f g) = g_pool g" "g_next (upd_sess s f g) = g_next g"
  "g_players (upd_sess s f g) = g_players g" "g_rooms (upd_sess s f g) = g_rooms g"
  "g_manager (upd_sess s f g) = g_manager g"
  by (simp_all add: upd_sess_def)

definition GameSession_new :: "int \<Rightarrow> GameSession res" where
  "GameSession_new uid =
     bindR (AsioSession_new uid) (\<lambda>x. Inr (AsioSession.extend x (GameSession.fields [])))"

definition GameSession_new_with :: "int \<Rightarrow> bool option \<Rightarrow> uint32 \<Rightarrow> GameSession res" where
  "GameSession_new_with uid socket seq =
     bindR (AsioSession_new_with uid socket seq) (\<lambda>x.
       Inr (AsioSession.extend x (GameSession.fields [])))"

definition GameSession_OnSend :: "session_ptr \<Rightarrow> int \<Rightarrow> ('s, 'z) Core_scheme \<Rightarrow> ('s, 'z) Core_scheme" where
  "GameSession_OnSend s len c = c"

definition GameSession_OnDisconnected :: "session_ptr \<Rightarrow> ('s, 'z) Core_scheme \<Rightarrow> ('s, 'z) Core_scheme res" where
  "GameSession_OnDisconnected s c =
     bindR (sess c s) (\<lambda>_.
       Inr (c\<lparr>c_manager := SessionManager_RemoveSession (uid_of c) (Some s) (c_manager c)\<rparr>))"

definition GameSession_OnRecv :: "session_ptr \<Rightarrow> int \<Rightarrow> ('s, 'z) Core_scheme \<Rightarrow> int \<times> ('s, 'z) Core_scheme" where
  "GameSession_OnRecv s len c = (len, c\<lparr>c_analyzer := IncrementRecvCnt (c_analyzer c)\<rparr>)"

definition GameSession_OnConnected :: "session_ptr \<Rightarrow> ('s, 'z) Core_scheme \<Rightarrow> ('s, 'z) Core_scheme res" where
  "GameSession_OnConnected s c =
     bindR (sess c s) (\<lambda>_.
       Inr (c\<lparr>c_manager := SessionManager_AddSession (uid_of c) (Some s) (c_manager c)\<rparr>))"

definition GameSession_Reset :: "GameSession \<Rightarrow> GameSession" where
  "GameSession_Reset x = x"

section \<open>The session maker\<close>

text \<open>
  \<open>dbg\<close>: the logger writes debug records; \<open>uid\<close>: the memory of a freshly allocated UID. The
  socket that the acceptor hands over is open.
\<close>

definition game_maker :: "bool \<Rightarrow> int \<Rightarrow> Game \<Rightarrow> (session_ptr \<times> Game) res" where
  "game_maker dbg uid g =
     (let fresh = SessionPtr (g_next g)
      in bindR (ObjectPool_Pop dbg fresh (g_pool g)) (\<lambda>(s, pool).
         bindR (if g_pool g = []
                then bindR (GameSession_new uid) (\<lambda>x.
                       Inr (g\<lparr>c_heap := (c_heap g)(fresh \<mapsto> x), g_next := Suc (g_next g)\<rparr>))
                else Inr g) (\<lambda>g1.
         let g2 = g1\<lparr>g_pool := pool\<rparr>
         in bindR (sess g2 s) (\<lambda>x.
            bindR (AsioSession_InitSession (Some True) x) (\<lambda>x'.
            Inr (s, g2\<lparr>c_heap := (c_heap g2)(s \<mapsto> x')\<rparr>))))))"

text \<open>The last reference to a session goes: the deleter puts the object back into the pool.\<close>

definition game_recycle :: "session_ptr \<Rightarrow> Game \<Rightarrow> Game" where
  "game_recycle s g = g\<lparr>g_pool := ObjectPool_Push s (g_pool g)\<rparr>"

section \<open>Starting the server\<close>

text \<open>
  \<^verbatim>\<open>main\<close> up to the worker threads: the router with default workers, the packet pool, the
  session pool, the service, its start, the task queue. The configuration values are what
  the \<^verbatim>\<open>INIReader\<close> returned; \<open>mem\<close> is the memory of the pooled sessions' UIDs. A negative pool
  size becomes a huge \<^verbatim>\<open>size_t\<close> and the allocations end in an exception.
\<close>

record ServerConfig =
  cfg_Port :: "int option"
  cfg_PacketPoolSize :: int
  cfg_SessionPoolSize :: int

fun new_sessions :: "(nat \<Rightarrow> int) \<Rightarrow> nat \<Rightarrow> Game \<Rightarrow> Game res" where
  "new_sessions mem 0 g = Inr g"
| "new_sessions mem (Suc n) g =
     bindR (GameSession_new (mem (g_next g))) (\<lambda>x.
       let s = SessionPtr (g_next g)
       in new_sessions mem n
            (g\<lparr>c_heap := (c_heap g)(s \<mapsto> x), g_next := Suc (g_next g),
               g_pool := ObjectPool_Push s (g_pool g)\<rparr>))"

definition Game_blank :: Game where
  "Game_blank =
     \<lparr>c_heap = Map.empty, c_manager = Map.empty, c_tasks = TaskQueue_new, c_router = PacketRouter_new,
      c_buffers = Map.empty, c_analyzer = ServerAnalyzer_new, c_pool = PacketPool_new,
      c_service = AsioService_new ServiceType_Server True 1,
      c_acceptor = \<lparr>ac_open = False, ac_port = 0, ac_accepts = 0\<rparr>, c_next_uid = 0, c_writes = [],
      g_pool = [], g_next = 0, g_players = [], g_rooms = [], g_manager = ChatRoomManager_new\<rparr>"

definition GameServer_main ::
    "nat \<Rightarrow> (nat \<Rightarrow> int) \<Rightarrow> bool \<Rightarrow> listen_errors \<Rightarrow> ServerConfig \<Rightarrow> (bool \<times> Game) res" where
  "GameServer_main hw mem listens ec cfg =
     (let g0 = Game_blank
      in bindR (PacketRouter_Init hw 0 True (c_router g0)) (\<lambda>r.
         let g1 = g0\<lparr>c_router := r,
                     c_pool := snd (PacketPool_Init (word_of_int (cfg_PacketPoolSize cfg)) (c_pool g0))\<rparr>
         in if cfg_SessionPoolSize cfg < 0 then Inl Thrown
            else bindR (new_sessions mem (nat (cfg_SessionPoolSize cfg)) g1) (\<lambda>g2.
                 bindR (AsioServerService_Start (cfg_Port cfg) listens ec g2) (\<lambda>(ok, g3).
                 if ok then Inr (True, g3\<lparr>c_tasks := TaskQueue_Initialize hw 0 (c_tasks g3)\<rparr>)
                 else Inr (False, g3)))))"

text \<open>Input 0 on the console: close the service, then the task queue, then the packet pool.\<close>

definition GameServer_InputThread :: "int \<Rightarrow> Game \<Rightarrow> (bool \<times> Game) res" where
  "GameServer_InputThread input g =
     (if input = 0
      then bindR (AsioServerService_CloseService GameSession_OnDisconnected g) (\<lambda>g1.
           Inr (False, g1\<lparr>c_tasks := TaskQueue_Shutdown (c_tasks g1),
                          c_pool := PacketPool_Clear (c_pool g1),
                          c_service := (c_service g1)\<lparr>m_IoStopped := True\<rparr>\<rparr>))
      else Inr (True, g))"

end
