(* ===== verification/Session_Lifecycle.thy ===== *)
theory Session_Lifecycle
  imports Game_Session Session_Hooks
begin

text \<open>
  How a session of the game server comes and goes: its hook keeps the promise of the
  interface \<open>session_hook\<close>, and accepting a connection takes it from the pool and registers it in
  the manager and in the service.
\<close>

section \<open>The hook of the game server\<close>

interpretation game_hook: session_hook GameSession_OnDisconnected
proof
  fix c :: "('s, 'z) Core_scheme" and s x
  assume x: "c_heap c s = Some x"
  then have "(c_heap c)(s \<mapsto> x\<lparr>m_IsRunning := m_IsRunning x\<rparr>) = c_heap c" by (simp add: fun_upd_idem)
  with x show "\<exists>c1 r. GameSession_OnDisconnected s c = Inr c1 \<and> c_service c1 = c_service c \<and> c_tasks c1 = c_tasks c
      \<and> c_manager c1 = (c_manager c)(m_SessionUID x := None) \<and> c_heap c1 = (c_heap c)(s \<mapsto> x\<lparr>m_IsRunning := r\<rparr>)"
    by (auto simp: GameSession_OnDisconnected_def SessionManager_RemoveSession_def uid_of_def intro!: exI [of _ "m_IsRunning x"])
qed

section \<open>Accepting\<close>

lemma new_sessions_pool:
  "new_sessions mem n g = Inr g' \<Longrightarrow>
   g_pool g' = ObjectPool_InitPool (\<lambda>i. SessionPtr (g_next g + i)) n (g_pool g) \<and> g_next g' = g_next g + n"
proof (induction n arbitrary: g)
  case (Suc n)
  have "[0..<Suc n] = 0 # map Suc [0..<n]" by (simp add: map_Suc_upt upt_conv_Cons del: upt_Suc)
  with Suc show ?case
    by (fastforce simp: bindR_Inr_iff ObjectPool_InitPool_def ObjectPool_Push_def Let_def simp del: upt_Suc)
qed (simp add: ObjectPool_InitPool_def)

text \<open>Filling the pool never fails; the new sessions have no players.\<close>

lemma GameSession_new_ok: "\<exists>x. GameSession_new uid = Inr x \<and> m_Player x = []"
  by (simp add: GameSession_new_def AsioSession_new_def PacketBuffer_new_def PacketBuffer_Init_def i32_id
      AsioSession.defs GameSession.defs)

lemma new_sessions_ok:
  assumes "\<forall>s x. c_heap g s = Some x \<longrightarrow> m_Player x = []"
  obtains g' where "new_sessions mem n g = Inr g'" "\<forall>s x. c_heap g' s = Some x \<longrightarrow> m_Player x = []"
    "g_players g' = g_players g" "g_rooms g' = g_rooms g" "g_manager g' = g_manager g" "c_router g' = c_router g"
    "c_buffers g' = c_buffers g" "c_service g' = c_service g" "c_tasks g' = c_tasks g" "length (g_pool g') = length (g_pool g) + n"
  using assms
proof (induction n arbitrary: g thesis)
  case 0
  then show ?case by simp
next
  case (Suc n)
  obtain x where x: "GameSession_new (mem (g_next g)) = Inr x" "m_Player x = []" using GameSession_new_ok by blast
  let ?s = "SessionPtr (g_next g)"
  let ?g = "g\<lparr>c_heap := (c_heap g)(?s \<mapsto> x), g_next := Suc (g_next g), g_pool := ObjectPool_Push ?s (g_pool g)\<rparr>"
  have h: "\<forall>s y. c_heap ?g s = Some y \<longrightarrow> m_Player y = []" using Suc.prems(2) x(2) by simp
  show ?case
    by (rule Suc.IH [OF _ h], rule Suc.prems(1)) (use x in \<open>simp_all add: ObjectPool_Push_def Let_def\<close>)
qed

text \<open>
  A pooled session is handed out with the network state it had: only socket and buffer are
  set again.
\<close>

lemma game_maker_pooled:
  assumes "g_pool g = s # pool" "c_heap g s = Some x" "PacketBuffer_Init 65536 (m_PacketBuffer x) = Inr b"
  shows "game_maker dbg uid g =
    Inr (s, g\<lparr>g_pool := pool, c_heap := (c_heap g)(s \<mapsto> x\<lparr>m_Socket := Some True, m_PacketBuffer := b\<rparr>)\<rparr>)"
  using assms by (simp add: game_maker_def ObjectPool_Pop_def AsioSession_InitSession_def Let_def)

lemma PacketBuffer_Init_ok: "\<exists>b. PacketBuffer_Init 65536 b0 = Inr b \<and> m_ReadPos b = m_ReadPos b0
    \<and> m_WritePos b = m_WritePos b0 \<and> m_BufferSize b = 65536 \<and> length (m_Buffer b) = 655360"
  by (simp add: PacketBuffer_Init_def i32_id)

text \<open>Accepting a connection with a pooled session: what changes, and what does not.\<close>

lemma accept_pooled:
  fixes g :: Game
  assumes pool: "g_pool g = s # pool" and x: "c_heap g s = Some x" and b: "pb_empty (m_PacketBuffer x)"
    and fresh: "s \<notin> set (m_Sessions (c_service g))" and inv: "service_inv (c_service g)"
      "Suc (length (m_Sessions (c_service g))) < 2147483647"
    and uid: "u = m_NextSessionUID (c_service g)" "c_manager g u = None"
  obtains g' x' where
    "AsioAcceptor_HandleAccept GameSession_OnConnected (game_maker dbg mem) False g = Inr (Some s, g')"
    "c_heap g' = (c_heap g)(s \<mapsto> x')" "m_SessionUID x' = u" "m_Socket x' = Some True" "m_Service x'"
    "m_ReadPending x'" "m_NetState x' = m_NetState x" "pb_empty (m_PacketBuffer x')"
    "m_BufferSize (m_PacketBuffer x') = 65536" "pb_inv (m_PacketBuffer x')" "m_Player x' = m_Player x"
    "c_manager g' = (c_manager g)(u \<mapsto> s)" "set (m_Sessions (c_service g')) = insert s (set (m_Sessions (c_service g)))"
    "service_inv (c_service g')" "g_pool g' = pool" "ac_accepts (c_acceptor g') = Suc (ac_accepts (c_acceptor g))"
    "c_tasks g' = c_tasks g" "c_router g' = c_router g" "c_buffers g' = c_buffers g" "c_writes g' = c_writes g"
    "g_players g' = g_players g" "m_NextSessionUID (c_service g') = i32 (u + 1)"
    "g_rooms g' = g_rooms g" "g_manager g' = g_manager g"
proof -
  obtain b' where b': "PacketBuffer_Init 65536 (m_PacketBuffer x) = Inr b'" "pb_empty b'" "m_BufferSize b' = 65536" "pb_inv b'"
    using b by (simp add: PacketBuffer_Init_def i32_id pb_empty_def pb_inv_def)
  let ?x1 = "x\<lparr>m_Socket := Some True, m_PacketBuffer := b'\<rparr>"
  let ?g1 = "g\<lparr>g_pool := pool, c_heap := (c_heap g)(s \<mapsto> ?x1)\<rparr>"
  have mk: "game_maker dbg mem g = Inr (s, ?g1)" by (rule game_maker_pooled [OF pool x b'(1)])
  let ?g2 = "upd_sess s (\<lambda>y. y\<lparr>m_Service := True\<rparr>) ?g1"
  obtain sv where sv: "AsioService_AddSession False s (c_service g) = Inr sv"
    by (simp add: AsioService_AddSession_def)
  have sinv: "service_inv sv" "set (m_Sessions sv) = insert s (set (m_Sessions (c_service g)))"
    using service_inv_Add [OF inv(1) fresh inv(2) sv] by auto
  have nu: "m_NextSessionUID sv = u" using sv uid(1) by (auto simp: AsioService_AddSession_def)
  let ?sv = "sv\<lparr>m_NextSessionUID := i32 (u + 1)\<rparr>"
  let ?g3 = "upd_sess s (\<lambda>y. y\<lparr>m_SessionUID := u\<rparr>) (?g2\<lparr>c_service := ?sv\<rparr>)"
  have cr: "AsioService_CreateSession (game_maker dbg mem) g = Inr (s, ?g3)"
    using mk sv nu by (simp add: AsioService_CreateSession_def AsioService_fetch_uid_def Let_def)
  let ?x3 = "?x1\<lparr>m_Service := True, m_SessionUID := u\<rparr>"
  have h3: "c_heap ?g3 = (c_heap g)(s \<mapsto> ?x3)" by (auto simp: upd_sess_def fun_eq_iff)
  let ?g4 = "?g3\<lparr>c_manager := (c_manager g)(u \<mapsto> s)\<rparr>"
  have con: "GameSession_OnConnected s ?g3 = Inr ?g4"
    using uid(2) by (simp add: GameSession_OnConnected_def SessionManager_AddSession_def uid_of_def h3)
  let ?g5 = "upd_sess s (\<lambda>y. y\<lparr>m_ReadPending := True\<rparr>)
      (?g4\<lparr>c_analyzer := ResetRecvCount (c_analyzer ?g4)\<rparr>)"
  have wp: "PacketBuffer_WritePos b' = Inr 0"
    using b'(2,3) pb_invD [OF b'(4)] by (simp add: PacketBuffer_WritePos_def subscript_def in_vec_def pb_empty_def)
  have rd: "AsioSession_DoRead s ?g4 = Inr ?g5"
    using wp h3 by (simp add: AsioSession_DoRead_def Let_def)
  let ?g6 = "?g5\<lparr>c_acceptor := AsioAcceptor_DoAccept (c_acceptor ?g5)\<rparr>"
  let ?x6 = "?x3\<lparr>m_ReadPending := True\<rparr>"
  have run: "AsioAcceptor_HandleAccept GameSession_OnConnected (game_maker dbg mem) False g = Inr (Some s, ?g6)"
    using cr con rd by (simp add: AsioAcceptor_HandleAccept_def AsioSession_ProcessRecv_def)
  have h6: "c_heap ?g6 = (c_heap g)(s \<mapsto> ?x6)" by (auto simp: upd_sess_def fun_eq_iff)
  show thesis
    by (rule that [OF run h6]) (use sinv b' in \<open>simp_all add: service_inv_def AsioAcceptor_DoAccept_def\<close>)
qed

end
