(* ===== verification/Game_Handlers.thy ===== *)
theory Game_Handlers
  imports Session_Lifecycle Packet_Worker
begin

text \<open>
  \<^verbatim>\<open>GameServer/ClientPacketHandler.cpp\<close>: what the server does with each message, with
  \<^verbatim>\<open>ChatRoom::BroadCast\<close>, and the table of handlers.

  Where the C++ function ends without \<^verbatim>\<open>return\<close>, the answer is \<open>None\<close>. The logging statements
  have no effect on the state.
\<close>

section \<open>Environment\<close>

text \<open>
  What is outside the program: the Win32 text conversions, the UTF-8 check of the protobuf
  runtime, the padding of a header on the stack.
\<close>

record Env =
  env_win :: Win32Text
  env_utf8 :: "byte list \<Rightarrow> bool"
  env_pad :: "byte \<times> byte"

text \<open>\<^verbatim>\<open>MakePacket(pkt)\<close> followed by what is done with the packet.\<close>

definition with_packet ::
    "Env \<Rightarrow> packet_type \<Rightarrow> nat \<Rightarrow> byte list \<Rightarrow> (Packet \<Rightarrow> Game \<Rightarrow> Game answer) \<Rightarrow> Game \<Rightarrow> Game answer" where
  "with_packet env ty byteSize bytes k g =
     bindR (MakePacket (env_pad env) byteSize bytes (type_code ty) (c_pool g)) (\<lambda>(packet, pool).
       k packet (g\<lparr>c_pool := pool\<rparr>))"

definition send_then :: "session_ptr \<Rightarrow> bool option \<Rightarrow> Packet \<Rightarrow> Game \<Rightarrow> Game answer" where
  "send_then s answer packet g = bindR (AsioSession_Send s packet g) (\<lambda>g'. Inr (answer, g'))"

text \<open>\<^verbatim>\<open>gameSession->m_Player[0]\<close>\<close>

definition first_player :: "session_ptr \<Rightarrow> Game \<Rightarrow> player_ptr res" where
  "first_player s g = bindR (sess g s) (\<lambda>x. subscript (m_Player x) 0)"

section \<open>Rooms and broadcasts\<close>

definition ChatRoom_GetRoomInfo :: "ChatRoom \<Rightarrow> ChatRoomInfo" where
  "ChatRoom_GetRoomInfo room =
     \<lparr>info_roomid = ucast (m_RoomID room), info_currentuser = ucast (ChatRoom_GetCurrentUser room),
      info_maxuser = ucast (m_MaxUser room), info_roomname = m_RoomName room\<rparr>"

text \<open>
  \<^verbatim>\<open>BroadCast\<close> takes its packet by value. Every member gets a copy of its own, in the order of
  the multimap; the mutex of the room is held, and \<^verbatim>\<open>Send\<close> does not take it again.
\<close>

fun broadcast_to :: "Packet \<Rightarrow> (uint16 \<times> player_ptr) list \<Rightarrow> Game \<Rightarrow> Game res" where
  "broadcast_to packet [] g = Inr g"
| "broadcast_to packet ((k, player) # rest) g =
     bindR (Packet_copy packet) (\<lambda>packetCopy.
     bindR (deref (g_players g) player) (\<lambda>p.
     bindR (the_or NullDeref (ownerSession p)) (\<lambda>s.
     bindR (AsioSession_Send s packetCopy g) (\<lambda>g'. broadcast_to packet rest g'))))"

definition ChatRoom_BroadCast :: "Packet \<Rightarrow> ChatRoom \<Rightarrow> Game \<Rightarrow> Game res" where
  "ChatRoom_BroadCast packet room g = broadcast_to packet (cr_ChatRoom room) g"

section \<open>Handlers\<close>

definition HandleEnterChatRoomReq :: "Env \<Rightarrow> session_ptr option \<Rightarrow> EnterChatRoomReq \<Rightarrow> Game \<Rightarrow> Game answer" where
  "HandleEnterChatRoomReq env session pkt g =
     (case session of
        None \<Rightarrow> Inr (Some False, g)
      | Some s \<Rightarrow>
          bindR (first_player s g) (\<lambda>player.
          bindR (deref (g_players g) player) (\<lambda>p.
          let roomID = ucast (enter_req_roomid pkt) :: uint16;
              g1 = g\<lparr>g_players := (g_players g)[player := p\<lparr>m_ChatRoomID := roomID\<rparr>]\<rparr>
          in bindR (the_or NullDeref (ChatRoomManager_GetRoom roomID (g_manager g1))) (\<lambda>selectRoom.
             bindR (deref (g_rooms g1) selectRoom) (\<lambda>room.
             bindR (ChatRoom_Enter (g_players g1) player room) (\<lambda>room'.
             let g2 = g1\<lparr>g_rooms := (g_rooms g1)[selectRoom := room']\<rparr>;
                 packet = \<lparr>enter_ack_roomid = ucast (m_RoomID room'), enter_ack_roomname = m_RoomName room'\<rparr>
             in with_packet env EnterChatRoomAck_t (EnterChatRoomAck_ByteSizeLong packet)
                  (EnterChatRoomAck_Serialize packet) (send_then s None) g2))))))"

definition HandleLoginReq :: "Env \<Rightarrow> session_ptr option \<Rightarrow> LoginReq \<Rightarrow> Game \<Rightarrow> Game answer" where
  "HandleLoginReq env session pkt g =
     (case session of
        None \<Rightarrow> Inr (Some False, g)
      | Some s \<Rightarrow>
          bindR (sess g s) (\<lambda>x.
          let player = length (g_players g);
              p = Player_new\<lparr>m_PlayerUID := word_of_int (m_SessionUID x), ownerSession := Some s,
                             m_Name := login_req_id pkt\<rparr>;
              g1 = upd_sess s (\<lambda>y. y\<lparr>m_Player := m_Player y @ [player]\<rparr>)
                     (g\<lparr>g_players := g_players g @ [p]\<rparr>);
              loginPacket = \<lparr>login_ack_success = True, login_ack_userid = login_req_id pkt\<rparr>
          in with_packet env LoginAck_t (LoginAck_ByteSizeLong loginPacket)
               (LoginAck_Serialize loginPacket) (send_then s (Some True)) g1))"

fun collect_rooms :: "(uint16 \<times> room_ptr) list \<Rightarrow> ChatRoom list \<Rightarrow> ChatRoomListAck \<Rightarrow> ChatRoomListAck res" where
  "collect_rooms [] rooms ack = Inr ack"
| "collect_rooms ((k, r) # rest) rooms ack =
     bindR (deref rooms r) (\<lambda>room.
       collect_rooms rest rooms
         (ack\<lparr>list_ack_success := True,
              list_ack_chatroominfo := list_ack_chatroominfo ack @ [ChatRoom_GetRoomInfo room]\<rparr>))"

definition HandleChatRoomListReq :: "Env \<Rightarrow> session_ptr option \<Rightarrow> ChatRoomListReq \<Rightarrow> Game \<Rightarrow> Game answer" where
  "HandleChatRoomListReq env session pkt g =
     (case session of
        None \<Rightarrow> Inr (Some False, g)
      | Some s \<Rightarrow>
          bindR (collect_rooms (ChatRoomManager_GetAllRoom (g_manager g)) (g_rooms g) ChatRoomListAck_new)
            (\<lambda>sendPacket.
          with_packet env ChatRoomListAck_t (ChatRoomListAck_ByteSizeLong sendPacket)
            (ChatRoomListAck_Serialize sendPacket) (send_then s (Some True)) g))"

text \<open>
  The player enters the new room under the id of the room it was in before; its own id is
  set afterwards. The acknowledgement carries the name as the client sent it, the room the
  converted one.
\<close>

definition HandleCreateChatRoomReq :: "Env \<Rightarrow> session_ptr option \<Rightarrow> CreateChatRoomReq \<Rightarrow> Game \<Rightarrow> Game answer" where
  "HandleCreateChatRoomReq env session pkt g =
     (case session of
        None \<Rightarrow> Inr (Some False, g)
      | Some s \<Rightarrow>
          bindR (first_player s g) (\<lambda>player.
          bindR (ChatRoomManager_CreateRoom (env_win env) (create_req_roomname pkt) 10
                   (g_manager g, g_rooms g)) (\<lambda>(newRoom, m, rooms).
          bindR (deref rooms newRoom) (\<lambda>room.
          let roomID = ucast (m_RoomID room) :: uint32
          in bindR (ChatRoom_Enter (g_players g) player room) (\<lambda>room'.
             bindR (deref (g_players g) player) (\<lambda>p.
             let g1 = g\<lparr>g_manager := m, g_rooms := rooms[newRoom := room'],
                        g_players := (g_players g)[player := p\<lparr>m_ChatRoomID := ucast roomID\<rparr>]\<rparr>;
                 packet = \<lparr>enter_ack_roomid = roomID, enter_ack_roomname = create_req_roomname pkt\<rparr>
             in with_packet env EnterChatRoomAck_t (EnterChatRoomAck_ByteSizeLong packet)
                  (EnterChatRoomAck_Serialize packet) (send_then s None) g1))))))"

definition HandleRefreshChatRoomReq :: "Env \<Rightarrow> session_ptr option \<Rightarrow> RefreshChatRoomReq \<Rightarrow> Game \<Rightarrow> Game answer" where
  "HandleRefreshChatRoomReq env session pkt g = Inr (Some True, g)"

definition HandleChatReq :: "Env \<Rightarrow> session_ptr option \<Rightarrow> ChatReq \<Rightarrow> Game \<Rightarrow> Game answer" where
  "HandleChatReq env session pkt g =
     (case session of
        None \<Rightarrow> Inr (Some False, g)
      | Some s \<Rightarrow>
          bindR (first_player s g) (\<lambda>player.
          bindR (deref (g_players g) player) (\<lambda>p.
          let selectRoom = ChatRoomManager_GetRoom (m_ChatRoomID p) (g_manager g);
              packet = \<lparr>chat_ack_sender = m_Name p, chat_ack_message = chat_req_message pkt\<rparr>
          in with_packet env ChatAck_t (ChatAck_ByteSizeLong packet) (ChatAck_Serialize packet)
               (\<lambda>sendPacket g1.
                  bindR (the_or NullDeref selectRoom) (\<lambda>r.
                  bindR (deref (g_rooms g1) r) (\<lambda>room.
                  bindR (Packet_copy sendPacket) (\<lambda>argument.
                  bindR (ChatRoom_BroadCast argument room g1) (\<lambda>g2. Inr (None, g2)))))) g)))"

definition HandleDummyPacketReq :: "Env \<Rightarrow> session_ptr option \<Rightarrow> DummyPacketReq \<Rightarrow> Game \<Rightarrow> Game answer" where
  "HandleDummyPacketReq env session pkt g =
     (case session of
        None \<Rightarrow> Inr (Some False, g)
      | Some s \<Rightarrow>
          let packet = \<lparr>dummy_ack_message = dummy_req_message pkt\<rparr>
          in with_packet env DummyPacketAck_t (DummyPacketAck_ByteSizeLong packet)
               (DummyPacketAck_Serialize packet) (send_then s (Some False)) g)"

section \<open>Dispatch\<close>

type_synonym handler = "Game packet_handler"

text \<open>The table after \<^verbatim>\<open>PacketHandler::Init\<close>: the requests have a handler, nothing else has.\<close>

definition GPacketHadler :: "Env \<Rightarrow> uint16 \<Rightarrow> handler option" where
  "GPacketHadler env ty =
     (if ty = type_code EnterChatRoomReq_t then
        Some (\<lambda>s. HandlePacket_parse EnterChatRoomReq_Parse (HandleEnterChatRoomReq env s))
      else if ty = type_code LoginReq_t then
        Some (\<lambda>s. HandlePacket_parse (LoginReq_Parse (env_utf8 env)) (HandleLoginReq env s))
      else if ty = type_code ChatRoomListReq_t then
        Some (\<lambda>s. HandlePacket_parse ChatRoomListReq_Parse (HandleChatRoomListReq env s))
      else if ty = type_code CreateChatRoomReq_t then
        Some (\<lambda>s. HandlePacket_parse (CreateChatRoomReq_Parse (env_utf8 env)) (HandleCreateChatRoomReq env s))
      else if ty = type_code RefreshChatRoomReq_t then
        Some (\<lambda>s. HandlePacket_parse RefreshChatRoomReq_Parse (HandleRefreshChatRoomReq env s))
      else if ty = type_code ChatReq_t then
        Some (\<lambda>s. HandlePacket_parse (ChatReq_Parse (env_utf8 env)) (HandleChatReq env s))
      else if ty = type_code DummyPacketReq_t then
        Some (\<lambda>s. HandlePacket_parse (DummyPacketReq_Parse (env_utf8 env)) (HandleDummyPacketReq env s))
      else None)"

definition PacketHandler_HandlePacket :: "Env \<Rightarrow> handler" where
  "PacketHandler_HandlePacket env = HandlePacket_by (GPacketHadler env)"

end
