(* ===== verification/Chat_Refinement.thy ===== *)
theory Chat_Refinement
  imports Game_Handlers "HOL-Library.Multiset"
begin

text \<open>
  What the chat service promises, as an abstract state machine over room names, members and
  users, and the simulation: the handlers, which work on heaps of players and rooms, on
  packets and on the write queue, implement it.
\<close>

section \<open>Sending\<close>

lemma send_then_ok:
  "can_send g s \<Longrightarrow> send_then s a p g =
     Inr (a, g\<lparr>c_pool := snd (PacketPool_Pop (c_pool g)), c_writes := c_writes g @ [(s, p)]\<rparr>)"
  by (simp add: send_then_def Send_ok)

lemma with_packet_ok:
  "n = length bytes \<Longrightarrow> length bytes \<le> 65523 \<Longrightarrow>
   with_packet env ty n bytes k g = k (made_packet (env_pad env) ty bytes) (g\<lparr>c_pool := snd (PacketPool_Pop (c_pool g))\<rparr>)"
  by (simp add: with_packet_def MakePacket_fits made_packet_def)

lemma can_send_fields [simp]:
  "can_send (g\<lparr>g_players := ps\<rparr>) s = can_send g s" "can_send (g\<lparr>g_rooms := rs\<rparr>) s = can_send g s"
  "can_send (g\<lparr>g_manager := m\<rparr>) s = can_send g s"
  by (simp_all add: can_send_def)

definition owner_of :: "Player list \<Rightarrow> player_ptr \<Rightarrow> session_ptr" where
  "owner_of players p = the (ownerSession (players ! p))"

text \<open>A broadcast starts one write per member, in the order of the room, and nothing else.\<close>

lemma broadcast_copies:
  assumes "Packet_copy pk = Inr pk"
    "\<forall>(k, p) \<in> set es. p < length (g_players g) \<and> ownerSession (g_players g ! p) \<noteq> None
       \<and> can_send g (owner_of (g_players g) p)"
  shows "\<exists>pool. broadcast_to pk es g =
    Inr (g\<lparr>c_pool := pool, c_writes := c_writes g @ map (\<lambda>(k, p). (owner_of (g_players g) p, pk)) es\<rparr>)"
  using assms(2)
proof (induction es arbitrary: g)
  case Nil
  show ?case by (rule exI [of _ "c_pool g"]) simp
next
  case (Cons e es)
  obtain k p where e: "e = (k, p)" by (cases e)
  let ?g1 = "g\<lparr>c_pool := snd (PacketPool_Pop (c_pool g)), c_writes := c_writes g @ [(owner_of (g_players g) p, pk)]\<rparr>"
  obtain pool where "broadcast_to pk es ?g1 =
      Inr (?g1\<lparr>c_pool := pool, c_writes := c_writes ?g1 @ map (\<lambda>(k, p). (owner_of (g_players ?g1) p, pk)) es\<rparr>)"
    using Cons.IH [of ?g1] Cons.prems by auto
  moreover have "ownerSession (g_players g ! p) = Some (owner_of (g_players g) p)" "p < length (g_players g)"
    "can_send g (owner_of (g_players g) p)"
    using Cons.prems e by (auto simp: owner_of_def)
  ultimately show ?case
    using e by (auto simp: Send_ok assms(1))
qed

lemmas broadcast_ok = broadcast_copies [OF copy_made_packet]

section \<open>The abstract service\<close>

text \<open>
  A room has a name and members, who may be in it more than once; a user has a name and is
  in one room or none (0); rooms are numbered from a counter; some sessions are online. What
  an operation sends is a multiset of pairs of a session and the bytes it gets.
\<close>

record ChatSpec =
  sp_rooms :: "uint16 \<rightharpoonup> byte list \<times> session_ptr multiset"
  sp_users :: "session_ptr \<rightharpoonup> byte list \<times> uint16"
  sp_next :: uint16
  sp_online :: "session_ptr set"

definition spec_login :: "session_ptr \<Rightarrow> byte list \<Rightarrow> ChatSpec \<Rightarrow> ChatSpec" where
  "spec_login s name st =
     (if sp_users st s = None then st\<lparr>sp_users := (sp_users st)(s \<mapsto> (name, 0))\<rparr> else st)"

definition spec_move :: "session_ptr \<Rightarrow> uint16 \<Rightarrow> ChatSpec \<Rightarrow> ChatSpec" where
  "spec_move s i st =
     st\<lparr>sp_users := (sp_users st)(s := map_option (\<lambda>(n, _). (n, i)) (sp_users st s)),
        sp_rooms := (sp_rooms st)(i := map_option (\<lambda>(n, ms). (n, add_mset s ms)) (sp_rooms st i))\<rparr>"

definition spec_create :: "session_ptr \<Rightarrow> byte list \<Rightarrow> ChatSpec \<Rightarrow> ChatSpec" where
  "spec_create s name st =
     (let i = sp_next st + 1
      in spec_move s i (st\<lparr>sp_rooms := (sp_rooms st)(i \<mapsto> (name, {#})), sp_next := i\<rparr>))"

definition spec_chat :: "session_ptr \<Rightarrow> (byte list \<Rightarrow> byte list) \<Rightarrow> ChatSpec \<Rightarrow> (session_ptr \<times> byte list) multiset" where
  "spec_chat s payload st =
     (case sp_users st s of
        None \<Rightarrow> {#}
      | Some (name, i) \<Rightarrow>
          (case sp_rooms st i of
             None \<Rightarrow> {#}
           | Some (_, ms) \<Rightarrow> image_mset (\<lambda>m. (m, payload name)) ms))"

section \<open>Abstraction and invariant\<close>

definition abs_rooms :: "Game \<Rightarrow> uint16 \<rightharpoonup> byte list \<times> session_ptr multiset" where
  "abs_rooms g i = map_option (\<lambda>r. (m_RoomName (g_rooms g ! r),
      image_mset (owner_of (g_players g)) (mset (members (g_rooms g ! r))))) (ChatRoomManager_GetRoom i (g_manager g))"

definition user_entry :: "Player list \<Rightarrow> GameSession \<Rightarrow> (byte list \<times> uint16) option" where
  "user_entry players x =
     (case m_Player x of [] \<Rightarrow> None
      | p # _ \<Rightarrow> Some (m_Name (players ! p), m_ChatRoomID (players ! p)))"

definition abs_users :: "Game \<Rightarrow> session_ptr \<rightharpoonup> byte list \<times> uint16" where
  "abs_users g s = Option.bind (c_heap g s) (user_entry (g_players g))"

definition abs_chat :: "Game \<Rightarrow> ChatSpec" where
  "abs_chat g = \<lparr>sp_rooms = abs_rooms g, sp_users = abs_users g, sp_next = roomNumber (g_manager g),
     sp_online = {s. can_send g s}\<rparr>"

lemma abs_chat_sel [simp]: "sp_rooms (abs_chat g) = abs_rooms g" "sp_users (abs_chat g) = abs_users g"
  "sp_next (abs_chat g) = roomNumber (g_manager g)" "sp_online (abs_chat g) = {s. can_send g s}"
  by (simp_all add: abs_chat_def)

text \<open>
  Every player has an owner that can send and is listed by that owner alone; the entries of
  every room are players, and its limit is 10; the table of rooms is consistent and no two
  ids share a room.
\<close>

definition chat_inv :: "Game \<Rightarrow> bool" where
  "chat_inv g \<longleftrightarrow> rooms_inv (g_manager g) (g_rooms g)
     \<and> (\<forall>p < length (g_players g). \<exists>s. ownerSession (g_players g ! p) = Some s \<and> can_send g s)
     \<and> (\<forall>r < length (g_rooms g). \<forall>p \<in> set (members (g_rooms g ! r)). p < length (g_players g))
     \<and> (\<forall>r < length (g_rooms g). m_MaxUser (g_rooms g ! r) = 10)
     \<and> (\<forall>s x. c_heap g s = Some x \<longrightarrow> (\<forall>p \<in> set (m_Player x).
          p < length (g_players g) \<and> ownerSession (g_players g ! p) = Some s))"

lemma chat_invD:
  assumes "chat_inv g"
  shows "rooms_inv (g_manager g) (g_rooms g)"
    "p < length (g_players g) \<Longrightarrow> ownerSession (g_players g ! p) = Some (owner_of (g_players g) p) \<and> can_send g (owner_of (g_players g) p)"
    "r < length (g_rooms g) \<Longrightarrow> p \<in> set (members (g_rooms g ! r)) \<Longrightarrow> p < length (g_players g)"
    "c_heap g s = Some x \<Longrightarrow> p \<in> set (m_Player x) \<Longrightarrow> p < length (g_players g) \<and> owner_of (g_players g) p = s"
  using assms by (auto simp: chat_inv_def owner_of_def)

lemma chat_inv_MaxUser: "chat_inv g \<Longrightarrow> r < length (g_rooms g) \<Longrightarrow> m_MaxUser (g_rooms g ! r) = 10"
  by (simp add: chat_inv_def)

lemma GetRoom_valid:
  "chat_inv g \<Longrightarrow> ChatRoomManager_GetRoom i (g_manager g) = Some r \<Longrightarrow> r < length (g_rooms g) \<and> m_RoomID (g_rooms g ! r) = i"
  using chat_invD(1) by (fastforce simp: rooms_inv_def ChatRoomManager_GetRoom_def)

text \<open>Pool, writes, queues and receive buffers are not part of the abstraction.\<close>

lemma abs_chat_fields [simp]:
  "abs_chat (g\<lparr>c_pool := p\<rparr>) = abs_chat g" "abs_chat (g\<lparr>c_writes := w\<rparr>) = abs_chat g"
  "chat_inv (g\<lparr>c_pool := p\<rparr>) = chat_inv g" "chat_inv (g\<lparr>c_writes := w\<rparr>) = chat_inv g"
  "abs_chat (g\<lparr>c_router := r\<rparr>) = abs_chat g" "abs_chat (g\<lparr>c_buffers := bs\<rparr>) = abs_chat g"
  "chat_inv (g\<lparr>c_router := r\<rparr>) = chat_inv g" "chat_inv (g\<lparr>c_buffers := bs\<rparr>) = chat_inv g"
  by (simp_all add: abs_chat_def abs_rooms_def abs_users_def chat_inv_def fun_eq_iff)

text \<open>A session that has logged in has a first player.\<close>

lemma logged_in:
  assumes "chat_inv g" "abs_users g s = Some (name, i)"
  obtains p where "first_player s g = Inr p" "p < length (g_players g)" "owner_of (g_players g) p = s" "can_send g s"
    "m_Name (g_players g ! p) = name" "m_ChatRoomID (g_players g ! p) = i"
proof -
  from assms(2) obtain x where h: "c_heap g s = Some x" "user_entry (g_players g) x = Some (name, i)"
    by (auto simp: abs_users_def bind_eq_Some_conv)
  then obtain p ps where x: "c_heap g s = Some x" "m_Player x = p # ps"
    "name = m_Name (g_players g ! p)" "i = m_ChatRoomID (g_players g ! p)"
    by (cases "m_Player x") (auto simp: user_entry_def)
  have "p < length (g_players g) \<and> owner_of (g_players g) p = s" using chat_invD(4) [OF assms(1) x(1)] x(2) by simp
  with chat_invD(2) [OF assms(1), of p] x show thesis
    by (intro that [of p]) (auto simp: first_player_def subscript_def in_vec_def)
qed

section \<open>The simulation\<close>

lemma owner_of_append [simp]: "p < length ps \<Longrightarrow> owner_of (ps @ qs) p = owner_of ps p"
  by (simp add: owner_of_def nth_append)

lemma owner_of_update [simp]: "owner_of (ps[p := (ps ! p)\<lparr>m_ChatRoomID := i\<rparr>]) = owner_of ps"
proof
  show "owner_of (ps[p := (ps ! p)\<lparr>m_ChatRoomID := i\<rparr>]) q = owner_of ps q" for q
    by (cases "p < length ps"; cases "q = p") (simp_all add: owner_of_def not_less list_update_beyond)
qed

text \<open>The abstraction of rooms only reads the owners of their members.\<close>

lemma abs_rooms_cong:
  assumes "chat_inv g" "g_manager g' = g_manager g" "g_rooms g' = g_rooms g"
    "\<And>p. p < length (g_players g) \<Longrightarrow> owner_of (g_players g') p = owner_of (g_players g) p"
  shows "abs_rooms g' = abs_rooms g"
proof
  fix i
  show "abs_rooms g' i = abs_rooms g i"
  proof (cases "ChatRoomManager_GetRoom i (g_manager g)")
    case (Some r)
    have "image_mset (owner_of (g_players g')) (mset (members (g_rooms g ! r)))
        = image_mset (owner_of (g_players g)) (mset (members (g_rooms g ! r)))"
      using assms(4) chat_invD(3) [OF assms(1)] GetRoom_valid [OF assms(1) Some]
      by (intro image_mset_cong) auto
    with Some assms(2,3) show ?thesis by (simp add: abs_rooms_def)
  qed (simp add: abs_rooms_def assms(2))
qed

text \<open>
  A new player only shows for a session that has none yet.
\<close>

lemma login_shape:
  assumes inv: "chat_inv g" and s: "can_send g s"
    and ack: "ack = \<lparr>login_ack_success = True, login_ack_userid = login_req_id pkt\<rparr>"
  obtains g1 where "HandleLoginReq env (Some s) pkt g =
      with_packet env LoginAck_t (LoginAck_ByteSizeLong ack) (LoginAck_Serialize ack) (send_then s (Some True)) g1"
    "chat_inv g1" "abs_chat g1 = spec_login s (login_req_id pkt) (abs_chat g)" "can_send g1 s" "c_writes g1 = c_writes g"
proof -
  obtain x where x: "c_heap g s = Some x" "m_Socket x \<noteq> None" using s by (auto simp: can_send_def)
  let ?p = "Player_new\<lparr>m_PlayerUID := word_of_int (m_SessionUID x), ownerSession := Some s, m_Name := login_req_id pkt\<rparr>"
  let ?n = "length (g_players g)"
  let ?g1 = "upd_sess s (\<lambda>y. y\<lparr>m_Player := m_Player y @ [?n]\<rparr>) (g\<lparr>g_players := g_players g @ [?p]\<rparr>)"
  have h1: "c_heap ?g1 t = (if t = s then Some (x\<lparr>m_Player := m_Player x @ [?n]\<rparr>) else c_heap g t)" for t
    using x by simp
  have fields: "g_players ?g1 = g_players g @ [?p]" "g_rooms ?g1 = g_rooms g" "g_manager ?g1 = g_manager g"
    "c_writes ?g1 = c_writes g"
    by (simp_all add: upd_sess_def)
  have cs: "can_send ?g1 t = can_send g t" for t
    using h1 [of t] x by (auto simp: can_send_def simp del: upd_sess_fields)
  have run: "HandleLoginReq env (Some s) pkt g =
      with_packet env LoginAck_t (LoginAck_ByteSizeLong ack) (LoginAck_Serialize ack) (send_then s (Some True)) ?g1"
    using x by (simp add: HandleLoginReq_def Let_def ack del: upd_sess_fields)
  have inv1: "chat_inv ?g1"
    unfolding chat_inv_def fields h1 cs
  proof (intro conjI allI impI ballI)
    show "rooms_inv (g_manager g) (g_rooms g)" using inv by (simp add: chat_inv_def)
    show "\<exists>s. ownerSession ((g_players g @ [?p]) ! p) = Some s \<and> can_send g s"
      if "p < length (g_players g @ [?p])" for p
      using that inv s by (cases "p = ?n") (auto simp: chat_inv_def nth_append)
    show "p < length (g_players g @ [?p])"
      if "r < length (g_rooms g)" "p \<in> set (members (g_rooms g ! r))" for r p
      using chat_invD(3) [OF inv that] by simp
    show "m_MaxUser (g_rooms g ! r) = 10" if "r < length (g_rooms g)" for r
      using that by (rule chat_inv_MaxUser [OF inv])
    fix t y p
    assume h: "(if t = s then Some (x\<lparr>m_Player := m_Player x @ [?n]\<rparr>) else c_heap g t) = Some y" "p \<in> set (m_Player y)"
    then have "p = ?n \<and> t = s \<or> (\<exists>z. c_heap g t = Some z \<and> p \<in> set (m_Player z))"
      using x(1) by (auto split: if_splits)
    then have "p = ?n \<and> t = s \<or> p < ?n \<and> ownerSession (g_players g ! p) = Some t"
      using inv by (auto simp: chat_inv_def)
    then show "p < length (g_players g @ [?p])" "ownerSession ((g_players g @ [?p]) ! p) = Some t"
      by (auto simp: nth_append)
  qed
  have rooms1: "abs_rooms ?g1 = abs_rooms g"
    by (rule abs_rooms_cong [OF inv]) simp_all
  have users1: "abs_users ?g1 t =
      (if t = s \<and> abs_users g s = None then Some (login_req_id pkt, 0) else abs_users g t)" for t
  proof -
    have same: "user_entry (g_players g @ [?p]) y = user_entry (g_players g) y" if "c_heap g t = Some y" for t y
      using chat_invD(4) [OF inv that] by (cases "m_Player y") (auto simp: user_entry_def nth_append)
    show ?thesis
      unfolding abs_users_def fields h1
      using same [of s x] same [of t] x(1)
      by (cases "m_Player x"; cases "c_heap g t") (auto simp: user_entry_def Player_new_def nth_append)
  qed
  have abs1: "abs_chat ?g1 = spec_login s (login_req_id pkt) (abs_chat g)"
    using users1 fields(3) by (auto simp: abs_chat_def spec_login_def rooms1 fun_eq_iff cs)
  show thesis by (rule that [OF run inv1 abs1 _ fields(4)]) (simp only: cs s)
qed

text \<open>An answer that is short enough is written to the session that asked.\<close>

lemma reply_step:
  assumes "h = with_packet env ty n bytes (send_then s a) g1" "n = length bytes" "length bytes \<le> 65523" "can_send g1 s"
  obtains g' where "h = Inr (a, g')" "chat_inv g' = chat_inv g1" "abs_chat g' = abs_chat g1"
    "c_writes g' = c_writes g1 @ [(s, made_packet (env_pad env) ty bytes)]"
  by (rule that [of "g1\<lparr>c_pool := snd (PacketPool_Pop (snd (PacketPool_Pop (c_pool g1)))),
      c_writes := c_writes g1 @ [(s, made_packet (env_pad env) ty bytes)]\<rparr>"])
    (use assms in \<open>simp_all add: with_packet_ok send_then_ok\<close>)

lemma login_step:
  assumes inv: "chat_inv g" and s: "can_send g s"
    and size: "LoginAck_ByteSizeLong \<lparr>login_ack_success = True, login_ack_userid = login_req_id pkt\<rparr> \<le> 65523"
  obtains g' where "HandleLoginReq env (Some s) pkt g = Inr (Some True, g')" "chat_inv g'"
    "abs_chat g' = spec_login s (login_req_id pkt) (abs_chat g)"
    "c_writes g' = c_writes g @ [(s, made_packet (env_pad env) LoginAck_t
       (LoginAck_Serialize \<lparr>login_ack_success = True, login_ack_userid = login_req_id pkt\<rparr>))]"
proof -
  let ?ack = "\<lparr>login_ack_success = True, login_ack_userid = login_req_id pkt\<rparr>"
  obtain g1 where g1: "HandleLoginReq env (Some s) pkt g =
      with_packet env LoginAck_t (LoginAck_ByteSizeLong ?ack) (LoginAck_Serialize ?ack) (send_then s (Some True)) g1"
    "chat_inv g1" "abs_chat g1 = spec_login s (login_req_id pkt) (abs_chat g)" "can_send g1 s" "c_writes g1 = c_writes g"
    by (rule login_shape [OF inv s refl])
  show thesis
    by (rule reply_step [OF g1(1) _ _ g1(4)]) (use size g1 login_ack.size_ser [of ?ack] that in simp_all)
qed

text \<open>Entering: the first player of a session gets a new room id and becomes a member there.\<close>

lemma mset_emplace: "mset (mmap_emplace k v m) = add_mset (k, v) (mset m)"
proof -
  have "mset m = mset (takeWhile (\<lambda>e. fst e \<le> k) m) + mset (dropWhile (\<lambda>e. fst e \<le> k) m)"
    by (metis mset_append takeWhile_dropWhile_id)
  then show ?thesis by (simp add: mmap_emplace_def)
qed

lemma Enter_result:
  "p < length players \<Longrightarrow> \<exists>room'. ChatRoom_Enter players p room = Inr room'
     \<and> mset (members room') = add_mset p (mset (members room))
     \<and> m_RoomID room' = m_RoomID room \<and> m_RoomName room' = m_RoomName room \<and> m_MaxUser room' = m_MaxUser room"
  by (simp add: ChatRoom_Enter_def members_def mset_emplace)

lemma move_step:
  assumes inv: "chat_inv g" and s: "first_player s g = Inr p"
    and r: "ChatRoomManager_GetRoom i (g_manager g) = Some r"
    and room': "mset (members room') = add_mset p (mset (members (g_rooms g ! r)))"
      "m_RoomID room' = m_RoomID (g_rooms g ! r)" "m_RoomName room' = m_RoomName (g_rooms g ! r)"
      "m_MaxUser room' = m_MaxUser (g_rooms g ! r)"
    and g1: "g1 = g\<lparr>g_players := (g_players g)[p := (g_players g ! p)\<lparr>m_ChatRoomID := i\<rparr>],
                    g_rooms := (g_rooms g)[r := room']\<rparr>"
  shows "chat_inv g1 \<and> abs_chat g1 = spec_move s i (abs_chat g)"
proof -
  obtain x ps where x: "c_heap g s = Some x" "m_Player x = p # ps"
  proof -
    from s obtain x where "c_heap g s = Some x" "in_vec (m_Player x) 0" "p = m_Player x ! 0"
      by (auto simp: first_player_def bindR_Inr_iff subscript_Inr_iff)
    then show thesis by (intro that [of x "tl (m_Player x)"]) (cases "m_Player x"; simp add: in_vec_def)+
  qed
  have p: "p < length (g_players g)" "owner_of (g_players g) p = s" "ownerSession (g_players g ! p) = Some s"
    using chat_invD(4) [OF inv x(1)] chat_invD(2) [OF inv, of p] x(2) by auto
  have rv: "r < length (g_rooms g)" "m_RoomID (g_rooms g ! r) = i" using GetRoom_valid [OF inv r] by auto
  let ?ps = "(g_players g)[p := (g_players g ! p)\<lparr>m_ChatRoomID := i\<rparr>]"
  have own: "ownerSession (?ps ! q) = ownerSession (g_players g ! q)" for q
    using p(1) by (cases "q = p") simp_all
  have set': "set (members room') = insert p (set (members (g_rooms g ! r)))"
    using room'(1) by (metis set_mset_add_mset_insert set_mset_mset)
  have inv1: "chat_inv g1"
    unfolding chat_inv_def g1
  proof (simp add: own, intro conjI allI impI ballI)
    show "rooms_inv (g_manager g) ((g_rooms g)[r := room'])"
      using chat_invD(1) [OF inv] room'(2) by (rule rooms_inv_update)
    show "\<exists>s. ownerSession (g_players g ! q) = Some s \<and> can_send g s" if "q < length (g_players g)" for q
      using inv that by (simp add: chat_inv_def)
    show "q < length (g_players g)"
      if "k < length (g_rooms g)" "q \<in> set (members ((g_rooms g)[r := room'] ! k))" for k q
      using that chat_invD(3) [OF inv that(1), of q] set' p(1) rv(1) by (cases "k = r") (auto dest: chat_invD(3) [OF inv])
    show "m_MaxUser ((g_rooms g)[r := room'] ! k) = 10" if "k < length (g_rooms g)" for k
      using that chat_inv_MaxUser [OF inv] room'(4) by (cases "k = r") simp_all
    show "q < length (g_players g)" "ownerSession (g_players g ! q) = Some t"
      if "c_heap g t = Some y" "q \<in> set (m_Player y)" for t y q
      using inv that by (auto simp: chat_inv_def)
  qed
  have rooms1: "abs_rooms g1 j = (if j = i then map_option (\<lambda>(n, ms). (n, add_mset s ms)) (abs_rooms g i)
      else abs_rooms g j)" for j
  proof (cases "ChatRoomManager_GetRoom j (g_manager g)")
    case None
    then show ?thesis using r by (auto simp: abs_rooms_def g1)
  next
    case (Some k)
    have kv: "k < length (g_rooms g)" "m_RoomID (g_rooms g ! k) = j" using GetRoom_valid [OF inv Some] by auto
    show ?thesis
    proof (cases "j = i")
      case True
      then have "k = r" using Some r by simp
      then show ?thesis
        using True r rv room' p(2) by (simp add: abs_rooms_def g1)
    next
      case False
      then have "k \<noteq> r" using kv rv by auto
      with False Some show ?thesis by (simp add: abs_rooms_def g1)
    qed
  qed
  have users1: "abs_users g1 t = (if t = s then map_option (\<lambda>(n, _). (n, i)) (abs_users g s) else abs_users g t)" for t
  proof (cases "t = s")
    case True
    then show ?thesis using x p(1) by (simp add: abs_users_def g1 user_entry_def)
  next
    case False
    have "user_entry ?ps y = user_entry (g_players g) y" if y: "c_heap g t = Some y" for y
    proof (cases "m_Player y")
      case (Cons q qs)
      then have "q \<noteq> p" using chat_invD(4) [OF inv y, of q] False p(2) by auto
      with Cons show ?thesis by (simp add: user_entry_def)
    qed (simp add: user_entry_def)
    then show ?thesis using False by (cases "c_heap g t") (simp_all add: abs_users_def g1)
  qed
  have "abs_chat g1 = spec_move s i (abs_chat g)"
    using rooms1 users1 by (simp add: abs_chat_def spec_move_def fun_eq_iff g1)
  with inv1 show ?thesis by simp
qed

lemma enter_shape:
  assumes inv: "chat_inv g" and user: "abs_users g s = Some (name, j)"
    and room: "abs_rooms g (ucast (enter_req_roomid pkt)) = Some (rname, ms)"
    and ack: "ack = \<lparr>enter_ack_roomid = ucast (ucast (enter_req_roomid pkt) :: uint16), enter_ack_roomname = rname\<rparr>"
  obtains g1 where "HandleEnterChatRoomReq env (Some s) pkt g =
      with_packet env EnterChatRoomAck_t (EnterChatRoomAck_ByteSizeLong ack) (EnterChatRoomAck_Serialize ack) (send_then s None) g1"
    "chat_inv g1" "abs_chat g1 = spec_move s (ucast (enter_req_roomid pkt)) (abs_chat g)" "can_send g1 s" "c_writes g1 = c_writes g"
proof -
  let ?i = "ucast (enter_req_roomid pkt) :: uint16"
  obtain p where p: "first_player s g = Inr p" "p < length (g_players g)" "can_send g s"
    by (rule logged_in [OF inv user]) blast
  obtain r where r: "ChatRoomManager_GetRoom ?i (g_manager g) = Some r" "rname = m_RoomName (g_rooms g ! r)"
    using room by (auto simp: abs_rooms_def)
  have rv: "r < length (g_rooms g)" "m_RoomID (g_rooms g ! r) = ?i" using GetRoom_valid [OF inv r(1)] by auto
  let ?ps = "(g_players g)[p := (g_players g ! p)\<lparr>m_ChatRoomID := ?i\<rparr>]"
  obtain room' where room': "ChatRoom_Enter ?ps p (g_rooms g ! r) = Inr room'"
    "mset (members room') = add_mset p (mset (members (g_rooms g ! r)))"
    "m_RoomID room' = m_RoomID (g_rooms g ! r)" "m_RoomName room' = m_RoomName (g_rooms g ! r)"
    "m_MaxUser room' = m_MaxUser (g_rooms g ! r)"
    using Enter_result [of p ?ps "g_rooms g ! r"] p(2) by auto
  let ?g1 = "g\<lparr>g_players := ?ps, g_rooms := (g_rooms g)[r := room']\<rparr>"
  have move: "chat_inv ?g1 \<and> abs_chat ?g1 = spec_move s ?i (abs_chat g)"
    by (rule move_step [OF inv p(1) r(1) room'(2-5) refl])
  have run: "HandleEnterChatRoomReq env (Some s) pkt g =
      with_packet env EnterChatRoomAck_t (EnterChatRoomAck_ByteSizeLong ack) (EnterChatRoomAck_Serialize ack) (send_then s None) ?g1"
    using p r rv room' by (simp add: HandleEnterChatRoomReq_def Let_def ack)
  show thesis by (rule that [OF run]) (use move p(3) in simp_all)
qed

lemma enter_step:
  assumes inv: "chat_inv g" and user: "abs_users g s = Some (name, j)"
    and room: "abs_rooms g (ucast (enter_req_roomid pkt)) = Some (rname, ms)"
    and ack: "ack = \<lparr>enter_ack_roomid = ucast (ucast (enter_req_roomid pkt) :: uint16), enter_ack_roomname = rname\<rparr>"
    and size: "EnterChatRoomAck_ByteSizeLong ack \<le> 65523"
  obtains g' where "HandleEnterChatRoomReq env (Some s) pkt g = Inr (None, g')" "chat_inv g'"
    "abs_chat g' = spec_move s (ucast (enter_req_roomid pkt)) (abs_chat g)"
    "c_writes g' = c_writes g @ [(s, made_packet (env_pad env) EnterChatRoomAck_t (EnterChatRoomAck_Serialize ack))]"
proof (rule enter_shape [OF inv user room ack, of env])
  fix g1 assume g1: "HandleEnterChatRoomReq env (Some s) pkt g =
      with_packet env EnterChatRoomAck_t (EnterChatRoomAck_ByteSizeLong ack) (EnterChatRoomAck_Serialize ack) (send_then s None) g1"
    "chat_inv g1" "abs_chat g1 = spec_move s (ucast (enter_req_roomid pkt)) (abs_chat g)" "can_send g1 s" "c_writes g1 = c_writes g"
  show thesis
    by (rule reply_step [OF g1(1) _ _ g1(4)]) (use size g1 enter_ack.size_ser [of ack] that in simp_all)
qed

lemma create_room_step:
  assumes inv: "chat_inv g" and u: "StringToUTF8 (env_win env) name = Inr utf8"
    and i: "i = roomNumber (g_manager g) + 1"
  obtains m' rooms' where
    "ChatRoomManager_CreateRoom (env_win env) name 10 (g_manager g, g_rooms g) = Inr (length (g_rooms g), m', rooms')"
    "chat_inv (g\<lparr>g_manager := m', g_rooms := rooms'\<rparr>)"
    "abs_chat (g\<lparr>g_manager := m', g_rooms := rooms'\<rparr>)
       = (abs_chat g)\<lparr>sp_rooms := (abs_rooms g)(i \<mapsto> (utf8, {#})), sp_next := i\<rparr>"
    "ChatRoomManager_GetRoom i m' = Some (length (g_rooms g))"
    "length rooms' = Suc (length (g_rooms g))" "roomNumber m' = i"
    "m_RoomID (rooms' ! length (g_rooms g)) = i"
proof -
  let ?new = "\<lparr>cr_ChatRoom = [], m_RoomID = roomNumber (g_manager g) + 1, m_RoomName = utf8, m_MaxUser = 10\<rparr>"
  obtain m' where m':
    "ChatRoomManager_CreateRoom (env_win env) name 10 (g_manager g, g_rooms g) =
       Inr (length (g_rooms g), m', g_rooms g @ [?new])"
    "rooms_inv m' (g_rooms g @ [?new])" "roomNumber m' = roomNumber (g_manager g) + 1"
    "\<And>j. ChatRoomManager_GetRoom j m' =
       (if j = roomNumber (g_manager g) + 1 then Some (length (g_rooms g)) else ChatRoomManager_GetRoom j (g_manager g))"
    by (rule CreateRoom_ok [OF chat_invD(1) [OF inv] u, where maxUser = 10]) blast
  let ?g = "g\<lparr>g_manager := m', g_rooms := g_rooms g @ [?new]\<rparr>"
  have inv': "chat_inv ?g"
    using inv m'(2)
    by (auto simp: chat_inv_def nth_append less_Suc_eq members_def can_send_def)
  have rooms': "abs_rooms ?g j = ((abs_rooms g)(i \<mapsto> (utf8, {#}))) j" for j
  proof (cases "j = i")
    case False
    then show ?thesis
      using GetRoom_valid [OF inv, of j]
      by (cases "ChatRoomManager_GetRoom j (g_manager g)") (auto simp: abs_rooms_def m'(4) i nth_append)
  qed (simp add: abs_rooms_def m'(4) i members_def)
  have abs': "abs_chat ?g = (abs_chat g)\<lparr>sp_rooms := (abs_rooms g)(i \<mapsto> (utf8, {#})), sp_next := i\<rparr>"
    using rooms' m'(3) i by (simp add: abs_chat_def abs_users_def fun_eq_iff)
  show thesis
    by (rule that [OF m'(1) inv' abs']) (simp_all add: m'(3,4) i)
qed

lemma create_shape:
  assumes inv: "chat_inv g" and user: "abs_users g s = Some (name, j)"
    and u: "StringToUTF8 (env_win env) (create_req_roomname pkt) = Inr utf8"
    and i: "i = roomNumber (g_manager g) + 1"
    and ack: "ack = \<lparr>enter_ack_roomid = ucast i, enter_ack_roomname = create_req_roomname pkt\<rparr>"
  obtains g1 where "HandleCreateChatRoomReq env (Some s) pkt g =
      with_packet env EnterChatRoomAck_t (EnterChatRoomAck_ByteSizeLong ack) (EnterChatRoomAck_Serialize ack) (send_then s None) g1"
    "chat_inv g1" "abs_chat g1 = spec_create s utf8 (abs_chat g)" "can_send g1 s" "c_writes g1 = c_writes g"
proof -
  obtain p where p: "first_player s g = Inr p" "p < length (g_players g)" "can_send g s"
    by (rule logged_in [OF inv user]) blast
  obtain m' rooms' where cr:
    "ChatRoomManager_CreateRoom (env_win env) (create_req_roomname pkt) 10 (g_manager g, g_rooms g)
       = Inr (length (g_rooms g), m', rooms')"
    "chat_inv (g\<lparr>g_manager := m', g_rooms := rooms'\<rparr>)"
    "abs_chat (g\<lparr>g_manager := m', g_rooms := rooms'\<rparr>)
       = (abs_chat g)\<lparr>sp_rooms := (abs_rooms g)(i \<mapsto> (utf8, {#})), sp_next := i\<rparr>"
    "ChatRoomManager_GetRoom i m' = Some (length (g_rooms g))"
    "length rooms' = Suc (length (g_rooms g))" "roomNumber m' = i"
    "m_RoomID (rooms' ! length (g_rooms g)) = i"
    by (rule create_room_step [OF inv u i]) blast
  let ?r = "length (g_rooms g)"
  let ?gc = "g\<lparr>g_manager := m', g_rooms := rooms'\<rparr>"
  obtain room' where room': "ChatRoom_Enter (g_players g) p (rooms' ! ?r) = Inr room'"
    "mset (members room') = add_mset p (mset (members (g_rooms ?gc ! ?r)))"
    "m_RoomID room' = m_RoomID (g_rooms ?gc ! ?r)" "m_RoomName room' = m_RoomName (g_rooms ?gc ! ?r)"
    "m_MaxUser room' = m_MaxUser (g_rooms ?gc ! ?r)"
    using Enter_result [of p "g_players g" "rooms' ! ?r"] p(2) by auto
  let ?g1 = "?gc\<lparr>g_players := (g_players ?gc)[p := (g_players ?gc ! p)\<lparr>m_ChatRoomID := i\<rparr>],
                 g_rooms := (g_rooms ?gc)[?r := room']\<rparr>"
  have fp: "first_player s ?gc = Inr p" using p(1) by (simp add: first_player_def)
  have gr: "ChatRoomManager_GetRoom i (g_manager ?gc) = Some ?r" using cr(4) by simp
  have move: "chat_inv ?g1 \<and> abs_chat ?g1 = spec_move s i (abs_chat ?gc)"
    by (rule move_step [OF cr(2) fp gr room'(2-5) refl])
  have rt: "ucast (ucast i :: uint32) = i" by (rule bit_word_eqI) (simp add: bit_simps)
  have comm: "h\<lparr>g_rooms := rs, g_players := ps\<rparr> = h\<lparr>g_players := ps, g_rooms := rs\<rparr>" for h :: Game and ps rs by simp
  have run: "HandleCreateChatRoomReq env (Some s) pkt g =
      with_packet env EnterChatRoomAck_t (EnterChatRoomAck_ByteSizeLong ack) (EnterChatRoomAck_Serialize ack) (send_then s None) ?g1"
    using p cr(1,5,7) room'(1) rt by (simp add: HandleCreateChatRoomReq_def Let_def ack comm)
  show thesis
    by (rule that [OF run]) (use move cr(3,6) i p(3) in \<open>simp_all add: spec_create_def Let_def\<close>)
qed

lemma create_step:
  assumes inv: "chat_inv g" and user: "abs_users g s = Some (name, j)"
    and u: "StringToUTF8 (env_win env) (create_req_roomname pkt) = Inr utf8"
    and i: "i = roomNumber (g_manager g) + 1"
    and ack: "ack = \<lparr>enter_ack_roomid = ucast i, enter_ack_roomname = create_req_roomname pkt\<rparr>"
    and size: "EnterChatRoomAck_ByteSizeLong ack \<le> 65523"
  obtains g' where "HandleCreateChatRoomReq env (Some s) pkt g = Inr (None, g')" "chat_inv g'"
    "abs_chat g' = spec_create s utf8 (abs_chat g)"
    "c_writes g' = c_writes g @ [(s, made_packet (env_pad env) EnterChatRoomAck_t (EnterChatRoomAck_Serialize ack))]"
proof (rule create_shape [OF inv user u i ack])
  fix g1 assume g1: "HandleCreateChatRoomReq env (Some s) pkt g =
      with_packet env EnterChatRoomAck_t (EnterChatRoomAck_ByteSizeLong ack) (EnterChatRoomAck_Serialize ack) (send_then s None) g1"
    "chat_inv g1" "abs_chat g1 = spec_create s utf8 (abs_chat g)" "can_send g1 s" "c_writes g1 = c_writes g"
  show thesis
    by (rule reply_step [OF g1(1) _ _ g1(4)]) (use size g1 enter_ack.size_ser [of ack] that in simp_all)
qed

text \<open>A chat message reaches every member of the sender's room, the sender among them.\<close>

lemma chat_step:
  assumes inv: "chat_inv g" and user: "abs_users g s = Some (name, i)"
    and room: "abs_rooms g i = Some (rname, ms)"
    and ack: "ack = \<lparr>chat_ack_sender = name, chat_ack_message = chat_req_message pkt\<rparr>"
    and size: "ChatAck_ByteSizeLong ack \<le> 65523"
  obtains g' sent where "HandleChatReq env (Some s) pkt g = Inr (None, g')" "chat_inv g'"
    "abs_chat g' = abs_chat g" "c_writes g' = c_writes g @ sent"
    "mset (map (\<lambda>(t, p). (t, Packet_view p)) sent)
       = spec_chat s (\<lambda>n. packet_bytes (env_pad env) (type_code ChatAck_t)
           (ChatAck_Serialize \<lparr>chat_ack_sender = n, chat_ack_message = chat_req_message pkt\<rparr>)) (abs_chat g)"
proof -
  obtain p where p: "first_player s g = Inr p" "p < length (g_players g)" "can_send g s"
    "m_Name (g_players g ! p) = name" "m_ChatRoomID (g_players g ! p) = i"
    by (rule logged_in [OF inv user]) blast
  obtain r where r: "ChatRoomManager_GetRoom i (g_manager g) = Some r"
    "ms = image_mset (owner_of (g_players g)) (mset (members (g_rooms g ! r)))"
    using room by (auto simp: abs_rooms_def)
  have rv: "r < length (g_rooms g)" using GetRoom_valid [OF inv r(1)] by auto
  have n: "length (ChatAck_Serialize ack) \<le> 65523" using size chat_ack.size_ser [of ack] by simp
  let ?pk = "made_packet (env_pad env) ChatAck_t (ChatAck_Serialize ack)"
  let ?es = "cr_ChatRoom (g_rooms g ! r)"
  let ?g1 = "g\<lparr>c_pool := snd (PacketPool_Pop (c_pool g))\<rparr>"
  have mem: "\<forall>(k, q) \<in> set ?es. q < length (g_players ?g1) \<and> ownerSession (g_players ?g1 ! q) \<noteq> None
       \<and> can_send ?g1 (owner_of (g_players ?g1) q)"
  proof (clarify)
    fix k q
    assume "(k, q) \<in> set ?es"
    then have "q \<in> set (members (g_rooms g ! r))" by (force simp: members_def)
    then have "q < length (g_players g)" using chat_invD(3) [OF inv rv] by simp
    with chat_invD(2) [OF inv this]
    show "q < length (g_players ?g1) \<and> ownerSession (g_players ?g1 ! q) \<noteq> None
       \<and> can_send ?g1 (owner_of (g_players ?g1) q)" by simp
  qed
  obtain pool where pool: "broadcast_to ?pk ?es ?g1 =
      Inr (?g1\<lparr>c_pool := pool,
             c_writes := c_writes ?g1 @ map (\<lambda>(k, q). (owner_of (g_players ?g1) q, ?pk)) ?es\<rparr>)"
    using broadcast_ok [OF n mem] by blast
  let ?sent = "map (\<lambda>(k, q). (owner_of (g_players g) q, ?pk)) ?es"
  let ?g2 = "?g1\<lparr>c_pool := pool, c_writes := c_writes ?g1 @ ?sent\<rparr>"
  have run: "HandleChatReq env (Some s) pkt g = Inr (None, ?g2)"
    using p r(1) rv pool n size chat_ack.size_ser [of ack] copy_made_packet [OF n]
    by (simp add: HandleChatReq_def Let_def with_packet_ok ack ChatRoom_BroadCast_def)
  have out: "mset (map (\<lambda>(t, p). (t, Packet_view p)) ?sent) =
      image_mset (\<lambda>t. (t, packet_bytes (env_pad env) (type_code ChatAck_t) (ChatAck_Serialize ack))) ms"
    using made_packet_view [OF n]
    by (simp add: r(2) members_def multiset.map_comp comp_def split_beta)
  show thesis
  proof (rule that [OF run])
    show "chat_inv ?g2" "abs_chat ?g2 = abs_chat g" using inv by simp_all
    show "c_writes ?g2 = c_writes g @ ?sent" by simp
    show "mset (map (\<lambda>(t, p). (t, Packet_view p)) ?sent)
       = spec_chat s (\<lambda>n. packet_bytes (env_pad env) (type_code ChatAck_t)
           (ChatAck_Serialize \<lparr>chat_ack_sender = n, chat_ack_message = chat_req_message pkt\<rparr>)) (abs_chat g)"
      unfolding out using user room by (simp add: spec_chat_def abs_chat_def ack)
  qed
qed

end
