(* ===== verification/Chat_Requests.thy ===== *)
theory Chat_Requests
  imports Chat_Refinement
begin

text \<open>
  The requests that do not change the chat state, what a request that the server is not
  prepared for does, and the way of a request from the wire to its handler.
\<close>

section \<open>The list of rooms\<close>

lemma collect_rooms_ok:
  assumes "\<forall>(i, r) \<in> set es. r < length rooms"
  shows "collect_rooms es rooms ack =
    Inr (if es = [] then ack
         else ack\<lparr>list_ack_success := True,
                  list_ack_chatroominfo := list_ack_chatroominfo ack
                    @ map (\<lambda>(i, r). ChatRoom_GetRoomInfo (rooms ! r)) es\<rparr>)"
  using assms
proof (induction es arbitrary: ack)
  case (Cons e es)
  then show ?case by (cases e; cases "es = []") simp_all
qed simp

definition room_list :: "Game \<Rightarrow> ChatRoomListAck" where
  "room_list g =
     \<lparr>list_ack_success = (rm_ChatRoom (g_manager g) \<noteq> []),
      list_ack_chatroominfo = map (\<lambda>(i, r). ChatRoom_GetRoomInfo (g_rooms g ! r)) (rm_ChatRoom (g_manager g))\<rparr>"

lemma table_valid:
  assumes "rooms_inv m rooms" "(i, r) \<in> set (rm_ChatRoom m)"
  shows "r < length rooms \<and> m_RoomID (rooms ! r) = i"
proof -
  have "distinct (map fst (rm_ChatRoom m))"
    using assms(1) strict_sorted_iff by (auto simp: rooms_inv_def omap_inv_def)
  then have "map_of (rm_ChatRoom m) i = Some r" using assms(2) by (rule map_of_is_SomeI)
  with assms(1) show ?thesis by (auto simp: rooms_inv_def)
qed

lemma list_step:
  assumes inv: "chat_inv g" and s: "can_send g s"
    and size: "ChatRoomListAck_ByteSizeLong (room_list g) \<le> 65523"
  shows "HandleChatRoomListReq env (Some s) pkt g = Inr (Some True, g\<lparr>c_pool := snd (PacketPool_Pop (snd (PacketPool_Pop (c_pool g)))),
      c_writes := c_writes g @ [(s, made_packet (env_pad env) ChatRoomListAck_t (ChatRoomListAck_Serialize (room_list g)))]\<rparr>)"
proof -
  have v: "\<forall>(i, r) \<in> set (rm_ChatRoom (g_manager g)). r < length (g_rooms g)"
    using table_valid [OF chat_invD(1) [OF inv]] by blast
  have "collect_rooms (ChatRoomManager_GetAllRoom (g_manager g)) (g_rooms g) ChatRoomListAck_new = Inr (room_list g)"
    using collect_rooms_ok [OF v, of ChatRoomListAck_new]
    by (simp add: ChatRoomManager_GetAllRoom_def room_list_def ChatRoomListAck_new_def)
  then show ?thesis
    using s size list_ack.size_ser [of "room_list g"]
    by (simp add: HandleChatRoomListReq_def with_packet_ok send_then_ok)
qed

text \<open>The ids in the list are those of the table, in increasing order.\<close>

lemma room_list_ids:
  assumes "chat_inv g"
  shows "map info_roomid (list_ack_chatroominfo (room_list g)) = map (\<lambda>(i, r). ucast i) (rm_ChatRoom (g_manager g))"
  using table_valid [OF chat_invD(1) [OF assms]]
  by (auto simp: room_list_def ChatRoom_GetRoomInfo_def comp_def split_beta)

section \<open>Echo\<close>

lemma dummy_step:
  assumes s: "can_send g s" and size: "DummyPacketReq_ByteSizeLong pkt \<le> 65523"
  shows "HandleDummyPacketReq env (Some s) pkt g = Inr (Some False, g\<lparr>c_pool := snd (PacketPool_Pop (snd (PacketPool_Pop (c_pool g)))),
      c_writes := c_writes g @ [(s, made_packet (env_pad env) DummyPacketAck_t
        (DummyPacketAck_Serialize \<lparr>dummy_ack_message = dummy_req_message pkt\<rparr>))]\<rparr>)"
  using assms dummy_ack.size_ser [of "\<lparr>dummy_ack_message = dummy_req_message pkt\<rparr>"]
  by (simp add: HandleDummyPacketReq_def Let_def with_packet_ok send_then_ok DummyPacketReq_ByteSizeLong_def
      DummyPacketAck_ByteSizeLong_def)

section \<open>Requests that bring the server down\<close>

lemma no_player:
  assumes "c_heap g s = Some x" "m_Player x = []"
  shows "HandleEnterChatRoomReq env (Some s) enter g = Inl OutOfBounds"
    "HandleCreateChatRoomReq env (Some s) create g = Inl OutOfBounds"
    "HandleChatReq env (Some s) chat g = Inl OutOfBounds"
  using assms
  by (simp_all add: HandleEnterChatRoomReq_def HandleCreateChatRoomReq_def HandleChatReq_def
      first_player_def subscript_def in_vec_def)

lemma no_room:
  assumes "chat_inv g" "abs_users g s = Some (name, j)"
  shows "abs_rooms g (ucast (enter_req_roomid pkt)) = None \<Longrightarrow>
      HandleEnterChatRoomReq env (Some s) pkt g = Inl NullDeref"
    "abs_rooms g j = None \<Longrightarrow> ChatAck_ByteSizeLong \<lparr>chat_ack_sender = name, chat_ack_message = chat_req_message chat\<rparr> \<le> 65523 \<Longrightarrow>
      HandleChatReq env (Some s) chat g = Inl NullDeref"
proof -
  obtain p where p: "first_player s g = Inr p" "p < length (g_players g)"
    "m_Name (g_players g ! p) = name" "m_ChatRoomID (g_players g ! p) = j"
    by (rule logged_in [OF assms]) blast
  show "HandleEnterChatRoomReq env (Some s) pkt g = Inl NullDeref"
    if "abs_rooms g (ucast (enter_req_roomid pkt)) = None"
    using that p by (simp add: HandleEnterChatRoomReq_def abs_rooms_def Let_def)
  show "HandleChatReq env (Some s) chat g = Inl NullDeref"
    if "abs_rooms g j = None" "ChatAck_ByteSizeLong \<lparr>chat_ack_sender = name, chat_ack_message = chat_req_message chat\<rparr> \<le> 65523"
    using that p chat_ack.size_ser [of "\<lparr>chat_ack_sender = name, chat_ack_message = chat_req_message chat\<rparr>"]
    by (simp add: HandleChatReq_def abs_rooms_def Let_def with_packet_ok)
qed

text \<open>The codes for which the table has a handler.\<close>

lemma table_domain:
  "GPacketHadler env ty \<noteq> None \<longleftrightarrow> ty \<in> {1000, 1002, 1004, 1006, 1008, 1010, 1012}"
  by (auto simp: GPacketHadler_def)

lemma unregistered_type:
  assumes "packet_type_of buffer = Inr ty" "ty \<notin> {1000, 1002, 1004, 1006, 1008, 1010, 1012}"
  shows "PacketHandler_HandlePacket env s buffer len g = Inl (if ty = 65535 then OutOfBounds else BadFunctionCall)"
  using assms(2) table_domain [of env ty] unhandled_type [OF assms(1)] by (auto simp: PacketHandler_HandlePacket_def)

end
