(* ===== verification/Game_Examples.thy ===== *)
theory Game_Examples
  imports Receive_Stream Chat_Requests
begin

text \<open>
  A server with two logged-in users, Alice (session 10) and Bob (session 11), both in room 1.
  The properties of the game server are applied to it.
\<close>

definition ex_buffer :: PacketBuffer where
  "ex_buffer = \<lparr>m_Buffer = replicate 655360 0, m_Capacity = 655360, m_BufferSize = 65536,
                m_ReadPos = 0, m_WritePos = 0\<rparr>"

lemma ex_buffer_facts [simp]:
  "pb_inv ex_buffer" "pb_empty ex_buffer" "m_BufferSize ex_buffer = 65536"
  by (simp_all add: ex_buffer_def pb_inv_def pb_empty_def)

definition ex_session :: "int \<Rightarrow> NetState \<Rightarrow> player_ptr list \<Rightarrow> GameSession" where
  "ex_session uid st players =
     \<lparr>m_SessionUID = uid, m_NetState = st, m_IsRunning = False, m_Socket = Some True, m_Resolver = False,
      m_Service = True, m_PacketBuffer = ex_buffer, m_SeqNum = 0, m_ReadPending = True, m_Player = players\<rparr>"

lemma ex_session_fields [simp]:
  "m_SessionUID (ex_session u st ps) = u" "m_NetState (ex_session u st ps) = st"
  "m_Socket (ex_session u st ps) = Some True" "m_Service (ex_session u st ps)"
  "m_PacketBuffer (ex_session u st ps) = ex_buffer" "m_Player (ex_session u st ps) = ps"
  by (simp_all add: ex_session_def)

definition ex_players :: "Player list" where
  "ex_players =
     [\<lparr>m_PlayerUID = 0, m_Name = [65], m_ChatRoomID = 1, ownerSession = Some (SessionPtr 10)\<rparr>,
      \<lparr>m_PlayerUID = 1, m_Name = [66], m_ChatRoomID = 1, ownerSession = Some (SessionPtr 11)\<rparr>]"

definition ex_room :: ChatRoom where
  "ex_room = \<lparr>cr_ChatRoom = [(0, 0), (1, 1)], m_RoomID = 1, m_RoomName = [114], m_MaxUser = 10\<rparr>"

definition ex_game :: Game where
  "ex_game = Game_blank
     \<lparr>c_heap := [SessionPtr 10 \<mapsto> ex_session 0 NetState_None [0], SessionPtr 11 \<mapsto> ex_session 1 NetState_None [1]],
      c_manager := [0 \<mapsto> SessionPtr 10, 1 \<mapsto> SessionPtr 11],
      c_tasks := example_queue, c_router := example_router,
      c_service := \<lparr>m_type = ServiceType_Server, m_Sessions = [SessionPtr 10, SessionPtr 11], m_SessionCount = 2,
                    m_MaxSessionCount = 1, m_NextSessionUID = 2, m_SessionMaker = True, m_Acceptor = True,
                    m_IoStopped = False\<rparr>,
      g_next := 2, g_players := ex_players, g_rooms := [ex_room],
      g_manager := \<lparr>rm_ChatRoom = [(1, 0)], roomNumber = 1\<rparr>\<rparr>"

lemma ex_game_fields [simp]:
  "c_heap ex_game = [SessionPtr 10 \<mapsto> ex_session 0 NetState_None [0], SessionPtr 11 \<mapsto> ex_session 1 NetState_None [1]]"
  "c_manager ex_game = [0 \<mapsto> SessionPtr 10, 1 \<mapsto> SessionPtr 11]"
  "c_router ex_game = example_router" "g_players ex_game = ex_players" "g_rooms ex_game = [ex_room]"
  "g_manager ex_game = \<lparr>rm_ChatRoom = [(1, 0)], roomNumber = 1\<rparr>" "c_writes ex_game = []"
  "m_Sessions (c_service ex_game) = [SessionPtr 10, SessionPtr 11]" "c_buffers ex_game = Map.empty"
  "c_tasks ex_game = example_queue"
  by (simp_all add: ex_game_def Game_blank_def)

lemma ex_running: "tq_IsRunning example_queue" "r_IsRunning example_router" "r_NumWorkers example_router = 2"
  by (simp_all add: example_queue_def TaskQueue_Initialize_def TaskQueue_new_def example_router_def)

lemma ex_service_inv: "service_inv (c_service ex_game)"
  by (simp add: ex_game_def service_inv_def less_eq_session_ptr_def)

lemma ex_uid: "uid_of ex_game (SessionPtr 10) = 0" "uid_of ex_game (SessionPtr 11) = 1"
  by (simp_all add: uid_of_def)

lemma ex_can_send: "can_send ex_game (SessionPtr 10)" "can_send ex_game (SessionPtr 11)"
  by (simp_all add: can_send_def)

lemma ex_chat_inv: "chat_inv ex_game"
  by (auto simp: chat_inv_def rooms_inv_def omap_inv_def ex_players_def ex_room_def members_def less_Suc_eq
      can_send_def split: if_splits)

lemma ex_users: "abs_users ex_game (SessionPtr 10) = Some ([65], 1)" "abs_users ex_game (SessionPtr 11) = Some ([66], 1)"
  by (simp_all add: abs_users_def user_entry_def ex_players_def)

lemma ex_rooms: "abs_rooms ex_game 1 = Some ([114], {#SessionPtr 10, SessionPtr 11#})" "abs_rooms ex_game 9 = None"
  by (simp_all add: abs_rooms_def ChatRoomManager_GetRoom_def ex_room_def members_def owner_of_def ex_players_def)

lemma ex_ready: "sess_ready ex_game (SessionPtr 11)" "recv_inv ex_game"
  "recv_wpos ex_game 1 = 0" "recv_pending ex_game 1 = []"
  by (simp_all add: sess_ready_def recv_inv_def example_router_inv recv_wpos_def recv_pending_def)

lemma ex_live: "live ex_game (SessionPtr 11)"
  by (simp add: live_def)

definition ex_env :: Env where
  "ex_env = \<lparr>env_win = ascii_win, env_utf8 = (\<lambda>s. \<forall>b \<in> set s. b < 128), env_pad = (0, 0)\<rparr>"

text \<open>The size of a short message, from the bound on its fields.\<close>

lemma short_strings:
  "length s \<le> 30000 \<Longrightarrow> size_string s \<le> 30006" "size_bool b \<le> 2"
  using size_string_le [of s] by (auto simp: size_bool_def)

end
