(* ===== verification/Chat_Service.thy ===== *)
theory Chat_Service
  imports Game_Examples
begin

text \<open>
  The chat service as a whole: requests as the server takes them from the wire, runs of the
  handlers over a sequence of requests, and the refinement of the abstract service along a run.
\<close>

section \<open>Requests\<close>

datatype request =
  Req_enter EnterChatRoomReq
| Req_login LoginReq
| Req_list ChatRoomListReq
| Req_create CreateChatRoomReq
| Req_refresh RefreshChatRoomReq
| Req_chat ChatReq
| Req_dummy DummyPacketReq

fun req_type :: "request \<Rightarrow> packet_type" where
  "req_type (Req_enter m) = EnterChatRoomReq_t"
| "req_type (Req_login m) = LoginReq_t"
| "req_type (Req_list m) = ChatRoomListReq_t"
| "req_type (Req_create m) = CreateChatRoomReq_t"
| "req_type (Req_refresh m) = RefreshChatRoomReq_t"
| "req_type (Req_chat m) = ChatReq_t"
| "req_type (Req_dummy m) = DummyPacketReq_t"

fun req_body :: "request \<Rightarrow> byte list" where
  "req_body (Req_enter m) = EnterChatRoomReq_Serialize m"
| "req_body (Req_login m) = LoginReq_Serialize m"
| "req_body (Req_list m) = ChatRoomListReq_Serialize m"
| "req_body (Req_create m) = CreateChatRoomReq_Serialize m"
| "req_body (Req_refresh m) = RefreshChatRoomReq_Serialize m"
| "req_body (Req_chat m) = ChatReq_Serialize m"
| "req_body (Req_dummy m) = DummyPacketReq_Serialize m"

text \<open>What the wire can carry: text in UTF-8, below 2 GB.\<close>

fun req_ok :: "(byte list \<Rightarrow> bool) \<Rightarrow> request \<Rightarrow> bool" where
  "req_ok utf8 (Req_login m) = LoginReq_ok utf8 m"
| "req_ok utf8 (Req_create m) = CreateChatRoomReq_ok utf8 m"
| "req_ok utf8 (Req_chat m) = ChatReq_ok utf8 m"
| "req_ok utf8 (Req_dummy m) = DummyPacketReq_ok utf8 m"
| "req_ok utf8 _ = True"

text \<open>The handler of a request.\<close>

fun handle_request :: "Env \<Rightarrow> session_ptr option \<Rightarrow> request \<Rightarrow> Game \<Rightarrow> Game answer" where
  "handle_request env s (Req_enter m) = HandleEnterChatRoomReq env s m"
| "handle_request env s (Req_login m) = HandleLoginReq env s m"
| "handle_request env s (Req_list m) = HandleChatRoomListReq env s m"
| "handle_request env s (Req_create m) = HandleCreateChatRoomReq env s m"
| "handle_request env s (Req_refresh m) = HandleRefreshChatRoomReq env s m"
| "handle_request env s (Req_chat m) = HandleChatReq env s m"
| "handle_request env s (Req_dummy m) = HandleDummyPacketReq env s m"

lemma type_codes:
  "type_code EnterChatRoomReq_t = 1000" "type_code LoginReq_t = 1002" "type_code ChatRoomListReq_t = 1004"
  "type_code CreateChatRoomReq_t = 1006" "type_code RefreshChatRoomReq_t = 1008" "type_code ChatReq_t = 1010"
  "type_code DummyPacketReq_t = 1012"
  by simp_all

text \<open>
  Whatever request arrives, in a packet made by \<^verbatim>\<open>MakePacket\<close> and followed by anything in the
  receive buffer, the table finds the handler of its type, and the handler gets the message.
\<close>

lemma request_reaches_handler:
  assumes "req_ok (env_utf8 env) r"
  shows "PacketHandler_HandlePacket env s (packet_bytes pad (type_code (req_type r)) (req_body r) @ rest)
      (int (12 + length (req_body r))) g = handle_request env s r g"
proof (cases r)
  case (Req_enter m)
  then show ?thesis unfolding PacketHandler_HandlePacket_def
    by (subst dispatch_made [where func = "HandleEnterChatRoomReq env" and parse = EnterChatRoomReq_Parse and m = m])
      (simp_all add: GPacketHadler_def enter_req.parse_ser)
next
  case (Req_login m)
  then show ?thesis using assms unfolding PacketHandler_HandlePacket_def
    by (subst dispatch_made [where func = "HandleLoginReq env" and parse = "LoginReq_Parse (env_utf8 env)" and m = m])
      (simp_all add: GPacketHadler_def login_req.parse_ser)
next
  case (Req_list m)
  then show ?thesis unfolding PacketHandler_HandlePacket_def
    by (subst dispatch_made [where func = "HandleChatRoomListReq env" and parse = ChatRoomListReq_Parse and m = m])
      (simp_all add: GPacketHadler_def list_req.parse_ser)
next
  case (Req_create m)
  then show ?thesis using assms unfolding PacketHandler_HandlePacket_def
    by (subst dispatch_made [where func = "HandleCreateChatRoomReq env"
          and parse = "CreateChatRoomReq_Parse (env_utf8 env)" and m = m])
      (simp_all add: GPacketHadler_def create_req.parse_ser)
next
  case (Req_refresh m)
  then show ?thesis unfolding PacketHandler_HandlePacket_def
    by (subst dispatch_made [where func = "HandleRefreshChatRoomReq env" and parse = RefreshChatRoomReq_Parse and m = m])
      (simp_all add: GPacketHadler_def refresh_req.parse_ser)
next
  case (Req_chat m)
  then show ?thesis using assms unfolding PacketHandler_HandlePacket_def
    by (subst dispatch_made [where func = "HandleChatReq env" and parse = "ChatReq_Parse (env_utf8 env)" and m = m])
      (simp_all add: GPacketHadler_def chat_req.parse_ser)
next
  case (Req_dummy m)
  then show ?thesis using assms unfolding PacketHandler_HandlePacket_def
    by (subst dispatch_made [where func = "HandleDummyPacketReq env"
          and parse = "DummyPacketReq_Parse (env_utf8 env)" and m = m])
      (simp_all add: GPacketHadler_def dummy_req.parse_ser)
qed

text \<open>
  C12. A request that a worker takes from its queue, whose packet is still in the receive
  buffer of its session, is served: the worker's round is the handler of the request's type
  on the very message that was sent, for the session that sent it; if the handler fails, the
  worker, and the process, fail with it.
\<close>

theorem worker_serves_request:
  assumes "PacketProcessor_Run proc (c_router g) = Inr (Run_item item, r)"
    "c_manager g (item_sessionId item) = Some s"
    "memory_at g (item_buffer item) = packet_bytes pad (type_code (req_type q)) (req_body q) @ rest"
    "item_len item = int (12 + length (req_body q))" "req_ok (env_utf8 env) q"
  shows "PacketWorker_round (PacketHandler_HandlePacket env) proc g =
    bindR (handle_request env (Some s) q (g\<lparr>c_router := r\<rparr>)) (\<lambda>(_, g'). Inr (Run_item item, g'))"
proof -
  have h: "PacketHandler_HandlePacket env (Some s) (memory_at g (item_buffer item)) (item_len item) (g\<lparr>c_router := r\<rparr>)
      = handle_request env (Some s) q (g\<lparr>c_router := r\<rparr>)"
    using request_reaches_handler [OF assms(5)] assms(3,4) by simp
  show ?thesis
  proof (cases "handle_request env (Some s) q (g\<lparr>c_router := r\<rparr>)")
    case (Inl e)
    then show ?thesis using worker_dies [OF assms(1,2)] h by simp
  next
    case (Inr ag)
    then show ?thesis using worker_runs [OF assms(1,2)] h by (cases ag) simp
  qed
qed

definition ex_chat :: ChatReq where
  "ex_chat = ChatReq_new\<lparr>chat_req_message := [104, 105]\<rparr>"

lemma ex_chat_body: "req_body (Req_chat ex_chat) = [18, 2, 104, 105]"
  by (simp add: ex_chat_def ChatReq_new_def ChatReq_Serialize_def Let_def put_string_def put_bytes_def UnsafeVarint.simps)

text \<open>The example game with a packet in the buffer of session 0 and in the queue of worker 0.\<close>

definition ex_queued :: "byte list \<Rightarrow> int \<Rightarrow> Game" where
  "ex_queued bytes len = ex_game
     \<lparr>c_router := example_router\<lparr>r_PacketQueue := [[PacketQueueItem_of 0 (0, 0) len], []]\<rparr>,
      c_buffers := [0 \<mapsto> ex_buffer\<lparr>m_Buffer := bytes @ replicate 655000 0\<rparr>]\<rparr>"

lemma ex_queued_run:
  "PacketProcessor_Run \<lparr>pp_Id = 0, pp_ProcessQueue = 0\<rparr> (c_router (ex_queued bytes len))
     = Inr (Run_item (PacketQueueItem_of 0 (0, 0) len), example_router)"
  by (simp add: ex_queued_def PacketProcessor_Run_def example_router_def subscript_def in_vec_def)

lemma ex_queued_fields:
  "c_manager (ex_queued bytes len) = c_manager ex_game" "c_heap (ex_queued bytes len) = c_heap ex_game"
  "memory_at (ex_queued bytes len) (0, 0) = bytes @ replicate 655000 0"
  by (simp_all add: ex_queued_def memory_at_def)

theorem worker_serves_request_witness:
  "PacketWorker_round (PacketHandler_HandlePacket ex_env) \<lparr>pp_Id = 0, pp_ProcessQueue = 0\<rparr>
      (ex_queued (packet_bytes (0, 0) 1010 (req_body (Req_chat ex_chat))) 16)
   = bindR (handle_request ex_env (Some (SessionPtr 10)) (Req_chat ex_chat)
       (ex_queued (packet_bytes (0, 0) 1010 (req_body (Req_chat ex_chat))) 16\<lparr>c_router := example_router\<rparr>))
     (\<lambda>(_, g'). Inr (Run_item (PacketQueueItem_of 0 (0, 0) 16), g'))"
  by (rule worker_serves_request [where q = "Req_chat ex_chat" and rest = "replicate 655000 0" and pad = "(0, 0)", OF ex_queued_run])
    (simp_all add: ex_queued_fields PacketQueueItem_of_def ex_chat_body[unfolded req_body.simps] type_codes
      ChatReq_ok_def wire_string_def ex_env_def, simp add: ex_chat_def ChatReq_new_def)

section \<open>The specification of a run\<close>

text \<open>
  What a request does to the abstract service and what is sent for it. It has no meaning
  (\<open>None\<close>) for a session that is not online or not logged in where it must be, for a room that
  does not exist, for a name that cannot be converted, and where the answer does not fit into a
  packet.
\<close>

definition spec_list :: "ChatSpec \<Rightarrow> ChatRoomListAck" where
  "spec_list st =
     \<lparr>list_ack_success = (dom (sp_rooms st) \<noteq> {}),
      list_ack_chatroominfo = map (\<lambda>i. let (name, ms) = the (sp_rooms st i)
          in \<lparr>info_roomid = ucast i, info_currentuser = ucast (of_nat (size ms) :: uint16),
              info_maxuser = 10, info_roomname = name\<rparr>)
        (sorted_list_of_set (dom (sp_rooms st)))\<rparr>"

type_synonym sendings = "(session_ptr \<times> byte list) multiset"

definition answer_bytes :: "Env \<Rightarrow> packet_type \<Rightarrow> byte list \<Rightarrow> byte list" where
  "answer_bytes env ty body = packet_bytes (env_pad env) (type_code ty) body"

definition reply :: "Env \<Rightarrow> session_ptr \<Rightarrow> packet_type \<Rightarrow> byte list \<Rightarrow> ChatSpec \<Rightarrow> (ChatSpec \<times> sendings) option" where
  "reply env s ty body st =
     (if length body \<le> 65523 then Some (st, {#(s, answer_bytes env ty body)#}) else None)"

fun spec_request :: "Env \<Rightarrow> session_ptr \<Rightarrow> request \<Rightarrow> ChatSpec \<Rightarrow> (ChatSpec \<times> sendings) option" where
  "spec_request env s (Req_login m) st =
     (if s \<in> sp_online st
      then reply env s LoginAck_t (LoginAck_Serialize \<lparr>login_ack_success = True, login_ack_userid = login_req_id m\<rparr>)
             (spec_login s (login_req_id m) st)
      else None)"
| "spec_request env s (Req_list m) st =
     (if s \<in> sp_online st
      then reply env s ChatRoomListAck_t (ChatRoomListAck_Serialize (spec_list st)) st
      else None)"
| "spec_request env s (Req_create m) st =
     (case (sp_users st s, StringToUTF8 (env_win env) (create_req_roomname m)) of
        (Some _, Inr utf8) \<Rightarrow>
          reply env s EnterChatRoomAck_t (EnterChatRoomAck_Serialize
              \<lparr>enter_ack_roomid = ucast (sp_next st + 1), enter_ack_roomname = create_req_roomname m\<rparr>)
            (spec_create s utf8 st)
      | _ \<Rightarrow> None)"
| "spec_request env s (Req_enter m) st =
     (let i = ucast (enter_req_roomid m) :: uint16
      in case (sp_users st s, sp_rooms st i) of
           (Some _, Some (name, _)) \<Rightarrow>
             reply env s EnterChatRoomAck_t (EnterChatRoomAck_Serialize
                 \<lparr>enter_ack_roomid = ucast i, enter_ack_roomname = name\<rparr>) (spec_move s i st)
         | _ \<Rightarrow> None)"
| "spec_request env s (Req_chat m) st =
     (let body = (\<lambda>n. ChatAck_Serialize \<lparr>chat_ack_sender = n, chat_ack_message = chat_req_message m\<rparr>)
      in case sp_users st s of
           None \<Rightarrow> None
         | Some (name, i) \<Rightarrow>
             if sp_rooms st i = None \<or> 65523 < length (body name) then None
             else Some (st, spec_chat s (\<lambda>n. answer_bytes env ChatAck_t (body n)) st))"
| "spec_request env s (Req_refresh m) st = Some (st, {#})"
| "spec_request env s (Req_dummy m) st =
     (if s \<in> sp_online st
      then reply env s DummyPacketAck_t (DummyPacketAck_Serialize \<lparr>dummy_ack_message = dummy_req_message m\<rparr>) st
      else None)"

text \<open>The list that the server sends is the one of the specification.\<close>

lemma room_list_spec:
  assumes inv: "chat_inv g"
  shows "room_list g = spec_list (abs_chat g)"
proof -
  let ?t = "rm_ChatRoom (g_manager g)"
  have sorted: "sorted_wrt (<) (map fst ?t)"
    using chat_invD(1) [OF inv] by (auto simp: rooms_inv_def omap_inv_def)
  have d: "dom (abs_rooms g) = fst ` set ?t"
    unfolding dom_map_of_conv_image_fst [symmetric] by (auto simp: abs_rooms_def ChatRoomManager_GetRoom_def)
  have keys: "sorted_list_of_set (dom (abs_rooms g)) = map fst ?t"
    using sorted unfolding d by (metis list.set_map sorted_list_of_set_unique sorted_list_of_set.idem_if_sorted_distinct strict_sorted_iff)
  have "map (\<lambda>(i, r). ChatRoom_GetRoomInfo (g_rooms g ! r)) ?t
      = map (\<lambda>i. let (name, ms) = the (abs_rooms g i)
          in \<lparr>info_roomid = ucast i, info_currentuser = ucast (of_nat (size ms) :: uint16),
              info_maxuser = 10, info_roomname = name\<rparr>) (map fst ?t)"
  proof (unfold map_map, rule map_cong [OF refl], clarify)
    fix i r assume ir: "(i, r) \<in> set ?t"
    have v: "r < length (g_rooms g)" "m_RoomID (g_rooms g ! r) = i"
      using table_valid [OF chat_invD(1) [OF inv] ir] by auto
    have "distinct (map fst ?t)" using sorted by (simp add: strict_sorted_iff)
    then have look: "map_of ?t i = Some r" using ir by (rule map_of_is_SomeI)
    show "ChatRoom_GetRoomInfo (g_rooms g ! r) = ((\<lambda>i. let (name, ms) = the (abs_rooms g i)
          in \<lparr>info_roomid = ucast i, info_currentuser = ucast (of_nat (size ms) :: uint16),
              info_maxuser = 10, info_roomname = name\<rparr>) \<circ> fst) (i, r)"
      using v look chat_inv_MaxUser [OF inv v(1)]
      by (simp add: abs_rooms_def ChatRoomManager_GetRoom_def ChatRoom_GetRoomInfo_def ChatRoom_GetCurrentUser_def members_def)
  qed
  then show ?thesis
    unfolding room_list_def spec_list_def abs_chat_sel keys by (simp only: d) simp
qed

section \<open>Runs\<close>

text \<open>The server takes requests one after the other; each one is handled to its end.\<close>

inductive served :: "Env \<Rightarrow> Game \<Rightarrow> (session_ptr \<times> request) list \<Rightarrow> Game \<Rightarrow> bool" for env where
  served_Nil: "served env g [] g"
| served_Cons: "handle_request env (Some s) r g = Inr (a, g1) \<Longrightarrow> served env g1 rs g2 \<Longrightarrow> served env g ((s, r) # rs) g2"

code_pred (modes: i \<Rightarrow> i \<Rightarrow> i \<Rightarrow> o \<Rightarrow> bool) served .

inductive_cases served_NilE: "served env g [] g'"
inductive_cases served_ConsE: "served env g ((s, r) # rs) g'"

lemma served_deterministic: "served env g rs g1 \<Longrightarrow> served env g rs g2 \<Longrightarrow> g1 = g2"
proof (induction arbitrary: g2 rule: served.induct)
  case (served_Nil g)
  then show ?case by (rule served_NilE) simp
next
  case (served_Cons s r g a g1 rs g3)
  show ?case using served_Cons.prems
  proof (rule served_ConsE)
    fix a' g1'
    assume "handle_request env (Some s) r g = Inr (a', g1')" "served env g1' rs g2"
    with served_Cons show "g3 = g2" by simp
  qed
qed

fun spec_run :: "Env \<Rightarrow> (session_ptr \<times> request) list \<Rightarrow> ChatSpec \<Rightarrow> (ChatSpec \<times> sendings list) option" where
  "spec_run env [] st = Some (st, [])"
| "spec_run env ((s, r) # rs) st =
     (case spec_request env s r st of
        None \<Rightarrow> None
      | Some (st1, out) \<Rightarrow> map_option (\<lambda>(st2, outs). (st2, out # outs)) (spec_run env rs st1))"

text \<open>What a group of writes sends.\<close>

definition sendings_of :: "(session_ptr \<times> Packet) list \<Rightarrow> sendings" where
  "sendings_of ws = mset (map (\<lambda>(s, p). (s, Packet_view p)) ws)"

text \<open>One request: where the specification has a meaning, the handler has that effect.\<close>

lemma request_step:
  assumes inv: "chat_inv g" and spec: "spec_request env s r (abs_chat g) = Some (st, out)"
  obtains a g' ws where "handle_request env (Some s) r g = Inr (a, g')" "chat_inv g'" "abs_chat g' = st"
    "c_writes g' = c_writes g @ ws" "sendings_of ws = out"
proof -
  have one: "sendings_of [(t, made_packet (env_pad env) ty body)] = {#(t, answer_bytes env ty body)#}"
    if "length body \<le> 65523" for t ty body
    using made_packet_view [OF that] by (simp add: sendings_of_def answer_bytes_def)
  show thesis
  proof (cases r)
    case (Req_login m)
    let ?ack = "\<lparr>login_ack_success = True, login_ack_userid = login_req_id m\<rparr>"
    have h: "can_send g s" "length (LoginAck_Serialize ?ack) \<le> 65523" "st = spec_login s (login_req_id m) (abs_chat g)"
      "out = {#(s, answer_bytes env LoginAck_t (LoginAck_Serialize ?ack))#}"
      using spec Req_login by (auto simp: reply_def split: if_splits)
    show thesis
      by (rule login_step [OF inv h(1), of m env]) (use h one Req_login that login_ack.size_ser [of ?ack] in \<open>auto\<close>)
  next
    case (Req_list m)
    have h: "can_send g s" "length (ChatRoomListAck_Serialize (room_list g)) \<le> 65523" "st = abs_chat g"
      "out = {#(s, answer_bytes env ChatRoomListAck_t (ChatRoomListAck_Serialize (room_list g)))#}"
      using spec Req_list by (auto simp: reply_def room_list_spec [OF inv] split: if_splits)
    have fits: "ChatRoomListAck_ByteSizeLong (room_list g) \<le> 65523" using h(2) by (simp add: list_ack.size_ser)
    have "\<exists>a g'. handle_request env (Some s) r g = Inr (a, g') \<and> chat_inv g' \<and> abs_chat g' = st \<and> c_writes g' = c_writes g @
        [(s, made_packet (env_pad env) ChatRoomListAck_t (ChatRoomListAck_Serialize (room_list g)))]"
      using list_step [OF inv h(1) fits, of env m] h(3) Req_list inv by simp
    then show thesis using that one [OF h(2)] h(4) by blast
  next
    case (Req_create m)
    obtain name j utf8 where u: "abs_users g s = Some (name, j)" "StringToUTF8 (env_win env) (create_req_roomname m) = Inr utf8"
      using spec Req_create by (auto split: option.splits sum.splits)
    let ?ack = "\<lparr>enter_ack_roomid = ucast (roomNumber (g_manager g) + 1), enter_ack_roomname = create_req_roomname m\<rparr>"
    have h: "length (EnterChatRoomAck_Serialize ?ack) \<le> 65523" "st = spec_create s utf8 (abs_chat g)"
      "out = {#(s, answer_bytes env EnterChatRoomAck_t (EnterChatRoomAck_Serialize ?ack))#}"
      using spec Req_create u by (auto simp: reply_def split: if_splits)
    show thesis
      by (rule create_step [OF inv u refl refl]) (use h one Req_create that enter_ack.size_ser [of ?ack] in \<open>auto\<close>)
  next
    case (Req_enter m)
    let ?i = "ucast (enter_req_roomid m) :: uint16"
    obtain name j rname ms where u: "abs_users g s = Some (name, j)" "abs_rooms g ?i = Some (rname, ms)"
      using spec Req_enter by (auto simp: Let_def split: option.splits)
    let ?ack = "\<lparr>enter_ack_roomid = ucast ?i, enter_ack_roomname = rname\<rparr>"
    have h: "length (EnterChatRoomAck_Serialize ?ack) \<le> 65523" "st = spec_move s ?i (abs_chat g)"
      "out = {#(s, answer_bytes env EnterChatRoomAck_t (EnterChatRoomAck_Serialize ?ack))#}"
      using spec Req_enter u by (auto simp: reply_def Let_def split: if_splits)
    show thesis
      by (rule enter_step [OF inv u refl, of env]) (use h one Req_enter that enter_ack.size_ser [of ?ack] in \<open>auto\<close>)
  next
    case (Req_chat m)
    obtain name i where u: "abs_users g s = Some (name, i)"
      using spec Req_chat by (auto simp: Let_def split: option.splits)
    obtain rname ms where ro: "abs_rooms g i = Some (rname, ms)"
      using spec Req_chat u by (auto simp: Let_def split: if_splits)
    let ?ack = "\<lparr>chat_ack_sender = name, chat_ack_message = chat_req_message m\<rparr>"
    have h: "length (ChatAck_Serialize ?ack) \<le> 65523" "st = abs_chat g"
      "out = spec_chat s (\<lambda>n. answer_bytes env ChatAck_t (ChatAck_Serialize \<lparr>chat_ack_sender = n, chat_ack_message = chat_req_message m\<rparr>)) (abs_chat g)"
      using spec Req_chat u ro by (auto simp: Let_def split: if_splits)
    show thesis
      by (rule chat_step [OF inv u ro refl, of m env])
        (use h Req_chat that chat_ack.size_ser [of ?ack] in \<open>auto simp: sendings_of_def answer_bytes_def\<close>)
  next
    case (Req_refresh m)
    then show thesis using spec inv that [of "Some True" g "[]"]
      by (simp add: HandleRefreshChatRoomReq_def sendings_of_def)
  next
    case (Req_dummy m)
    let ?ack = "\<lparr>dummy_ack_message = dummy_req_message m\<rparr>"
    have h: "can_send g s" "length (DummyPacketAck_Serialize ?ack) \<le> 65523" "st = abs_chat g"
      "out = {#(s, answer_bytes env DummyPacketAck_t (DummyPacketAck_Serialize ?ack))#}"
      using spec Req_dummy by (auto simp: reply_def split: if_splits)
    have "DummyPacketReq_ByteSizeLong m \<le> 65523"
      using h(2) dummy_ack.size_ser [of ?ack] by (simp add: DummyPacketReq_ByteSizeLong_def DummyPacketAck_ByteSizeLong_def)
    then have "\<exists>a g'. handle_request env (Some s) r g = Inr (a, g') \<and> chat_inv g' \<and> abs_chat g' = st \<and> c_writes g' = c_writes g @
        [(s, made_packet (env_pad env) DummyPacketAck_t (DummyPacketAck_Serialize ?ack))]"
      using dummy_step [OF h(1), of m env] h(3) Req_dummy inv by simp
    then show thesis using that one [OF h(2)] h(4) by blast
  qed
qed

text \<open>
  C1. The chat service implements its specification over whole runs: if the specification has
  a meaning for a sequence of requests of any sessions, then the handlers serve them all
  without a fault, the invariant holds at the end, the server is in the state that the
  specification says, and the writes it has started are, request by request, the answers
  and broadcasts of the specification, after those that were there before.
\<close>

theorem chat_service_refinement:
  assumes "chat_inv g" "spec_run env rs (abs_chat g) = Some (st, outs)"
  shows "(\<exists>g'. served env g rs g') \<and> (\<forall>g'. served env g rs g' \<longrightarrow> chat_inv g' \<and> abs_chat g' = st
      \<and> (\<exists>ws. c_writes g' = c_writes g @ concat ws \<and> map sendings_of ws = outs))"
proof -
  have "\<exists>g' ws. served env g rs g' \<and> chat_inv g' \<and> abs_chat g' = st
      \<and> c_writes g' = c_writes g @ concat ws \<and> map sendings_of ws = outs"
    using assms
  proof (induction rs arbitrary: g outs)
    case Nil
    then show ?case by (intro exI [of _ g] exI [of _ "[]"]) (auto intro: served_Nil)
  next
    case (Cons e rs)
    obtain s r where e: "e = (s, r)" by (cases e)
    obtain st1 out outs' where sp: "spec_request env s r (abs_chat g) = Some (st1, out)"
      "spec_run env rs st1 = Some (st, outs')" "outs = out # outs'"
      using Cons.prems(2) e by (auto split: option.splits)
    obtain a g1 ws1 where h: "handle_request env (Some s) r g = Inr (a, g1)" "chat_inv g1" "abs_chat g1 = st1"
      "c_writes g1 = c_writes g @ ws1" "sendings_of ws1 = out"
      by (rule request_step [OF Cons.prems(1) sp(1)])
    obtain g' ws where "served env g1 rs g'" "chat_inv g'" "abs_chat g' = st"
      "c_writes g' = c_writes g1 @ concat ws" "map sendings_of ws = outs'"
      using Cons.IH [OF h(2), of outs'] sp(2) h(3) by blast
    then show ?case
      using e sp(3) h by (intro exI [of _ g'] exI [of _ "ws1 # ws"]) (auto intro: served_Cons)
  qed
  then show ?thesis using served_deterministic by blast
qed

lemma ex_chat_spec:
  "\<exists>out. spec_request ex_env (SessionPtr 10) (Req_chat ex_chat) (abs_chat ex_game) = Some (abs_chat ex_game, out)"
  by (simp add: ex_users ex_rooms ex_chat_def ChatReq_new_def ChatAck_Serialize_def Let_def put_string_def put_bytes_def
      UnsafeVarint.simps)

lemma ex_enter_spec:
  "\<exists>out. spec_request ex_env (SessionPtr 11) (Req_enter \<lparr>enter_req_roomid = 1\<rparr>) (abs_chat ex_game)
     = Some (spec_move (SessionPtr 11) 1 (abs_chat ex_game), out)"
  by (simp add: ex_users ex_rooms reply_def EnterChatRoomAck_Serialize_def Let_def put_string_def put_bytes_def put_uint32_def
      UnsafeVarint.simps)

theorem chat_service_refinement_witness:
  "\<exists>g'. served ex_env ex_game [(SessionPtr 10, Req_chat ex_chat), (SessionPtr 11, Req_enter \<lparr>enter_req_roomid = 1\<rparr>)] g'
     \<and> chat_inv g' \<and> abs_chat g' = spec_move (SessionPtr 11) 1 (abs_chat ex_game)"
proof -
  obtain outs where "spec_run ex_env [(SessionPtr 10, Req_chat ex_chat), (SessionPtr 11, Req_enter \<lparr>enter_req_roomid = 1\<rparr>)]
      (abs_chat ex_game) = Some (spec_move (SessionPtr 11) 1 (abs_chat ex_game), outs)"
    using ex_chat_spec ex_enter_spec by (auto simp del: spec_request.simps)
  from chat_service_refinement [OF ex_chat_inv this] show ?thesis by blast
qed

section \<open>Requests that the server is not prepared for\<close>

text \<open>
  A session that has not logged in has no player to enter, create or chat with; a room that
  does not exist is looked up and followed all the same.
\<close>

fun request_fault :: "request \<Rightarrow> session_ptr \<Rightarrow> ChatSpec \<Rightarrow> fault option" where
  "request_fault (Req_enter m) s st =
     (if sp_users st s = None then Some OutOfBounds
      else if sp_rooms st (ucast (enter_req_roomid m)) = None then Some NullDeref else None)"
| "request_fault (Req_create m) s st = (if sp_users st s = None then Some OutOfBounds else None)"
| "request_fault (Req_chat m) s st =
     (case sp_users st s of
        None \<Rightarrow> Some OutOfBounds
      | Some (name, i) \<Rightarrow>
          if sp_rooms st i = None \<and> length (ChatAck_Serialize \<lparr>chat_ack_sender = name, chat_ack_message = chat_req_message m\<rparr>) \<le> 65523
          then Some NullDeref else None)"
| "request_fault _ s st = None"

lemma request_faults:
  assumes inv: "chat_inv g" and s: "can_send g s" and fault: "request_fault r s (abs_chat g) = Some e"
  shows "handle_request env (Some s) r g = Inl e"
proof -
  obtain x where x: "c_heap g s = Some x" using s by (auto simp: can_send_def)
  have empty: "m_Player x = []" if "abs_users g s = None"
    using that x by (cases "m_Player x") (auto simp: abs_users_def user_entry_def)
  show ?thesis
  proof (cases "abs_users g s")
    case None
    then show ?thesis using fault no_player [OF x empty] by (cases r) auto
  next
    case (Some nj)
    then obtain name j where u: "abs_users g s = Some (name, j)" by (cases nj) auto
    show ?thesis
      using fault u no_room [OF inv u] chat_ack.size_ser
      by (cases r) (auto split: if_splits)
  qed
qed

text \<open>
  C24. Any connected client can end the server with one packet: a request to enter, create or
  chat from a session that has not logged in reads the first of no players; entering a room
  that does not exist, or chatting before entering one, follows a null pointer. The round of
  the worker that takes the packet ends in that fault, which nothing catches.
\<close>

theorem one_packet_kills:
  assumes "PacketProcessor_Run proc (c_router g) = Inr (Run_item item, r)"
    "c_manager g (item_sessionId item) = Some s"
    "memory_at g (item_buffer item) = packet_bytes pad (type_code (req_type q)) (req_body q) @ rest"
    "item_len item = int (12 + length (req_body q))" "req_ok (env_utf8 env) q"
    "chat_inv g" "can_send g s" "request_fault q s (abs_chat g) = Some e"
  shows "PacketWorker_round (PacketHandler_HandlePacket env) proc g = Inl e"
proof (rule worker_dies [OF assms(1,2)])
  show "PacketHandler_HandlePacket env (Some s) (memory_at g (item_buffer item)) (item_len item) (g\<lparr>c_router := r\<rparr>) = Inl e"
    unfolding assms(3,4) request_reaches_handler [OF assms(5)]
    by (rule request_faults) (use assms(6-8) in simp_all)
qed

theorem one_packet_kills_witness:
  "PacketWorker_round (PacketHandler_HandlePacket ex_env) \<lparr>pp_Id = 0, pp_ProcessQueue = 0\<rparr>
      (ex_queued (packet_bytes (0, 0) 1000 (req_body (Req_enter \<lparr>enter_req_roomid = 9\<rparr>))) 14) = Inl NullDeref"
proof (rule one_packet_kills [where q = "Req_enter \<lparr>enter_req_roomid = 9\<rparr>" and rest = "replicate 655000 0" and pad = "(0, 0)" and s = "SessionPtr 10", OF ex_queued_run])
  have body: "req_body (Req_enter \<lparr>enter_req_roomid = 9\<rparr>) = [8, 9]"
    by (simp add: EnterChatRoomReq_Serialize_def Let_def put_int32_def UnsafeVarint.simps)
  show "item_len (PacketQueueItem_of 0 (0, 0) 14) = int (12 + length (req_body (Req_enter \<lparr>enter_req_roomid = 9\<rparr>)))"
    by (simp only: body) (simp add: PacketQueueItem_of_def)
  show "request_fault (Req_enter \<lparr>enter_req_roomid = 9\<rparr>) (SessionPtr 10)
      (abs_chat (ex_queued (packet_bytes (0, 0) 1000 (req_body (Req_enter \<lparr>enter_req_roomid = 9\<rparr>))) 14)) = Some NullDeref"
    by (simp add: ex_queued_def ex_users ex_rooms)
qed (simp_all add: ex_queued_fields PacketQueueItem_of_def type_codes, simp_all add: ex_queued_def ex_chat_inv ex_can_send)

text \<open>
  The same for a packet whose type is not one of the seven requests, an answer of the
  server for example: the table has an empty function there, or, for 65535, no entry at all.
\<close>

lemma unknown_type_kills:
  assumes "PacketProcessor_Run proc (c_router g) = Inr (Run_item item, r)"
    "c_manager g (item_sessionId item) = Some s"
    "packet_type_of (memory_at g (item_buffer item)) = Inr ty"
    "ty \<notin> {1000, 1002, 1004, 1006, 1008, 1010, 1012}"
  shows "PacketWorker_round (PacketHandler_HandlePacket env) proc g = Inl (if ty = 65535 then OutOfBounds else BadFunctionCall)"
  by (rule worker_dies [OF assms(1,2)]) (rule unregistered_type [OF assms(3,4)])

lemma unknown_type_kills_example:
  "PacketWorker_round (PacketHandler_HandlePacket ex_env) \<lparr>pp_Id = 0, pp_ProcessQueue = 0\<rparr>
      (ex_queued (packet_bytes (0, 0) 1001 []) 12) = Inl BadFunctionCall"
  using unknown_type_kills [where ty = 1001 and s = "SessionPtr 10" and env = ex_env, OF ex_queued_run [of "packet_bytes (0, 0) 1001 []" 12]]
  by (simp add: ex_queued_fields PacketQueueItem_of_def)

end
