(* ===== verification/Request_Path.thy ===== *)
theory Request_Path
  imports Chat_Service
begin

text \<open>
  The server as a whole, from the bytes that arrive on a socket to the writes that it starts:
  the receive path, the queues, the worker and the handler composed.
\<close>

section \<open>Reading does not change the chat\<close>

lemma game_more:
  fixes g g' :: Game
  assumes "Core.more g' = Core.more g"
  shows "g_players g' = g_players g" "g_rooms g' = g_rooms g" "g_manager g' = g_manager g"
  using assms by (cases g; cases g'; simp)+

lemma read_frame_chat:
  assumes "read_frame s g g'"
  shows "chat_inv g' = chat_inv g" "abs_chat g' = abs_chat g"
proof -
  obtain x b where h: "c_heap g s = Some x" "c_heap g' = (c_heap g)(s \<mapsto> x\<lparr>m_PacketBuffer := b, m_ReadPending := True\<rparr>)"
    and m: "Core.more g' = Core.more g"
    using assms by (auto simp: read_frame_def)
  note G = game_more [OF m]
  have cs: "can_send g' t = can_send g t" for t using h by (auto simp: can_send_def)
  have pl: "(\<forall>t y. c_heap g' t = Some y \<longrightarrow> (\<forall>p \<in> set (m_Player y). Q t p))
      \<longleftrightarrow> (\<forall>t y. c_heap g t = Some y \<longrightarrow> (\<forall>p \<in> set (m_Player y). Q t p))" for Q
  proof (rule all_cong1)
    fix t
    show "(\<forall>y. c_heap g' t = Some y \<longrightarrow> (\<forall>p \<in> set (m_Player y). Q t p))
        \<longleftrightarrow> (\<forall>y. c_heap g t = Some y \<longrightarrow> (\<forall>p \<in> set (m_Player y). Q t p))"
      using h by (cases "t = s") auto
  qed
  show "chat_inv g' = chat_inv g" unfolding chat_inv_def pl G cs ..
  have "abs_users g' t = abs_users g t" for t
    using h by (simp add: abs_users_def G user_entry_def)
  then show "abs_chat g' = abs_chat g" by (simp add: abs_chat_def abs_rooms_def G cs fun_eq_iff)
qed

section \<open>One request, from the wire to the answers\<close>

lemma packet_is_frame:
  assumes "length body \<le> 65523"
  shows "is_packet (packet_bytes pad ty body)"
proof -
  let ?h = "\<lparr>packetType = ty, packetSize = of_nat (12 + length body), seqNum = 1\<rparr>"
  have "unat (of_nat (12 + length body) :: uint32) = 12 + length body" using assms unat_u32_of_nat [of "12 + length body"] by simp
  then have "frame_size (packet_bytes pad ty body) = 12 + length body"
    using PacketHeader_read_bytes [of pad ?h body] by (simp add: frame_size_def packet_bytes_def del: of_nat_add)
  then show ?thesis by (simp add: is_packet_def)
qed

text \<open>
  A packet that arrives whole, when nothing is pending for its session, becomes the only new
  item of its worker's queue, and the memory that the item points at holds it.
\<close>

lemma packet_queued:
  assumes ready: "sess_ready c s" and inv: "recv_inv c" and run: "r_IsRunning (c_router c)"
    and u: "u = uid_of c s" and start: "recv_wpos c u = 0" and f: "is_packet f" "length f \<le> 65535"
  obtains c1 rest where "read_completes f s c = Some (Inr c1)" "read_frame s c c1"
    "c_router c1 = push_items u [PacketQueueItem_of u (u, 0) (int (length f))] (c_router c)"
    "memory_at c1 (u, 0) = f @ rest"
proof -
  have P0: "recv_rpos c u = 0" "recv_pending c u = []"
    using inv start pb_invD
    by (fastforce simp: recv_inv_def recv_wpos_def recv_rpos_def recv_pending_def pb.bb_bytes_def split: option.splits)+
  have fr: "frames f = [f]" "\<not> stalls f" "f \<noteq> []"
    using frames_packet [OF f(1), of "[]"] frames_stop [of "[]"] f(1) by (auto simp: frame_ready_def is_packet_def)
  have pre: "0 \<le> recv_wpos c u" "recv_wpos c u + int (length f) \<le> 589824" "\<not> stalls (recv_pending c u @ f)"
    using start f(2) P0 fr(2) by simp_all
  obtain c1 where c1: "read_completes f s c = Some (Inr c1)" "read_frame s c c1"
    "c_router c1 = push_items u (frame_items u (u, recv_rpos c u) (frames (recv_pending c u @ f))) (c_router c)"
    "\<exists>m0. length m0 = 655360 \<and> recv_mem c1 u = overwrite m0 (nat (recv_wpos c u)) f"
    by (rule read_completes_ok [OF ready inv u fr(3) pre]) blast
  obtain m0 where "recv_mem c1 u = f @ drop (length f) m0"
    using c1(4) start by (auto simp: overwrite_def)
  moreover have "memory_at c1 (u, 0) = recv_mem c1 u"
    by (cases "c_buffers c1 u") (simp_all add: memory_at_def recv_mem_def)
  ultimately show thesis using c1 P0 fr(1) by (intro that [of c1]) auto
qed

text \<open>The worker of an otherwise idle session takes that item.\<close>

lemma worker_takes:
  assumes "router_inv r" "r_IsRunning r" "w = worker_of r u" "wk_backlog w r = []"
  shows "\<exists>r'. PacketProcessor_Run \<lparr>pp_Id = int w, pp_ProcessQueue = w\<rparr> (push_items u [it] r) = Inr (Run_item it, r')
    \<and> router_inv r' \<and> wk_backlog w r' = []"
proof -
  have w: "w < length (r_PacketQueue r)" using worker_of_less [OF assms(1,2)] assms(3) by simp
  let ?r = "push_items u [it] r"
  have q: "wk_backlog w ?r = [it]" "wk_open w ?r"
    using w assms by (simp_all add: wk_backlog_def wk_open_def push_items_def queue_router_push)
  obtain r' where t: "wk_take w ?r = Some (it, r')" using q by (simp add: wk_take_def)
  have "PacketProcessor_Run \<lparr>pp_Id = int w, pp_ProcessQueue = w\<rparr> ?r = Inr (Run_item it, r')"
    using Run_wk_take [OF q(2)] t by simp
  moreover have "wk_backlog w r' = []" using wk.take_Some [OF t] q(1) by simp
  moreover have "router_inv r'" using router_inv_Run [OF _ calculation(1)] assms(1) by simp
  ultimately show ?thesis by blast
qed

text \<open>
  C8. From the wire to the wire: when a request packet arrives whole on the socket of a
  registered session whose worker is idle, the read completion queues it, the next round of
  the worker serves it, and the server is then in the state, and has started the writes, that
  the specification of the chat service says.
\<close>

theorem wire_to_wire:
  assumes ready: "sess_ready g s" "recv_inv g" "r_IsRunning (c_router g)" "u = uid_of g s" "recv_wpos g u = 0"
      "w = worker_of (c_router g) u" "wk_backlog w (c_router g) = []" "c_manager g u = Some s"
    and req: "req_ok (env_utf8 env) q" "length (req_body q) \<le> 65523"
    and spec: "chat_inv g" "spec_request env s q (abs_chat g) = Some (st, out)"
  shows "\<exists>g1 g2 it ws. read_completes (packet_bytes pad (type_code (req_type q)) (req_body q)) s g = Some (Inr g1)
    \<and> PacketWorker_round (PacketHandler_HandlePacket env) \<lparr>pp_Id = int w, pp_ProcessQueue = w\<rparr> g1 = Inr (Run_item it, g2)
    \<and> chat_inv g2 \<and> abs_chat g2 = st \<and> c_writes g2 = c_writes g @ ws \<and> sendings_of ws = out"
proof -
  let ?f = "packet_bytes pad (type_code (req_type q)) (req_body q)"
  let ?it = "PacketQueueItem_of u (u, 0) (int (length ?f))"
  obtain g1 rest where g1: "read_completes ?f s g = Some (Inr g1)" "read_frame s g g1"
    "c_router g1 = push_items u [?it] (c_router g)" "memory_at g1 (u, 0) = ?f @ rest"
    by (rule packet_queued [OF ready(1-5) packet_is_frame [OF req(2)]]) (use req(2) in simp)
  have ri: "router_inv (c_router g)" using ready(2) by (simp add: recv_inv_def)
  obtain r where r: "PacketProcessor_Run \<lparr>pp_Id = int w, pp_ProcessQueue = w\<rparr> (c_router g1) = Inr (Run_item ?it, r)"
    using worker_takes [OF ri ready(3,6,7)] g1(3) by metis
  have reg: "c_manager g1 (item_sessionId ?it) = Some s" "c_writes g1 = c_writes g"
    using g1(2) ready(8) by (simp_all add: read_frame_def PacketQueueItem_of_def)
  let ?g = "g1\<lparr>c_router := r\<rparr>"
  have pre: "chat_inv ?g" "spec_request env s q (abs_chat ?g) = Some (st, out)"
    using spec read_frame_chat [OF g1(2)] by simp_all
  obtain a g2 ws where g2: "handle_request env (Some s) q ?g = Inr (a, g2)" "chat_inv g2" "abs_chat g2 = st"
    "c_writes g2 = c_writes ?g @ ws" "sendings_of ws = out"
    by (rule request_step [OF pre])
  have "PacketHandler_HandlePacket env (Some s) (memory_at g1 (item_buffer ?it)) (item_len ?it) ?g = Inr (a, g2)"
    using request_reaches_handler [OF req(1), where s = "Some s" and pad = pad and rest = rest and g = ?g] g1(4) g2(1) by (simp add: PacketQueueItem_of_def)
  then have "PacketWorker_round (PacketHandler_HandlePacket env) \<lparr>pp_Id = int w, pp_ProcessQueue = w\<rparr> g1 = Inr (Run_item ?it, g2)"
    by (rule worker_runs [OF r reg(1)])
  then show ?thesis using g1(1) g2 reg(2) by (intro exI [of _ g1] exI [of _ g2] exI [of _ ?it] exI [of _ ws]) simp
qed

theorem wire_to_wire_witness:
  "\<exists>g1 g2 it. read_completes (packet_bytes (0, 0) 1010 (req_body (Req_chat ex_chat))) (SessionPtr 10) ex_game = Some (Inr g1)
     \<and> PacketWorker_round (PacketHandler_HandlePacket ex_env) \<lparr>pp_Id = 0, pp_ProcessQueue = 0\<rparr> g1 = Inr (Run_item it, g2)
     \<and> chat_inv g2 \<and> abs_chat g2 = abs_chat ex_game"
proof -
  obtain out where out: "spec_request ex_env (SessionPtr 10) (Req_chat ex_chat) (abs_chat ex_game) = Some (abs_chat ex_game, out)"
    using ex_chat_spec by blast
  have r: "sess_ready ex_game (SessionPtr 10)" "recv_wpos ex_game 0 = 0"
    by (simp_all add: sess_ready_def recv_wpos_def)
  have w: "worker_of example_router 0 = 0" "wk_backlog 0 example_router = []"
    by (simp_all add: worker_of_def wk_backlog_def example_router_def)
  have q: "req_ok (env_utf8 ex_env) (Req_chat ex_chat)"
    by (simp add: ChatReq_ok_def wire_string_def ex_env_def ex_chat_def ChatReq_new_def)
  show ?thesis
    using wire_to_wire [OF r(1) ex_ready(2) _ _ r(2) _ _ _ q _ ex_chat_inv out, of 0 "(0, 0)"] w ex_running(2) ex_uid
      ex_chat_body type_codes by simp blast
qed

end
