(* ===== verification/Client_Conversation.thy ===== *)
theory Client_Conversation
  imports Client_Life Request_Path
begin

text \<open>
  Client and server together: what a user does in a window becomes a packet, the server serves
  it, and its answers come back into the windows. The network is left out: a packet that was
  sent arrives whole at the handler of the other side (the receive path and the framing are
  treated on their own).
\<close>

section \<open>Answers\<close>

datatype answer_message =
  Ans_enter EnterChatRoomAck
| Ans_login LoginAck
| Ans_list ChatRoomListAck
| Ans_create CreateChatRoomAck
| Ans_refresh RefreshChatRoomAck
| Ans_chat ChatAck
| Ans_dummy DummyPacketAck

fun ans_type :: "answer_message \<Rightarrow> packet_type" where
  "ans_type (Ans_enter m) = EnterChatRoomAck_t"
| "ans_type (Ans_login m) = LoginAck_t"
| "ans_type (Ans_list m) = ChatRoomListAck_t"
| "ans_type (Ans_create m) = CreateChatRoomAck_t"
| "ans_type (Ans_refresh m) = RefreshChatRoomAck_t"
| "ans_type (Ans_chat m) = ChatAck_t"
| "ans_type (Ans_dummy m) = DummyPacketAck_t"

fun ans_body :: "answer_message \<Rightarrow> byte list" where
  "ans_body (Ans_enter m) = EnterChatRoomAck_Serialize m"
| "ans_body (Ans_login m) = LoginAck_Serialize m"
| "ans_body (Ans_list m) = ChatRoomListAck_Serialize m"
| "ans_body (Ans_create m) = CreateChatRoomAck_Serialize m"
| "ans_body (Ans_refresh m) = RefreshChatRoomAck_Serialize m"
| "ans_body (Ans_chat m) = ChatAck_Serialize m"
| "ans_body (Ans_dummy m) = DummyPacketAck_Serialize m"

fun ans_ok :: "(byte list \<Rightarrow> bool) \<Rightarrow> answer_message \<Rightarrow> bool" where
  "ans_ok utf8 (Ans_enter m) = EnterChatRoomAck_ok utf8 m"
| "ans_ok utf8 (Ans_login m) = LoginAck_ok utf8 m"
| "ans_ok utf8 (Ans_list m) = ChatRoomListAck_ok utf8 m"
| "ans_ok utf8 (Ans_chat m) = ChatAck_ok utf8 m"
| "ans_ok utf8 (Ans_dummy m) = DummyPacketAck_ok utf8 m"
| "ans_ok utf8 _ = True"

fun handle_answer :: "session_ptr option \<Rightarrow> answer_message \<Rightarrow> 'z Client_scheme \<Rightarrow> 'z Client_scheme answer" where
  "handle_answer s (Ans_enter m) = HandleEnterChatRoomAck s m"
| "handle_answer s (Ans_login m) = HandleLoginAck s m"
| "handle_answer s (Ans_list m) = HandleChatRoomListAck s m"
| "handle_answer s (Ans_create m) = HandleCreateChatRoomAck s m"
| "handle_answer s (Ans_refresh m) = HandleRefreshChatRoomAck s m"
| "handle_answer s (Ans_chat m) = HandleChatAck s m"
| "handle_answer s (Ans_dummy m) = HandleDummyPacketAck s m"

lemma answer_reaches_handler:
  assumes "ans_ok (ce_utf8 env) r"
  shows "Client_HandlePacket env s (packet_bytes pad (type_code (ans_type r)) (ans_body r) @ rest)
      (int (12 + length (ans_body r))) c = handle_answer s r c"
proof (cases r)
  case (Ans_enter m)
  then show ?thesis using assms unfolding Client_HandlePacket_def
    by (subst dispatch_made [where func = HandleEnterChatRoomAck and parse = "EnterChatRoomAck_Parse (ce_utf8 env)" and m = m])
      (simp_all add: Client_GPacketHadler_def enter_ack.parse_ser)
next
  case (Ans_login m)
  then show ?thesis using assms unfolding Client_HandlePacket_def
    by (subst dispatch_made [where func = HandleLoginAck and parse = "LoginAck_Parse (ce_utf8 env)" and m = m])
      (simp_all add: Client_GPacketHadler_def login_ack.parse_ser)
next
  case (Ans_list m)
  then show ?thesis using assms unfolding Client_HandlePacket_def
    by (subst dispatch_made [where func = HandleChatRoomListAck and parse = "ChatRoomListAck_Parse (ce_utf8 env)" and m = m])
      (simp_all add: Client_GPacketHadler_def list_ack.parse_ser)
next
  case (Ans_create m)
  then show ?thesis unfolding Client_HandlePacket_def
    by (subst dispatch_made [where func = HandleCreateChatRoomAck and parse = CreateChatRoomAck_Parse and m = m])
      (simp_all add: Client_GPacketHadler_def create_ack.parse_ser)
next
  case (Ans_refresh m)
  then show ?thesis unfolding Client_HandlePacket_def
    by (subst dispatch_made [where func = HandleRefreshChatRoomAck and parse = RefreshChatRoomAck_Parse and m = m])
      (simp_all add: Client_GPacketHadler_def refresh_ack.parse_ser)
next
  case (Ans_chat m)
  then show ?thesis using assms unfolding Client_HandlePacket_def
    by (subst dispatch_made [where func = HandleChatAck and parse = "ChatAck_Parse (ce_utf8 env)" and m = m])
      (simp_all add: Client_GPacketHadler_def chat_ack.parse_ser)
next
  case (Ans_dummy m)
  then show ?thesis using assms unfolding Client_HandlePacket_def
    by (subst dispatch_made [where func = HandleDummyPacketAck and parse = "DummyPacketAck_Parse (ce_utf8 env)" and m = m])
      (simp_all add: Client_GPacketHadler_def dummy_ack.parse_ser)
qed

section \<open>Packets that arrive\<close>

definition arrives :: "'g packet_handler \<Rightarrow> session_ptr \<Rightarrow> Packet \<Rightarrow> 'g \<Rightarrow> 'g answer" where
  "arrives handlePacket s p = handlePacket (Some s) (Packet_view p) (int (length (Packet_view p)))"

lemma length_packet_bytes_12: "length (packet_bytes pad ty body) = 12 + length body"
  by (simp add: length_packet_bytes)

lemma request_arrives:
  assumes "Packet_view p = packet_bytes pad (type_code (req_type r)) (req_body r)" "req_ok (env_utf8 env) r"
  shows "arrives (PacketHandler_HandlePacket env) s p g = handle_request env (Some s) r g"
  using request_reaches_handler [OF assms(2), where rest = "[]"] assms(1)
  by (simp add: arrives_def length_packet_bytes_12)

lemma answer_arrives:
  assumes "Packet_view p = packet_bytes pad (type_code (ans_type r)) (ans_body r)" "ans_ok (ce_utf8 env) r"
  shows "arrives (Client_HandlePacket env) s p c = handle_answer (Some s) r c"
  using answer_reaches_handler [OF assms(2), where rest = "[]"] assms(1)
  by (simp add: arrives_def length_packet_bytes_12)

text \<open>A request with a single answer.\<close>

lemma server_replies:
  assumes "chat_inv g" "spec_request env s r (abs_chat g) = Some (st, {#(s, b)#})"
    "Packet_view p = packet_bytes pad (type_code (req_type r)) (req_body r)" "req_ok (env_utf8 env) r"
  obtains a g' q where "arrives (PacketHandler_HandlePacket env) s p g = Inr (a, g')" "chat_inv g'" "abs_chat g' = st"
    "c_writes g' = c_writes g @ [(s, q)]" "Packet_view q = b"
proof -
  obtain a g' ws where h: "handle_request env (Some s) r g = Inr (a, g')" "chat_inv g'" "abs_chat g' = st"
    "c_writes g' = c_writes g @ ws" "sendings_of ws = {#(s, b)#}"
    by (rule request_step [OF assms(1,2)])
  from h(5) obtain q where "ws = [(s, q)]" "Packet_view q = b"
    unfolding sendings_of_def mset_single_iff by (auto simp: map_eq_Cons_conv split: prod.splits)
  then show thesis using that h request_arrives [OF assms(3,4)] by auto
qed

text \<open>Sending from the client.\<close>

lemma client_sends:
  assumes "can_send c s" "n = length bytes" "length bytes \<le> 65523"
  obtains pool where "send_message pad ty n bytes s c =
      Inr (c\<lparr>c_pool := pool, c_writes := c_writes c @ [(s, made_packet pad ty bytes)]\<rparr>)"
  using assms by (intro that) (simp add: send_message_def MakePacket_fits made_packet_def Send_ok)

section \<open>Logging in\<close>

lemma TryLogin_sends:
  assumes "first_session c = Some cs" "can_send c cs" "wId \<noteq> []" "wPassword \<noteq> []"
    "req = \<lparr>login_req_id = ce_narrow env wId, login_req_password = ce_narrow env wPassword\<rparr>"
    "LoginReq_ByteSizeLong req \<le> 65523"
  obtains pool where "LoginWindow_TryLogin env notConnected wId wPassword c =
    Inr (c\<lparr>c_pool := pool, c_writes := c_writes c @ [(cs, made_packet (ce_pad env) LoginReq_t (LoginReq_Serialize req))]\<rparr>)"
  using assms login_req.size_ser [of req]
  by (auto simp: LoginWindow_TryLogin_def Let_def intro: client_sends [OF assms(2), of "LoginReq_ByteSizeLong req"
        "LoginReq_Serialize req" "ce_pad env" LoginReq_t])

text \<open>
  The answer to a login posts to the main window, which hides the login window, shows the
  lobby and asks for the rooms; the answer to that fills the lobby.
\<close>

lemma login_answer_shows_lobby:
  assumes "first_session c = Some cs" "can_send c cs" "MainWin \<in> cl_windows c" "cl_posts c = []"
  obtains c1 c2 p where "handle_answer (Some s) (Ans_login ack) c = Inr (None, c1)" "DispatchMessage env c1 = Inr c2"
    "\<not> lw_visible c2" "bw_visible c2" "lw_UserID c2 = login_ack_userid ack" "c_writes c2 = c_writes c @ [(cs, p)]"
    "Packet_view p = packet_bytes (ce_pad env) (type_code ChatRoomListReq_t) (ChatRoomListReq_Serialize \<lparr>list_req_success = True\<rparr>)"
    "cl_windows c2 = cl_windows c" "cl_posts c2 = []"
proof -
  let ?res = "\<lparr>lrd_result = 0, lrd_userId = login_ack_userid ack, lrd_message = ascii_bytes ''Login Success!''\<rparr>"
  let ?req = "\<lparr>list_req_success = True\<rparr>"
  let ?c1 = "c\<lparr>cl_posts := [(MainWin, WM_LOGIN_SUCCESS ?res)]\<rparr>"
  let ?c2 = "c\<lparr>cl_posts := [], lw_UserID := login_ack_userid ack, lw_visible := False, bw_currentUserId := login_ack_userid ack\<rparr>"
  have n: "length (ChatRoomListReq_Serialize ?req) \<le> 65523"
    by (simp add: ChatRoomListReq_Serialize_def Let_def put_bool_def)
  obtain pool where send: "send_message (ce_pad env) ChatRoomListReq_t (ChatRoomListReq_ByteSizeLong ?req)
      (ChatRoomListReq_Serialize ?req) cs ?c2 = Inr (?c2\<lparr>c_pool := pool, c_writes := c_writes ?c2 @
        [(cs, made_packet (ce_pad env) ChatRoomListReq_t (ChatRoomListReq_Serialize ?req))]\<rparr>)"
    by (rule client_sends [of ?c2 cs "ChatRoomListReq_ByteSizeLong ?req" "ChatRoomListReq_Serialize ?req" "ce_pad env" ChatRoomListReq_t])
      (use assms(2) n in \<open>simp_all add: can_send_def list_req.size_ser\<close>)
  have run: "handle_answer (Some s) (Ans_login ack) c = Inr (None, ?c1)"
    "DispatchMessage env ?c1 = Inr (?c2\<lparr>c_pool := pool, c_writes := c_writes c @
        [(cs, made_packet (ce_pad env) ChatRoomListReq_t (ChatRoomListReq_Serialize ?req))], bw_visible := True\<rparr>)"
    using send assms(1,3,4)
    by (simp_all add: HandleLoginAck_def PostMessage_def DispatchMessage_def MainWndProc_def Let_def LoginWindow_OnLoginSuccess_def LoginWindow_Hide_def
        LobbyWindow_Show_def LobbyWindow_RefreshRoomList_def first_session_def)
  have view: "Packet_view (made_packet (ce_pad env) ChatRoomListReq_t (ChatRoomListReq_Serialize ?req))
      = packet_bytes (ce_pad env) (type_code ChatRoomListReq_t) (ChatRoomListReq_Serialize ?req)"
    by (rule made_packet_view [OF n])
  show thesis
    by (rule that [OF run _ _ _ _ view]) simp_all
qed

lemma list_answer_fills_lobby:
  assumes "LobbyWin \<in> cl_windows c" "cl_posts c = []"
  obtains c1 c2 where "handle_answer (Some s) (Ans_list ack) c = Inr (None, c1)" "DispatchMessage env c1 = Inr c2"
    "bw_chatRooms c2 = list_ack_chatroominfo ack" "bw_listbox c2 = map (room_line env) (list_ack_chatroominfo ack)"
proof -
  have copy: "\<lparr>info_roomid = info_roomid r, info_currentuser = info_currentuser r, info_maxuser = info_maxuser r,
      info_roomname = info_roomname r\<rparr> = r" for r :: ChatRoomInfo
    by (cases r) simp
  let ?c1 = "c\<lparr>cl_posts := [(LobbyWin, WM_CLIENT_CHATROOM_LIST (copy_rooms (list_ack_chatroominfo ack) ChatRoomListRes_new))]\<rparr>"
  have "handle_answer (Some s) (Ans_list ack) c = Inr (None, ?c1)"
    using assms by (simp add: HandleChatRoomListAck_def PostMessage_def Let_def)
  moreover have "DispatchMessage env ?c1 = Inr (LobbyWindow_UpdateLobby env (list_ack_chatroominfo ack) (c\<lparr>cl_posts := []\<rparr>))"
    by (simp add: DispatchMessage_def LobbyWindow_WndProc_def Let_def copy_rooms_append ChatRoomListRes_new_def copy)
  ultimately show thesis by (rule that) (simp_all add: LobbyWindow_UpdateLobby_def)
qed


lemma ex_conversation:
  "first_session (ex_app [(0, SessionPtr 10)]) = Some (SessionPtr 10)" "can_send (ex_app [(0, SessionPtr 10)]) (SessionPtr 10)"
  by (simp_all add: first_session_def can_send_def)

lemma ex_room_list:
  "spec_list (abs_chat ex_game) = \<lparr>list_ack_success = True,
     list_ack_chatroominfo = [\<lparr>info_roomid = 1, info_currentuser = 2, info_maxuser = 10, info_roomname = [114]\<rparr>]\<rparr>"
  by (simp add: room_list_spec [OF ex_chat_inv, symmetric] room_list_def ex_room_def ChatRoom_GetRoomInfo_def
      ChatRoom_GetCurrentUser_def)


section \<open>Chatting\<close>

lemma SendChatMessage_sends:
  assumes "cw_isConnect c" "text \<noteq> []" "first_session c = Some cs" "can_send c cs"
    "req = ChatReq_new\<lparr>chat_req_sessionuid := word_of_int (uid_of c cs), chat_req_message := ce_narrow env text\<rparr>"
    "ChatReq_ByteSizeLong req \<le> 65523"
  obtains pool where "ChatWindow_SendChatMessage env text c =
    Inr (c\<lparr>c_pool := pool, c_writes := c_writes c @ [(cs, made_packet (ce_pad env) ChatReq_t (ChatReq_Serialize req))]\<rparr>)"
  using assms chat_req.size_ser [of req]
  by (auto simp: ChatWindow_SendChatMessage_def Let_def intro: client_sends [OF assms(4), of "ChatReq_ByteSizeLong req"
        "ChatReq_Serialize req" "ce_pad env" ChatReq_t])

lemma chat_answer_shows:
  assumes "ChatWin \<in> cl_windows c" "cl_posts c = []"
  shows "\<exists>c1 c2. handle_answer (Some s) (Ans_chat ack) c = Inr (None, c1) \<and> DispatchMessage env c1 = Inr c2
    \<and> cw_listbox c2 = cw_listbox c @ [we_stamp env @ ce_widen env (chat_ack_sender ack @ ascii_bytes '': '' @ chat_ack_message ack)]"
  using assms
  by (simp add: HandleChatAck_def PostMessage_def Let_def DispatchMessage_def ChatWindow_WndProc_def
      ChatWindow_OnMessageRecv_def ChatWindow_AddChatMessage_def)



end
