(* ===== verification/Ini_File.thy ===== *)
theory Ini_File
  imports YJ_Prelude
begin

text \<open>
  The INI parser behind the configuration files, \<^verbatim>\<open>include/INIReader/ini.c\<close>, in the
  configuration its header \<^verbatim>\<open>ini.h\<close> selects and both programs compile: a line buffer of 200
  bytes on the stack, continuation lines, a byte order mark, comments that start with \<^verbatim>\<open>;\<close> or
  \<^verbatim>\<open>#\<close> and inline comments that start with \<^verbatim>\<open>;\<close>, no stop at the first error.

  A \<^verbatim>\<open>char*\<close> into the line buffer is the string from that position to the terminator; the
  buffer, a \<^verbatim>\<open>char\<close> array that holds a C string, is that string. What the code cuts off by
  writing a terminator is cut off the string. \<^verbatim>\<open>isspace\<close> is the one of the C locale, which
  neither program changes. A stream is the text that is left of it.

  Second part: the parser always returns on a file or a string, and it is a fold of one step
  over the chunks that \<^verbatim>\<open>fgets\<close> cuts the text into.
\<close>

section \<open>Characters and C strings\<close>

definition c_isspace :: "char \<Rightarrow> bool" where
  "c_isspace c = (c \<in> set [CHR '' '', CHR 0x09, CHR 0x0A, CHR 0x0B, CHR 0x0C, CHR 0x0D])"

definition c_str :: "string \<Rightarrow> string" where
  "c_str s = takeWhile (\<lambda>c. c \<noteq> CHR 0x00) s"

abbreviation newline :: char where
  "newline \<equiv> CHR 0x0A"

section \<open>String helpers of the parser\<close>

definition ini_rstrip :: "string \<Rightarrow> string" where
  "ini_rstrip s = rev (dropWhile c_isspace (rev s))"

definition ini_lskip :: "string \<Rightarrow> string" where
  "ini_lskip s = dropWhile c_isspace s"

text \<open>
  The scan returns what it passed over and the string at the pointer it returns, which is
  empty when the pointer is at the terminator. \<open>None\<close> is the null \<^verbatim>\<open>chars\<close>.
\<close>

fun ini_scan :: "bool \<Rightarrow> string option \<Rightarrow> string \<Rightarrow> string \<times> string" where
  "ini_scan was_space chars [] = ([], [])"
| "ini_scan was_space chars (c # cs) =
     (if (case chars of None \<Rightarrow> False | Some xs \<Rightarrow> c \<in> set xs) \<or> was_space \<and> c \<in> set '';''
      then ([], c # cs)
      else apfst (Cons c) (ini_scan (c_isspace c) chars cs))"

definition ini_find_chars_or_comment :: "string \<Rightarrow> string option \<Rightarrow> string \<times> string" where
  "ini_find_chars_or_comment s chars = ini_scan False chars s"

definition ini_strncpy0 :: "string \<Rightarrow> nat \<Rightarrow> string" where
  "ini_strncpy0 src n = take (n - 1) src"

section \<open>One line\<close>

type_synonym 'u ini_handler = "'u \<Rightarrow> string \<Rightarrow> string option \<Rightarrow> string option \<Rightarrow> bool \<times> 'u"

record 'u ini_state =
  ini_section :: string
  ini_prev_name :: string
  ini_lineno :: nat
  ini_error :: nat
  ini_user :: 'u

definition ini_state_new :: "'u \<Rightarrow> 'u ini_state" where
  "ini_state_new u = \<lparr>ini_section = [], ini_prev_name = [], ini_lineno = 0, ini_error = 0, ini_user = u\<rparr>"

text \<open>The first error stays: \<^verbatim>\<open>if (... && !error) error = lineno\<close>.\<close>

definition ini_fail :: "'u ini_state \<Rightarrow> 'u ini_state" where
  "ini_fail st = (if ini_error st = 0 then st\<lparr>ini_error := ini_lineno st\<rparr> else st)"

definition ini_call :: "'u ini_handler \<Rightarrow> string \<Rightarrow> string \<Rightarrow> 'u ini_state \<Rightarrow> 'u ini_state" where
  "ini_call h name val st =
     (let (ok, u) = h (ini_user st) (ini_section st) (Some name) (Some val);
          st' = st\<lparr>ini_user := u\<rparr>
      in if ok then st' else ini_fail st')"

definition ini_section_line :: "string \<Rightarrow> 'u ini_state \<Rightarrow> 'u ini_state" where
  "ini_section_line rest st =
     (case ini_find_chars_or_comment rest (Some '']'') of
        (name, e # _) \<Rightarrow>
          if e = CHR '']'' then st\<lparr>ini_section := ini_strncpy0 name 50, ini_prev_name := []\<rparr>
          else ini_fail st
      | (_, []) \<Rightarrow> ini_fail st)"

definition ini_value_line :: "'u ini_handler \<Rightarrow> string \<Rightarrow> 'u ini_state \<Rightarrow> 'u ini_state" where
  "ini_value_line h start st =
     (case ini_find_chars_or_comment start (Some ''=:'') of
        (before, e # after) \<Rightarrow>
          if e = CHR ''='' \<or> e = CHR '':''
          then let name = ini_rstrip before;
                   val = ini_rstrip (ini_lskip (fst (ini_find_chars_or_comment after None)))
               in ini_call h name val (st\<lparr>ini_prev_name := ini_strncpy0 name 50\<rparr>)
          else ini_fail st
      | (_, []) \<Rightarrow> ini_fail st)"

text \<open>
  The body of the loop on what \<^verbatim>\<open>reader\<close> stored in the buffer. \<open>start > line\<close> holds when
  white space (or the byte order mark) was skipped. An empty \<open>start\<close> is a comment for the
  code as well: \<^verbatim>\<open>strchr\<close> finds the terminator of the prefix list.
\<close>

definition ini_line :: "'u ini_handler \<Rightarrow> string \<Rightarrow> 'u ini_state \<Rightarrow> 'u ini_state" where
  "ini_line h buf st0 =
     (let st = st0\<lparr>ini_lineno := ini_lineno st0 + 1\<rparr>;
          line = c_str buf;
          bom = (ini_lineno st = 1 \<and> take 3 line = [CHR 0xEF, CHR 0xBB, CHR 0xBF]);
          skipped = ini_lskip (if bom then drop 3 line else line);
          start = ini_rstrip skipped
      in case start of
           [] \<Rightarrow> st
         | c # rest \<Rightarrow>
             if c \<in> set '';#'' then st
             else if ini_prev_name st \<noteq> [] \<and> length skipped < length line
             then ini_call h (ini_prev_name st)
                    (ini_rstrip (fst (ini_find_chars_or_comment start None))) st
             else if c = CHR ''['' then ini_section_line rest st
             else ini_value_line h start st)"

section \<open>Streams\<close>

text \<open>
  \<^verbatim>\<open>ini_reader_string\<close>, and \<^verbatim>\<open>fgets\<close> of the C library, which it replaces: at most \<open>num - 1\<close>
  characters, up to and including a newline.
\<close>

fun copy_line :: "nat \<Rightarrow> string \<Rightarrow> string \<times> string" where
  "copy_line 0 s = ([], s)"
| "copy_line (Suc n) [] = ([], [])"
| "copy_line (Suc n) (c # cs) = (if c = newline then ([c], cs) else apfst (Cons c) (copy_line n cs))"

definition ini_reader_string :: "nat \<Rightarrow> string \<Rightarrow> (string \<times> string) option" where
  "ini_reader_string num ctx = (if ctx = [] \<or> num < 2 then None else Some (copy_line (num - 1) ctx))"

definition c_fgets :: "nat \<Rightarrow> string \<Rightarrow> (string \<times> string) option" where
  "c_fgets num left = (if left = [] then None else Some (copy_line (num - 1) left))"

definition ini_max_line :: nat where
  "ini_max_line = 200"

partial_function (option) ini_loop ::
    "(nat \<Rightarrow> 's \<Rightarrow> (string \<times> 's) option) \<Rightarrow> 'u ini_handler \<Rightarrow> 's \<Rightarrow> 'u ini_state \<Rightarrow> 'u ini_state option" where
  "ini_loop reader h stream st =
     (case reader ini_max_line stream of
        None \<Rightarrow> Some st
      | Some (buf, stream') \<Rightarrow> ini_loop reader h stream' (ini_line h buf st))"

definition ini_parse_stream ::
    "(nat \<Rightarrow> 's \<Rightarrow> (string \<times> 's) option) \<Rightarrow> 's \<Rightarrow> 'u ini_handler \<Rightarrow> 'u \<Rightarrow> (int \<times> 'u) option" where
  "ini_parse_stream reader stream h user =
     (case ini_loop reader h stream (ini_state_new user) of
        None \<Rightarrow> None
      | Some st \<Rightarrow> Some (int (ini_error st), ini_user st))"

definition ini_parse_file :: "string \<Rightarrow> 'u ini_handler \<Rightarrow> 'u \<Rightarrow> (int \<times> 'u) option" where
  "ini_parse_file file h user = ini_parse_stream c_fgets file h user"

text \<open>The file system gives the text of a file, as a stream opened with mode \<^verbatim>\<open>"r"\<close> delivers it.\<close>

definition ini_parse ::
    "(string \<Rightarrow> string option) \<Rightarrow> string \<Rightarrow> 'u ini_handler \<Rightarrow> 'u \<Rightarrow> (int \<times> 'u) option" where
  "ini_parse fs filename h user =
     (case fs filename of None \<Rightarrow> Some (- 1, user) | Some file \<Rightarrow> ini_parse_file file h user)"

definition ini_parse_string :: "string \<Rightarrow> 'u ini_handler \<Rightarrow> 'u \<Rightarrow> (int \<times> 'u) option" where
  "ini_parse_string s h user = ini_parse_stream ini_reader_string (c_str s) h user"

section \<open>The parser is a fold over the lines\<close>

lemma copy_line_append: "fst (copy_line n s) @ snd (copy_line n s) = s"
  by (induction n s rule: copy_line.induct) auto

lemma copy_line_length: "length (fst (copy_line n s)) \<le> n"
  by (induction n s rule: copy_line.induct) auto

lemma copy_line_shorter: "s \<noteq> [] \<Longrightarrow> 0 < n \<Longrightarrow> length (snd (copy_line n s)) < length s"
proof (cases n; cases s)
  fix m c cs
  assume "n = Suc m" "s = c # cs"
  then show ?thesis
    using arg_cong [OF copy_line_append [of m cs], of length] by (simp split: prod.split)
qed auto

lemma copy_line_line:
  "newline \<notin> set l \<Longrightarrow> length l < n \<Longrightarrow> copy_line n (l @ newline # rest) = (l @ [newline], rest)"
proof (induction l arbitrary: n)
  case Nil
  then show ?case by (cases n) auto
next
  case (Cons c l)
  then show ?case by (cases n) auto
qed

lemma copy_line_newlines: "newline \<notin> set (butlast (fst (copy_line n s)))"
proof (induction n s rule: copy_line.induct)
  case (3 n c cs)
  then show ?case by (cases "fst (copy_line n cs)") auto
qed auto

lemma copy_line_Nil_iff: "fst (copy_line n s) = [] \<longleftrightarrow> n = 0 \<or> s = []"
  by (cases "(n, s)" rule: copy_line.cases) auto

lemma copy_line_full:
  "snd (copy_line n s) \<noteq> [] \<Longrightarrow> 0 < n \<Longrightarrow>
   length (fst (copy_line n s)) = n \<or> last (fst (copy_line n s)) = newline"
proof (induction n s rule: copy_line.induct)
  case (3 n c cs)
  then show ?case by (cases n) (auto simp: copy_line_Nil_iff split: if_splits)
qed auto

function ini_chunks :: "string \<Rightarrow> string list" where
  "ini_chunks s = (if s = [] then [] else fst (copy_line (ini_max_line - 1) s) # ini_chunks (snd (copy_line (ini_max_line - 1) s)))"
  by pat_completeness auto
termination
  by (relation "measure length") (auto intro!: copy_line_shorter simp: ini_max_line_def)

declare ini_chunks.simps [simp del]

lemma ini_chunks_Nil [simp]: "ini_chunks [] = []"
  by (simp add: ini_chunks.simps)

lemma ini_chunks_line:
  "newline \<notin> set l \<Longrightarrow> length l \<le> 198 \<Longrightarrow> ini_chunks (l @ newline # rest) = (l @ [newline]) # ini_chunks rest"
  by (subst ini_chunks.simps) (simp add: copy_line_line ini_max_line_def)

lemma concat_ini_chunks: "concat (ini_chunks s) = s"
proof (induction s rule: ini_chunks.induct)
  case (1 s)
  then show ?case
    by (subst ini_chunks.simps) (simp add: copy_line_append)
qed

lemma ini_chunks_bounded: "l \<in> set (ini_chunks s) \<Longrightarrow> length l \<le> 199 \<and> newline \<notin> set (butlast l)"
proof (induction s rule: ini_chunks.induct)
  case (1 s)
  then show ?case
    using copy_line_length [of 199 s]
    by (subst (asm) (2) ini_chunks.simps) (auto split: if_splits simp: ini_max_line_def copy_line_newlines)
qed

lemma ini_loop_unfold:
  assumes "\<And>t. reader ini_max_line t = c_fgets ini_max_line t"
  shows "ini_loop reader h s st =
    (if s = [] then Some st
     else ini_loop reader h (snd (copy_line (ini_max_line - 1) s))
            (ini_line h (fst (copy_line (ini_max_line - 1) s)) st))"
  by (subst ini_loop.simps) (simp add: assms c_fgets_def case_prod_unfold)

lemma ini_loop_fgets:
  assumes "\<And>t. reader ini_max_line t = c_fgets ini_max_line t"
  shows "ini_loop reader h s st = Some (fold (ini_line h) (ini_chunks s) st)"
proof (induction s arbitrary: st rule: ini_chunks.induct)
  case (1 s)
  then show ?case
    by (subst ini_loop_unfold [of reader, OF assms], subst ini_chunks.simps) simp
qed

lemma ini_reader_string_is_fgets: "ini_reader_string ini_max_line t = c_fgets ini_max_line t"
  by (simp add: ini_reader_string_def c_fgets_def ini_max_line_def)

definition ini_run :: "'u ini_handler \<Rightarrow> string list \<Rightarrow> 'u \<Rightarrow> 'u ini_state" where
  "ini_run h ls u = fold (ini_line h) ls (ini_state_new u)"

lemma ini_parse_file_run:
  "ini_parse_file s h u = Some (int (ini_error (ini_run h (ini_chunks s) u)), ini_user (ini_run h (ini_chunks s) u))"
  by (simp add: ini_parse_file_def ini_parse_stream_def ini_loop_fgets ini_run_def)

lemma ini_parse_string_run:
  "ini_parse_string s h u
   = Some (int (ini_error (ini_run h (ini_chunks (c_str s)) u)), ini_user (ini_run h (ini_chunks (c_str s)) u))"
  by (simp add: ini_parse_string_def ini_parse_stream_def ini_loop_fgets [of ini_reader_string, OF ini_reader_string_is_fgets] ini_run_def)

section \<open>The error that is returned\<close>

lemma ini_fail_user [simp]: "ini_user (ini_fail st) = ini_user st"
  by (simp add: ini_fail_def)

text \<open>What a step may do to the error: keep it, or set the first one to the line number.\<close>

definition ini_keeps :: "'u ini_state \<Rightarrow> 'u ini_state \<Rightarrow> bool" where
  "ini_keeps st st' \<longleftrightarrow> ini_lineno st' = ini_lineno st
     \<and> (ini_error st' = ini_error st \<or> ini_error st = 0 \<and> ini_error st' = ini_lineno st)"

lemma ini_keeps_updates [simp]:
  "ini_keeps (st\<lparr>ini_prev_name := p\<rparr>) st' = ini_keeps st st'"
  "ini_keeps st (st\<lparr>ini_section := a, ini_prev_name := p\<rparr>)"
  "ini_keeps st (ini_fail st)" "ini_keeps st st"
  by (simp_all add: ini_keeps_def ini_fail_def)

lemma ini_call_keeps [simp]: "ini_keeps st (ini_call h n v st)"
  by (simp add: ini_call_def Let_def ini_keeps_def ini_fail_def split: prod.split)

lemma ini_section_line_keeps [simp]: "ini_keeps st (ini_section_line r st)"
  by (simp add: ini_section_line_def split: prod.split list.split)

lemma ini_value_line_keeps [simp]: "ini_keeps st (ini_value_line h s st)"
proof -
  have "ini_keeps st (ini_call h n v (st\<lparr>ini_prev_name := p\<rparr>))" for n v p
    using ini_call_keeps [of "st\<lparr>ini_prev_name := p\<rparr>" h n v] by (simp only: ini_keeps_updates)
  then show ?thesis
    unfolding ini_value_line_def Let_def by (simp split: prod.split list.split)
qed

lemma ini_line_keeps: "ini_keeps (st\<lparr>ini_lineno := ini_lineno st + 1\<rparr>) (ini_line h l st)"
  unfolding ini_line_def Let_def by (simp split: list.split)

lemma ini_line_fields:
  "ini_lineno (ini_line h l st) = ini_lineno st + 1"
  "ini_error (ini_line h l st) = ini_error st
   \<or> ini_error st = 0 \<and> ini_error (ini_line h l st) = ini_lineno st + 1"
  using ini_line_keeps [of st h l] by (simp_all add: ini_keeps_def)

lemma ini_run_snoc: "ini_run h (ls @ [l]) u = ini_line h l (ini_run h ls u)"
  by (simp add: ini_run_def)

lemma ini_run_lineno: "ini_lineno (ini_run h ls u) = length ls"
  by (induction ls rule: rev_induct) (simp_all add: ini_run_snoc ini_line_fields, simp add: ini_run_def ini_state_new_def)

lemma ini_run_error:
  "(ini_error (ini_run h ls u) = 0 \<and> (\<forall>k. ini_error (ini_run h (take k ls) u) = 0))
   \<or> (\<exists>n < length ls. ini_error (ini_run h ls u) = n + 1 \<and> ini_error (ini_run h (take n ls) u) = 0
        \<and> (\<forall>k > n. ini_error (ini_run h (take k ls) u) = n + 1))"
proof (induction ls rule: rev_induct)
  case Nil
  then show ?case by (simp add: ini_run_def ini_state_new_def)
next
  case (snoc l ls)
  have new: "ini_error (ini_run h (ls @ [l]) u) = ini_error (ini_run h ls u)
      \<or> ini_error (ini_run h ls u) = 0 \<and> ini_error (ini_run h (ls @ [l]) u) = length ls + 1"
    using ini_line_fields (2) [of h l "ini_run h ls u"] by (simp add: ini_run_snoc ini_run_lineno)
  have take_snoc: "take k (ls @ [l]) = (if k \<le> length ls then take k ls else ls @ [l])" for k
    by (cases "k \<le> length ls") auto
  from snoc show ?case
  proof (elim disjE exE conjE)
    assume z: "ini_error (ini_run h ls u) = 0" "\<forall>k. ini_error (ini_run h (take k ls) u) = 0"
    then consider "ini_error (ini_run h (ls @ [l]) u) = 0" | "ini_error (ini_run h (ls @ [l]) u) = length ls + 1"
      using new by auto
    then show ?thesis
      by cases (use z in \<open>auto simp: take_snoc simp del: take_append intro!: exI [of _ "length ls"]\<close>)
  next
    fix n
    assume n: "n < length ls" "ini_error (ini_run h ls u) = n + 1" "ini_error (ini_run h (take n ls) u) = 0"
      "\<forall>k > n. ini_error (ini_run h (take k ls) u) = n + 1"
    then have "ini_error (ini_run h (ls @ [l]) u) = n + 1"
      using new by auto
    then show ?thesis
      using n by (intro disjI2 exI [of _ n]) (auto simp: take_snoc simp del: take_append)
  qed
qed

text \<open>
  The result of a run: 0 if no piece is in error, and otherwise the number of the first one
  that is. The pieces before it leave no error, and no later piece changes the number.
\<close>

definition first_error :: "'u ini_handler \<Rightarrow> string list \<Rightarrow> 'u \<Rightarrow> nat \<Rightarrow> bool" where
  "first_error h ls u e \<longleftrightarrow>
     e = 0 \<and> (\<forall>k. ini_error (ini_run h (take k ls) u) = 0)
     \<or> (\<exists>n < length ls. e = n + 1 \<and> ini_error (ini_run h (take n ls) u) = 0
          \<and> (\<forall>j. ini_error (ini_run h (take (n + 1 + j) ls) u) = n + 1))"

lemma ini_parse_first_error:
  "\<exists>e. ini_parse_file contents h u = Some (int e, ini_user (ini_run h (ini_chunks contents) u))
    \<and> first_error h (ini_chunks contents) u e"
  using ini_run_error [of h "ini_chunks contents" u] by (auto simp: ini_parse_file_run first_error_def)

text \<open>The pieces are the lines of the file, cut after 199 characters.\<close>

lemma ini_chunks_pieces:
  "concat (ini_chunks s) = s"
  "list_all (\<lambda>l. length l \<le> 199 \<and> newline \<notin> set (butlast l)) (ini_chunks s)"
  by (auto simp: concat_ini_chunks list_all_iff ini_chunks_bounded)

end
