(* ===== verification/Ini_Reader.thy ===== *)
theory Ini_Reader
  imports Ini_File "HOL-Library.Char_ord" "HOL-Library.List_Lexorder"
begin

text \<open>
  \<^verbatim>\<open>include/INIReader/INIReader.cpp\<close>: the reader that both programs construct on their
  configuration file. Its \<^verbatim>\<open>std::map\<close> is the list of its entries in the order of the map, which
  compares keys byte by byte. \<^verbatim>\<open>GetReal\<close>, which neither program calls, is left out.

  The library part: the numbers of the C library (\<^verbatim>\<open>strtol\<close> and its siblings), what the
  handler may assume and keeps as a locale that is interpreted on \<^verbatim>\<open>ValueHandler\<close>, and the
  facts on the sorted map.
\<close>

section \<open>Characters and numbers of the C library\<close>

definition c_tolower :: "char \<Rightarrow> char" where
  "c_tolower c = (if CHR ''A'' \<le> c \<and> c \<le> CHR ''Z'' then char_of (of_char c + 32 :: nat) else c)"

definition c_digit :: "char \<Rightarrow> nat" where
  "c_digit c =
     (if CHR ''0'' \<le> c \<and> c \<le> CHR ''9'' then of_char c - 48
      else if CHR ''a'' \<le> c_tolower c \<and> c_tolower c \<le> CHR ''z'' then of_char (c_tolower c) - 87
      else 99)"

definition c_sign :: "string \<Rightarrow> bool \<times> string" where
  "c_sign s =
     (case s of
        [] \<Rightarrow> (False, [])
      | c # cs \<Rightarrow> if c = CHR ''-'' then (True, cs) else if c = CHR ''+'' then (False, cs) else (False, s))"

text \<open>Base 0 reads the base off the prefix: \<^verbatim>\<open>0x\<close> in front of a hexadecimal digit, or \<^verbatim>\<open>0\<close>.\<close>

definition c_base :: "nat \<Rightarrow> string \<Rightarrow> nat \<times> string" where
  "c_base base s =
     (if base \<noteq> 0 then (base, s)
      else case s of
             c0 # c1 # c2 # cs \<Rightarrow>
               if c0 = CHR ''0'' \<and> c_tolower c1 = CHR ''x'' \<and> c_digit c2 < 16 then (16, c2 # cs)
               else (if c0 = CHR ''0'' then 8 else 10, s)
           | c0 # cs \<Rightarrow> (if c0 = CHR ''0'' then 8 else 10, s)
           | [] \<Rightarrow> (10, []))"

definition c_value :: "nat \<Rightarrow> string \<Rightarrow> nat" where
  "c_value base ds = foldl (\<lambda>n c. base * n + c_digit c) 0 ds"

text \<open>Sign and magnitude of the number at the start, \<open>None\<close> if \<^verbatim>\<open>end\<close> stays at the start.\<close>

definition c_strto :: "nat \<Rightarrow> string \<Rightarrow> (bool \<times> nat) option" where
  "c_strto base s =
     (let (neg, t) = c_sign (dropWhile c_isspace s);
          (b, u) = c_base base t;
          ds = takeWhile (\<lambda>c. c_digit c < b) u
      in if ds = [] then None else Some (neg, c_value b ds))"

definition c_signed :: "nat \<Rightarrow> bool \<times> nat \<Rightarrow> int" where
  "c_signed bits p =
     (let v = (if fst p then - int (snd p) else int (snd p))
      in max (- (2 ^ (bits - 1))) (min (2 ^ (bits - 1) - 1) v))"

definition c_unsigned :: "nat \<Rightarrow> bool \<times> nat \<Rightarrow> int" where
  "c_unsigned bits p =
     (if 2 ^ bits \<le> snd p then 2 ^ bits - 1
      else if fst p then (- int (snd p)) mod 2 ^ bits else int (snd p))"

text \<open>\<^verbatim>\<open>stoi\<close>: base 10, an exception for no number and for one outside \<^verbatim>\<open>int\<close>.\<close>

definition c_stoi :: "string \<Rightarrow> int option" where
  "c_stoi s =
     (case c_strto 10 (c_str s) of
        None \<Rightarrow> None
      | Some (neg, n) \<Rightarrow>
          let v = (if neg then - int n else int n)
          in if - 2147483648 \<le> v \<and> v \<le> 2147483647 then Some v else None)"

section \<open>The map\<close>

type_synonym string_map = "(string \<times> string) list"

fun smap_put :: "string \<Rightarrow> string \<Rightarrow> string_map \<Rightarrow> string_map" where
  "smap_put k v [] = [(k, v)]"
| "smap_put k v ((k', v') # m) =
     (if k < k' then (k, v) # (k', v') # m
      else if k = k' then (k, v) # m
      else (k', v') # smap_put k v m)"

text \<open>\<^verbatim>\<open>m[k]\<close>, which puts the empty string when there is no entry.\<close>

definition smap_at :: "string \<Rightarrow> string_map \<Rightarrow> string \<times> string_map" where
  "smap_at k m = (case map_of m k of Some v \<Rightarrow> (v, m) | None \<Rightarrow> ([], smap_put k [] m))"

definition smap_lower_bound :: "string \<Rightarrow> string_map \<Rightarrow> string_map" where
  "smap_lower_bound k m = dropWhile (\<lambda>e. fst e < k) m"

section \<open>The reader\<close>

record INIReader =
  rd_error :: int
  rd_values :: string_map

definition MakeKey :: "string \<Rightarrow> string \<Rightarrow> string" where
  "MakeKey section_name name = map c_tolower (section_name @ ''='' @ name)"

definition ValueHandler :: "string_map ini_handler" where
  "ValueHandler vals section_name name val =
     (case name of
        None \<Rightarrow> (True, vals)
      | Some n \<Rightarrow>
          let key = MakeKey section_name n;
              (old, vals1) = smap_at key vals;
              vals2 = (if 0 < length old then smap_put key (old @ [newline]) vals1 else vals1);
              (cur, vals3) = smap_at key vals2
          in (True, smap_put key (cur @ (case val of None \<Rightarrow> [] | Some v \<Rightarrow> v)) vals3))"

definition INIReader_file :: "(string \<Rightarrow> string option) \<Rightarrow> string \<Rightarrow> INIReader option" where
  "INIReader_file fs filename =
     (case ini_parse fs filename ValueHandler [] of
        None \<Rightarrow> None
      | Some (e, vals) \<Rightarrow> Some \<lparr>rd_error = e, rd_values = vals\<rparr>)"

definition INIReader_buffer :: "string \<Rightarrow> INIReader option" where
  "INIReader_buffer content =
     (case ini_parse_string content ValueHandler [] of
        None \<Rightarrow> None
      | Some (e, vals) \<Rightarrow> Some \<lparr>rd_error = e, rd_values = vals\<rparr>)"

definition ParseError :: "INIReader \<Rightarrow> int" where
  "ParseError r = rd_error r"

definition INIReader_Get :: "INIReader \<Rightarrow> string \<Rightarrow> string \<Rightarrow> string \<Rightarrow> string" where
  "INIReader_Get r section_name name default_value =
     (case map_of (rd_values r) (MakeKey section_name name) of Some v \<Rightarrow> v | None \<Rightarrow> default_value)"

definition GetString :: "INIReader \<Rightarrow> string \<Rightarrow> string \<Rightarrow> string \<Rightarrow> string" where
  "GetString r section_name name default_value =
     (let str = INIReader_Get r section_name name [] in if str = [] then default_value else str)"

definition GetInteger :: "INIReader \<Rightarrow> string \<Rightarrow> string \<Rightarrow> int \<Rightarrow> int" where
  "GetInteger r section_name name default_value =
     (case c_strto 0 (c_str (INIReader_Get r section_name name [])) of
        None \<Rightarrow> default_value | Some p \<Rightarrow> c_signed 32 p)"

definition GetInteger64 :: "INIReader \<Rightarrow> string \<Rightarrow> string \<Rightarrow> int \<Rightarrow> int" where
  "GetInteger64 r section_name name default_value =
     (case c_strto 0 (c_str (INIReader_Get r section_name name [])) of
        None \<Rightarrow> default_value | Some p \<Rightarrow> c_signed 64 p)"

definition GetUnsigned :: "INIReader \<Rightarrow> string \<Rightarrow> string \<Rightarrow> int \<Rightarrow> int" where
  "GetUnsigned r section_name name default_value =
     (case c_strto 0 (c_str (INIReader_Get r section_name name [])) of
        None \<Rightarrow> default_value | Some p \<Rightarrow> c_unsigned 32 p)"

definition GetUnsigned64 :: "INIReader \<Rightarrow> string \<Rightarrow> string \<Rightarrow> int \<Rightarrow> int" where
  "GetUnsigned64 r section_name name default_value =
     (case c_strto 0 (c_str (INIReader_Get r section_name name [])) of
        None \<Rightarrow> default_value | Some p \<Rightarrow> c_unsigned 64 p)"

definition GetBoolean :: "INIReader \<Rightarrow> string \<Rightarrow> string \<Rightarrow> bool \<Rightarrow> bool" where
  "GetBoolean r section_name name default_value =
     (let valstr = map c_tolower (INIReader_Get r section_name name [])
      in if valstr = ''true'' \<or> valstr = ''yes'' \<or> valstr = ''on'' \<or> valstr = ''1'' then True
         else if valstr = ''false'' \<or> valstr = ''no'' \<or> valstr = ''off'' \<or> valstr = ''0'' then False
         else default_value)"

definition HasSection :: "INIReader \<Rightarrow> string \<Rightarrow> bool" where
  "HasSection r section_name =
     (let key = MakeKey section_name []
      in case smap_lower_bound key (rd_values r) of
           [] \<Rightarrow> False
         | (k, _) # _ \<Rightarrow> take (length key) k = key)"

definition HasValue :: "INIReader \<Rightarrow> string \<Rightarrow> string \<Rightarrow> bool" where
  "HasValue r section_name name \<longleftrightarrow> map_of (rd_values r) (MakeKey section_name name) \<noteq> None"

section \<open>Lower case\<close>

lemma of_char_tolower:
  "(of_char (c_tolower c) :: nat) =
     (if 65 \<le> (of_char c :: nat) \<and> (of_char c :: nat) \<le> 90 then of_char c + 32 else of_char c)"
  by (simp add: c_tolower_def less_eq_char_def)

lemma c_tolower_idem [simp]: "c_tolower (c_tolower c) = c_tolower c"
proof -
  have "(of_char (c_tolower (c_tolower c)) :: nat) = of_char (c_tolower c)"
    by (simp add: of_char_tolower)
  then show ?thesis by simp
qed

lemma MakeKey_simps [simp]:
  "map c_tolower (MakeKey s n) = MakeKey s n" "MakeKey (map c_tolower s) (map c_tolower n) = MakeKey s n"
  by (simp_all add: MakeKey_def)

section \<open>The sorted map\<close>

definition smap_sorted :: "string_map \<Rightarrow> bool" where
  "smap_sorted m \<longleftrightarrow> sorted_wrt (<) (map fst m)"

lemma smap_sorted_Nil [simp]: "smap_sorted []"
  by (simp add: smap_sorted_def)

lemma smap_sorted_Cons [simp]:
  "smap_sorted ((k, v) # m) \<longleftrightarrow> (\<forall>k' \<in> fst ` set m. k < k') \<and> smap_sorted m"
  by (auto simp: smap_sorted_def)

lemma keys_smap_put [simp]: "fst ` set (smap_put k v m) = insert k (fst ` set m)"
  by (induction k v m rule: smap_put.induct) auto

lemma smap_sorted_put [simp]: "smap_sorted m \<Longrightarrow> smap_sorted (smap_put k v m)"
proof (induction k v m rule: smap_put.induct)
  case (2 k v k' v' m)
  have "k' < x" if "\<not> k < k'" "k \<noteq> k'" "x \<in> fst ` set (smap_put k v m)" for x
    using that 2(2) unfolding keys_smap_put smap_sorted_Cons by auto
  then show ?case
    using 2 by (auto intro: less_trans)
qed simp

lemma map_of_smap_put [simp]: "smap_sorted m \<Longrightarrow> map_of (smap_put k v m) = (map_of m)(k \<mapsto> v)"
proof (induction k v m rule: smap_put.induct)
  case (2 k v k' v' m)
  have "map_of m k = None" if "k < k'"
    using that 2(2) by (auto simp: map_of_eq_None_iff intro: less_trans dest: less_asym)
  then show ?case using 2 by (auto simp: fun_eq_iff)
qed auto

lemma smap_at_simps [simp]:
  "smap_sorted m \<Longrightarrow> fst (smap_at k m) = (case map_of m k of Some v \<Rightarrow> v | None \<Rightarrow> [])"
  "smap_sorted m \<Longrightarrow> smap_sorted (snd (smap_at k m))"
  "smap_sorted m \<Longrightarrow> map_of (snd (smap_at k m)) = (map_of m)(k \<mapsto> fst (smap_at k m))"
  "fst ` set (snd (smap_at k m)) = insert k (fst ` set m)"
  by (auto simp: smap_at_def fun_eq_iff image_iff dest!: map_of_SomeD split: option.split) force

lemma Cons_le_Cons: "(x :: 'a :: linorder) # xs \<le> y # ys \<longleftrightarrow> x < y \<or> x = y \<and> xs \<le> ys"
  by auto

lemma le_append: "(xs :: 'a :: linorder list) \<le> xs @ ys"
  by (induction xs) auto

lemma between_prefix:
  "(k :: 'a :: linorder list) \<le> p \<Longrightarrow> p \<le> k @ z \<Longrightarrow> take (length k) p = k"
proof (induction k arbitrary: p)
  case (Cons x k)
  then show ?case by (cases p) (auto dest: less_asym)
qed simp

text \<open>What a search from the lower bound finds: an entry whose key starts with \<open>k\<close>, if there is one.\<close>

lemma lower_bound_prefix:
  assumes "smap_sorted m"
  shows "(case smap_lower_bound k m of [] \<Rightarrow> False | (k', _) # _ \<Rightarrow> take (length k) k' = k)
    \<longleftrightarrow> (\<exists>z. k @ z \<in> fst ` set m)"
  using assms
proof (induction m)
  case Nil
  then show ?case by (simp add: smap_lower_bound_def)
next
  case (Cons e m)
  obtain k' v where e: "e = (k', v)" by (cases e)
  show ?case
  proof (cases "k' < k")
    case True
    then have "k @ z \<noteq> k'" for z using le_append [of k z] by auto
    then show ?thesis using Cons True e by (auto simp: smap_lower_bound_def)
  next
    case False
    have "take (length k) k' = k" if z: "k @ z \<in> fst ` set (e # m)" for z
      using z False Cons.prems e by (intro between_prefix [where z = z]) auto
    moreover have "k' = k @ drop (length k) k'" if "take (length k) k' = k"
      using that by (metis append_take_drop_id)
    ultimately show ?thesis
      using False e by (auto simp: smap_lower_bound_def image_iff) metis+
  qed
qed

section \<open>What the handler keeps\<close>

text \<open>
  A client of the parser: a handler that reports no error and keeps a property of its data.
  Then the parser reports only its own errors, and the data keep the property.
\<close>

locale ini_client =
  fixes h :: "'u ini_handler" and ok :: "'u \<Rightarrow> bool"
  assumes accepts: "fst (h u s n v)"
    and keeps: "ok u \<Longrightarrow> ok (snd (h u s n v))"
begin

lemma call_user: "ini_call h n v st = st\<lparr>ini_user := snd (h (ini_user st) (ini_section st) (Some n) (Some v))\<rparr>"
  using accepts [of "ini_user st" "ini_section st" "Some n" "Some v"]
  by (auto simp: ini_call_def Let_def split: prod.split)

lemma value_line_ok: "ok (ini_user st) \<Longrightarrow> ok (ini_user (ini_value_line h s st))"
  unfolding ini_value_line_def Let_def by (simp add: call_user keeps split: prod.split list.split)

lemma section_line_ok: "ok (ini_user st) \<Longrightarrow> ok (ini_user (ini_section_line s st))"
  by (simp add: ini_section_line_def split: prod.split list.split)

lemma line_ok: "ok (ini_user st) \<Longrightarrow> ok (ini_user (ini_line h l st))"
  unfolding ini_line_def Let_def
  by (simp add: call_user keeps value_line_ok section_line_ok split: list.split)

lemma run_ok: "ok u \<Longrightarrow> ok (ini_user (ini_run h ls u))"
  by (induction ls rule: rev_induct)
    (simp_all add: ini_run_snoc line_ok, simp add: ini_run_def ini_state_new_def)

end

text \<open>The reader keeps its map sorted, with lower-case keys.\<close>

definition values_ok :: "string_map \<Rightarrow> bool" where
  "values_ok m \<longleftrightarrow> smap_sorted m \<and> (\<forall>k \<in> fst ` set m. \<exists>s n. k = MakeKey s n)"

definition joined :: "string \<Rightarrow> string \<Rightarrow> string" where
  "joined old v = (if old = [] then v else old @ newline # v)"

lemma ValueHandler_put:
  assumes "smap_sorted m"
  shows "fst (ValueHandler m s (Some n) v)"
    "smap_sorted (snd (ValueHandler m s (Some n) v))"
    "fst ` set (snd (ValueHandler m s (Some n) v)) = insert (MakeKey s n) (fst ` set m)"
    "map_of (snd (ValueHandler m s (Some n) (Some w)))
     = (map_of m)(MakeKey s n \<mapsto> joined (case map_of m (MakeKey s n) of Some old \<Rightarrow> old | None \<Rightarrow> []) w)"
  using assms by (auto simp: ValueHandler_def Let_def case_prod_unfold joined_def)

lemma ValueHandler_None [simp]: "ValueHandler m s None v = (True, m)"
  by (simp add: ValueHandler_def)

interpretation reader: ini_client ValueHandler values_ok
proof
  fix m s n v
  show "fst (ValueHandler m s n v)"
    by (cases n) (simp_all add: ValueHandler_def Let_def case_prod_unfold)
  assume "values_ok m"
  then show "values_ok (snd (ValueHandler m s n v))"
    by (cases n) (auto simp: values_ok_def ValueHandler_put)
qed

section \<open>Printed configuration files\<close>

text \<open>A configuration as the sections of a file with their entries, and the file it is printed to.\<close>

type_synonym ini_config = "(string \<times> (string \<times> string) list) list"

definition entry_text :: "string \<times> string \<Rightarrow> string" where
  "entry_text e = fst e @ '' = '' @ snd e @ [newline]"

definition section_text :: "string \<times> (string \<times> string) list \<Rightarrow> string" where
  "section_text sec = ''['' @ fst sec @ '']'' @ newline # concat (map entry_text (snd sec))"

definition config_text :: "ini_config \<Rightarrow> string" where
  "config_text cfg = concat (map section_text cfg)"

definition plain :: "string \<Rightarrow> bool" where
  "plain s \<longleftrightarrow> CHR 0x00 \<notin> set s \<and> newline \<notin> set s \<and> CHR '';'' \<notin> set s"

definition trimmed :: "string \<Rightarrow> bool" where
  "trimmed s \<longleftrightarrow> s = [] \<or> \<not> c_isspace (hd s) \<and> \<not> c_isspace (last s)"

definition entry_ok :: "string \<times> string \<Rightarrow> bool" where
  "entry_ok e \<longleftrightarrow> plain (fst e) \<and> trimmed (fst e) \<and> fst e \<noteq> [] \<and> hd (fst e) \<notin> set ''[#''
     \<and> set (fst e) \<inter> set ''=:'' = {} \<and> plain (snd e) \<and> trimmed (snd e) \<and> length (fst e) + length (snd e) \<le> 195"

definition section_ok :: "string \<times> (string \<times> string) list \<Rightarrow> bool" where
  "section_ok sec \<longleftrightarrow> plain (fst sec) \<and> CHR '']'' \<notin> set (fst sec) \<and> length (fst sec) \<le> 49 \<and> list_all entry_ok (snd sec)"

text \<open>The value of a key: what its entries hold, in file order, one per line.\<close>

definition config_entries :: "ini_config \<Rightarrow> (string \<times> string) list" where
  "config_entries cfg = concat (map (\<lambda>sec. map (\<lambda>e. (MakeKey (fst sec) (fst e), snd e)) (snd sec)) cfg)"

definition add_entry :: "string \<times> string \<Rightarrow> (string \<rightharpoonup> string) \<Rightarrow> (string \<rightharpoonup> string)" where
  "add_entry e m = m(fst e \<mapsto> joined (case m (fst e) of Some old \<Rightarrow> old | None \<Rightarrow> []) (snd e))"

definition config_values :: "ini_config \<Rightarrow> (string \<rightharpoonup> string)" where
  "config_values cfg = fold add_entry (config_entries cfg) Map.empty"

lemma plain_simps [simp]:
  "plain []" "plain (c # s) \<longleftrightarrow> c \<noteq> CHR 0x00 \<and> c \<noteq> newline \<and> c \<noteq> CHR '';'' \<and> plain s"
  "plain (s @ t) \<longleftrightarrow> plain s \<and> plain t"
  by (auto simp: plain_def)

lemma c_str_plain: "plain s \<Longrightarrow> c_str (s @ [newline]) = s @ [newline]"
  unfolding c_str_def by (rule takeWhile_eq_all_conv [THEN iffD2]) (auto simp: plain_def)

lemma ini_rstrip_append:
  "s \<noteq> [] \<Longrightarrow> \<not> c_isspace (last s) \<Longrightarrow> list_all c_isspace ws \<Longrightarrow> ini_rstrip (s @ ws) = s"
  by (cases s rule: rev_cases) (auto simp: ini_rstrip_def dropWhile_append list_all_iff)

lemma ini_rstrip_trimmed: "trimmed s \<Longrightarrow> ini_rstrip s = s"
  by (cases "s = []") (use ini_rstrip_append [of s "[]"] in \<open>simp_all add: trimmed_def, simp add: ini_rstrip_def\<close>)

lemma ini_lskip_id: "s = [] \<or> \<not> c_isspace (hd s) \<Longrightarrow> ini_lskip s = s"
  by (cases s) (auto simp: ini_lskip_def)

lemma scan_stop:
  "plain s \<Longrightarrow> set s \<inter> set xs = {} \<Longrightarrow> e \<in> set xs \<Longrightarrow> ini_scan b (Some xs) (s @ e # r) = (s, e # r)"
  by (induction s arbitrary: b) auto

lemma scan_all: "plain s \<Longrightarrow> ini_scan b None s = (s, [])"
  by (induction s arbitrary: b) auto

lemma c_isspace_simps [simp]:
  "c_isspace CHR '' ''" "c_isspace newline" "\<not> c_isspace CHR ''=''" "\<not> c_isspace CHR ''[''" "\<not> c_isspace CHR '']''"
  by (simp_all add: c_isspace_def)

lemma ini_line_section:
  assumes "plain s" "CHR '']'' \<notin> set s" "length s \<le> 49"
  shows "ini_line h (''['' @ s @ '']'' @ [newline]) st
    = st\<lparr>ini_lineno := ini_lineno st + 1, ini_section := s, ini_prev_name := []\<rparr>"
proof -
  have c: "c_str (''['' @ s @ '']'' @ [newline]) = ''['' @ s @ '']'' @ [newline]"
    using c_str_plain [of "''['' @ s @ '']''"] assms(1) by simp
  have r: "ini_rstrip (''['' @ s @ '']'' @ [newline]) = ''['' @ s @ '']''"
    using ini_rstrip_append [of "''['' @ s @ '']''" "[newline]"] by simp
  have f: "ini_find_chars_or_comment (s @ '']'') (Some '']'') = (s, '']'')"
    using scan_stop [of s "'']''" "CHR '']''" False "[]"] assms by (simp add: ini_find_chars_or_comment_def)
  show ?thesis
    unfolding ini_line_def Let_def c
    using r f assms(3) by (simp add: ini_lskip_id ini_section_line_def ini_strncpy0_def)
qed

lemma ini_line_entry:
  assumes "entry_ok e" "0 < ini_lineno st"
  shows "ini_line h (entry_text e) st
    = ini_call h (fst e) (snd e) (st\<lparr>ini_lineno := ini_lineno st + 1, ini_prev_name := ini_strncpy0 (fst e) 50\<rparr>)"
proof -
  obtain n v where e: "e = (n, v)" by (cases e)
  then have n: "plain n" "trimmed n" "n \<noteq> []" "hd n \<notin> set ''[#''" "set n \<inter> set ''=:'' = {}"
    and v: "plain v" "trimmed v"
    using assms(1) by (auto simp: entry_ok_def)
  let ?line = "n @ '' = '' @ v @ [newline]"
  let ?after = "if v = [] then [] else CHR '' '' # v"
  let ?start = "(n @ '' '') @ CHR ''='' # ?after"
  have c: "c_str ?line = ?line"
    using c_str_plain [of "n @ '' = '' @ v"] n v by simp
  have skip: "ini_lskip ?line = ?line"
    using n(2,3) by (intro ini_lskip_id) (auto simp: trimmed_def)
  have r: "ini_rstrip ?line = ?start"
    using ini_rstrip_append [of ?start "if v = [] then '' '' @ [newline] else [newline]"] v(2)
    by (auto simp: trimmed_def)
  have f: "ini_find_chars_or_comment ?start (Some ''=:'') = (n @ '' '', CHR ''='' # ?after)"
    unfolding ini_find_chars_or_comment_def using n by (intro scan_stop) auto
  have a: "ini_find_chars_or_comment ?after None = (?after, [])"
    unfolding ini_find_chars_or_comment_def using v by (intro scan_all) auto
  have b: "ini_rstrip (n @ '' '') = n"
    using n(2,3) by (intro ini_rstrip_append) (auto simp: trimmed_def)
  have w: "ini_rstrip (ini_lskip ?after) = v"
  proof -
    have "ini_lskip ?after = v" using v(2) by (cases v) (auto simp: trimmed_def ini_lskip_def)
    then show ?thesis using v(2) by (simp only: ini_rstrip_trimmed)
  qed
  obtain c0 n' where c0: "n = c0 # n'" using n(3) by (auto simp: neq_Nil_conv)
  have "c0 \<notin> set '';#''" "c0 \<noteq> CHR ''[''" using n(1,4) by (auto simp: c0)
  then show ?thesis
    unfolding ini_line_def Let_def entry_text_def e fst_conv snd_conv c
    using assms(2) skip r f a b w by (simp add: c0 ini_value_line_def Let_def)
qed

lemma entry_text_chunk:
  assumes "entry_ok e"
  shows "ini_chunks (entry_text e @ rest) = entry_text e # ini_chunks rest"
proof -
  have "newline \<notin> set (fst e @ '' = '' @ snd e)" "length (fst e @ '' = '' @ snd e) \<le> 198"
    using assms by (auto simp: entry_ok_def plain_def)
  then show ?thesis
    using ini_chunks_line [of "fst e @ '' = '' @ snd e" rest] by (simp add: entry_text_def)
qed

lemma section_text_chunks:
  assumes "section_ok sec"
  shows "ini_chunks (section_text sec @ rest)
    = (''['' @ fst sec @ '']'' @ [newline]) # map entry_text (snd sec) @ ini_chunks rest"
proof -
  have entries: "list_all entry_ok es \<Longrightarrow>
      ini_chunks (concat (map entry_text es) @ rest) = map entry_text es @ ini_chunks rest" for es
    by (induction es) (simp_all add: entry_text_chunk)
  have "newline \<notin> set (''['' @ fst sec @ '']'')" "length (''['' @ fst sec @ '']'') \<le> 198"
    using assms by (auto simp: section_ok_def plain_def)
  then show ?thesis
    using ini_chunks_line [of "''['' @ fst sec @ '']''"] entries [of "snd sec"] assms
    by (simp add: section_text_def section_ok_def)
qed

text \<open>What the parser has done to the reader: its map is the one of the entries so far.\<close>

definition parsed :: "(string \<rightharpoonup> string) \<Rightarrow> string_map ini_state \<Rightarrow> bool" where
  "parsed m st \<longleftrightarrow> smap_sorted (ini_user st) \<and> map_of (ini_user st) = m \<and> ini_error st = 0"

lemma parsed_entry:
  assumes "parsed m st" "entry_ok e" "0 < ini_lineno st"
  shows "parsed (add_entry (MakeKey (ini_section st) (fst e), snd e) m) (ini_line ValueHandler (entry_text e) st)
    \<and> ini_section (ini_line ValueHandler (entry_text e) st) = ini_section st
    \<and> 0 < ini_lineno (ini_line ValueHandler (entry_text e) st)"
  using assms by (simp add: ini_line_entry reader.call_user parsed_def add_entry_def ValueHandler_put)

lemma parsed_entries:
  assumes "parsed m st" "list_all entry_ok es" "0 < ini_lineno st"
  shows "parsed (fold add_entry (map (\<lambda>e. (MakeKey (ini_section st) (fst e), snd e)) es) m)
      (fold (ini_line ValueHandler) (map entry_text es) st)
    \<and> ini_section (fold (ini_line ValueHandler) (map entry_text es) st) = ini_section st
    \<and> 0 < ini_lineno (fold (ini_line ValueHandler) (map entry_text es) st)"
  using assms
proof (induction es arbitrary: m st)
  case (Cons e es)
  let ?st = "ini_line ValueHandler (entry_text e) st"
  have st: "parsed (add_entry (MakeKey (ini_section st) (fst e), snd e) m) ?st"
    "ini_section ?st = ini_section st" "0 < ini_lineno ?st"
    using parsed_entry [of m st e] Cons.prems by simp_all
  show ?case using Cons.IH [OF st(1) _ st(3)] Cons.prems(2) st(2) by simp
qed simp

lemma parsed_config:
  assumes "parsed m st" "list_all section_ok cfg"
  shows "parsed (fold add_entry (config_entries cfg) m)
    (fold (ini_line ValueHandler) (ini_chunks (config_text cfg)) st)"
  using assms
proof (induction cfg arbitrary: m st)
  case Nil
  then show ?case by (simp add: config_text_def config_entries_def)
next
  case (Cons sec cfg)
  let ?st = "ini_line ValueHandler (''['' @ fst sec @ '']'' @ [newline]) st"
  have sec: "section_ok sec" using Cons by simp
  then have st: "?st = st\<lparr>ini_lineno := ini_lineno st + 1, ini_section := fst sec, ini_prev_name := []\<rparr>"
    by (intro ini_line_section) (auto simp: section_ok_def)
  have "parsed m ?st" "0 < ini_lineno ?st" "ini_section ?st = fst sec"
    using Cons.prems by (simp_all only: st) (simp_all add: parsed_def)
  then have "parsed (fold add_entry (map (\<lambda>e. (MakeKey (fst sec) (fst e), snd e)) (snd sec)) m)
      (fold (ini_line ValueHandler) (map entry_text (snd sec)) ?st)"
    using parsed_entries [of m ?st "snd sec"] sec by (simp add: section_ok_def)
  from Cons.IH [OF this] Cons.prems show ?case
    using section_text_chunks [OF sec, of "config_text cfg"]
    by (simp add: config_text_def config_entries_def)
qed

lemma config_file_read:
  assumes "list_all section_ok cfg" "fs path = Some (config_text cfg)"
  obtains r where "INIReader_file fs path = Some r" "ParseError r = 0" "values_ok (rd_values r)"
    "map_of (rd_values r) = config_values cfg"
proof -
  let ?st = "ini_run ValueHandler (ini_chunks (config_text cfg)) []"
  have p: "parsed (config_values cfg) ?st"
    unfolding config_values_def ini_run_def
    by (rule parsed_config [OF _ assms(1)]) (simp add: parsed_def ini_state_new_def fun_eq_iff)
  have "values_ok (ini_user ?st)"
    by (rule reader.run_ok) (simp add: values_ok_def)
  with p assms(2) show ?thesis
    by (intro that [of "\<lparr>rd_error = 0, rd_values = ini_user ?st\<rparr>"])
      (simp_all add: INIReader_file_def ini_parse_def ini_parse_file_run parsed_def ParseError_def)
qed

lemma fold_add_entry_other: "k \<notin> fst ` set kvs \<Longrightarrow> fold add_entry kvs m k = m k"
  by (induction kvs arbitrary: m) (auto simp: add_entry_def)

lemma config_values_None: "k \<notin> fst ` set (config_entries cfg) \<Longrightarrow> config_values cfg k = None"
  by (simp add: config_values_def fold_add_entry_other)

lemma fold_add_entry_once:
  "distinct (map fst kvs) \<Longrightarrow> (k, v) \<in> set kvs \<Longrightarrow> m k = None \<Longrightarrow> fold add_entry kvs m k = Some v"
proof (induction kvs arbitrary: m)
  case (Cons kv kvs)
  show ?case
  proof (cases "kv = (k, v)")
    case True
    then have "k \<notin> fst ` set kvs" using Cons.prems by auto
    then show ?thesis using True Cons.prems(3) by (simp add: fold_add_entry_other, simp add: add_entry_def joined_def)
  next
    case False
    then have "(k, v) \<in> set kvs" "fst kv \<noteq> k" using Cons.prems by (auto simp: image_iff)
    then show ?thesis using Cons by (simp add: add_entry_def)
  qed
qed simp

lemma config_values_entry:
  assumes "distinct (map fst (config_entries cfg))" "(s, es) \<in> set cfg" "(n, v) \<in> set es"
  shows "config_values cfg (MakeKey s n) = Some v"
  unfolding config_values_def using assms
  by (intro fold_add_entry_once) (force simp: config_entries_def)+

lemma HasSection_exact:
  assumes ok: "values_ok (rd_values r)"
  shows "HasSection r s = (\<exists>n. HasValue r s n)"
proof -
  have "HasSection r s = (\<exists>z. MakeKey s [] @ z \<in> fst ` set (rd_values r))"
    unfolding HasSection_def Let_def using ok lower_bound_prefix by (auto simp: values_ok_def)
  also have "\<dots> = (\<exists>n. MakeKey s n \<in> fst ` set (rd_values r))"
  proof
    assume "\<exists>z. MakeKey s [] @ z \<in> fst ` set (rd_values r)"
    then obtain z where z: "MakeKey s [] @ z \<in> fst ` set (rd_values r)" by blast
    then obtain s' n' where "MakeKey s [] @ z = MakeKey s' n'" using ok unfolding values_ok_def by blast
    then have "map c_tolower (MakeKey s [] @ z) = MakeKey s [] @ z" by simp
    then have "MakeKey s [] @ z = MakeKey s z" by (simp add: MakeKey_def)
    with z show "\<exists>n. MakeKey s n \<in> fst ` set (rd_values r)" by metis
  next
    assume "\<exists>n. MakeKey s n \<in> fst ` set (rd_values r)"
    then show "\<exists>z. MakeKey s [] @ z \<in> fst ` set (rd_values r)" by (auto simp: MakeKey_def)
  qed
  finally show ?thesis by (simp add: HasValue_def map_of_eq_None_iff)
qed

section \<open>Properties\<close>


text \<open>
  C19. A configuration file that is printed and read back: no parse error, and every lookup
  returns, whatever the case of the section and the name, the values of the matching entries
  in file order, joined by newlines, or the default if there is none. With no key twice,
  each entry is found with its own value.
\<close>

theorem configuration_roundtrip:
  assumes "list_all section_ok cfg" "fs path = Some (config_text cfg)"
  shows "\<exists>r. INIReader_file fs path = Some r \<and> ParseError r = 0
    \<and> (\<forall>s n d. INIReader_Get r s n d = (case config_values cfg (MakeKey s n) of Some v \<Rightarrow> v | None \<Rightarrow> d))
    \<and> (distinct (map fst (config_entries cfg))
        \<longrightarrow> (\<forall>(s, es) \<in> set cfg. \<forall>(n, v) \<in> set es. \<forall>d. INIReader_Get r s n d = v))"
proof -
  obtain r where r: "INIReader_file fs path = Some r" "ParseError r = 0" "map_of (rd_values r) = config_values cfg"
    using config_file_read [of cfg fs path] assms by blast
  then show ?thesis
    using config_values_entry [of cfg] by (auto simp: INIReader_Get_def split_beta)
qed

theorem configuration_roundtrip_witness:
  "\<exists>r. INIReader_file [''a.ini'' \<mapsto> config_text [(''Server'', [(''Port'', ''7777''), (''Name'', ''my room'')]), (''x'', [(''PORT'', [])])]] ''a.ini'' = Some r
    \<and> INIReader_Get r ''server'' ''port'' ''0'' = ''7777''"
proof -
  let ?cfg = "[(''Server'', [(''Port'', ''7777''), (''Name'', ''my room'')]), (''x'', [(''PORT'', [])])]"
  have "list_all section_ok ?cfg"
    by (simp add: section_ok_def entry_ok_def plain_def trimmed_def c_isspace_def)
  moreover have "config_values ?cfg (MakeKey ''server'' ''port'') = Some ''7777''"
    by code_simp
  ultimately show ?thesis
    using configuration_roundtrip [of ?cfg "[''a.ini'' \<mapsto> config_text ?cfg]" "''a.ini''"] by auto
qed

end
