(* ===== verification/Ini_Numbers.thy ===== *)
theory Ini_Numbers
  imports Ini_Reader
begin

text \<open>
  Numbers in configuration files: a number that is printed in decimal is read back by
  \<^verbatim>\<open>strtol\<close>, with base 10 as in \<^verbatim>\<open>stoi\<close> and with base 0 as in \<^verbatim>\<open>GetInteger\<close>, and the
  printed text is one that an entry can hold.
\<close>

section \<open>Decimal numbers\<close>

definition digit_char :: "nat \<Rightarrow> char" where
  "digit_char d = char_of (48 + d)"

fun dec :: "nat \<Rightarrow> string" where
  "dec n = (if n < 10 then [digit_char n] else dec (n div 10) @ [digit_char (n mod 10)])"

declare dec.simps [simp del]

lemma of_char_digit: "d < 10 \<Longrightarrow> (of_char (digit_char d) :: nat) = 48 + d"
  by (simp add: digit_char_def)

lemma digit_char_0: "digit_char 0 = CHR ''0''"
proof -
  have "(of_char (digit_char 0) :: nat) = of_char CHR ''0''" by (simp add: digit_char_def)
  then show ?thesis by (simp only: of_char_eq_iff)
qed

lemma digit_char_simps [simp]:
  assumes "d < 10"
  shows "c_digit (digit_char d) = d" "\<not> c_isspace (digit_char d)"
    "digit_char d \<noteq> CHR ''-''" "digit_char d \<noteq> CHR ''+''" "digit_char d \<noteq> CHR 0x00"
    "digit_char d \<noteq> newline" "digit_char d \<noteq> CHR '';''" "digit_char d = CHR ''0'' \<longleftrightarrow> d = 0"
proof -
  have ne: "digit_char d \<noteq> c" if "(of_char c :: nat) \<noteq> 48 + d" for c
    using that of_char_digit [OF assms] by auto
  show "c_digit (digit_char d) = d"
    using assms by (simp add: c_digit_def less_eq_char_def of_char_digit)
  show "\<not> c_isspace (digit_char d)"
    using assms ne by (auto simp: c_isspace_def)
  show "digit_char d \<noteq> CHR ''-''" "digit_char d \<noteq> CHR ''+''" "digit_char d \<noteq> CHR 0x00" "digit_char d \<noteq> newline"
    using assms ne by auto
  show "digit_char d \<noteq> CHR '';''"
    using assms by (intro ne) simp
  show "digit_char d = CHR ''0'' \<longleftrightarrow> d = 0"
  proof
    assume "digit_char d = CHR ''0''"
    then show "d = 0" using of_char_digit [OF assms] by simp
  qed (simp add: digit_char_0)
qed

lemma dec_digits: "c \<in> set (dec n) \<Longrightarrow> \<exists>d < 10. c = digit_char d"
proof (induction n rule: dec.induct)
  case (1 n)
  then show ?case
    by (subst (asm) (2) dec.simps) (auto split: if_splits intro: exI [of _ "n mod 10"] exI [of _ n])
qed

lemma dec_value: "c_value 10 (dec n) = n"
proof (induction n rule: dec.induct)
  case (1 n)
  then show ?case
    by (subst dec.simps) (auto simp: c_value_def)
qed

lemma dec_not_Nil [simp]: "dec n \<noteq> []"
  by (subst dec.simps) simp

lemma dec_hd: "hd (dec n) = CHR ''0'' \<longleftrightarrow> n = 0"
proof (induction n rule: dec.induct)
  case (1 n)
  then show ?case
    by (subst dec.simps) (auto simp: hd_append)
qed

lemma dec_0: "dec 0 = ''0''"
  by (subst dec.simps) (simp add: digit_char_0)

lemma dec_plain: "plain (dec n)" "trimmed (dec n)"
proof -
  have digit: "c_isspace c = False \<and> c \<notin> {CHR 0x00, newline, CHR '';''}" if "c \<in> set (dec n)" for c
    using dec_digits [OF that] by auto
  show "plain (dec n)" using digit by (auto simp: plain_def)
  show "trimmed (dec n)" using digit [of "hd (dec n)"] digit [of "last (dec n)"] by (simp add: trimmed_def)
qed

lemma dec_c_str: "c_str (dec n) = dec n"
  unfolding c_str_def by (rule takeWhile_eq_all_conv [THEN iffD2]) (use dec_plain (1) [of n] in \<open>auto simp: plain_def\<close>)

text \<open>The number is read back, in base 10 and when the base is taken from the prefix.\<close>

lemma dec_strto:
  assumes "base = 0 \<or> base = 10"
  shows "c_strto base (dec n) = Some (False, n)"
proof -
  obtain c cs where c: "dec n = c # cs" by (cases "dec n") auto
  obtain d where d: "d < 10" "c = digit_char d" using dec_digits [of c n] c by auto
  have "c_digit c < 10" if "c \<in> set (dec n)" for c
    using dec_digits [OF that] by auto
  then have digits: "takeWhile (\<lambda>c. c_digit c < 10) (dec n) = dec n"
    by (simp add: takeWhile_eq_all_conv)
  have sign: "c_sign (dropWhile c_isspace (dec n)) = (False, dec n)"
    using d by (simp add: c c_sign_def)
  have pre: "c_base base (dec n) = (if base = 0 \<and> n = 0 then 8 else 10, dec n)"
  proof (cases "n = 0")
    case True
    then show ?thesis using assms by (auto simp: c_base_def dec_0)
  next
    case False
    then have "c \<noteq> CHR ''0''" using dec_hd [of n] by (simp add: c)
    then show ?thesis using assms False by (auto simp: c_base_def c split: list.split)
  qed
  have zero: "c_value 8 (dec 0) = 0" "takeWhile (\<lambda>c. c_digit c < 8) (dec 0) = dec 0"
    by (simp_all add: dec_0 c_value_def c_digit_def less_eq_char_def)
  show ?thesis
    unfolding c_strto_def Let_def sign prod.case pre
    by (cases "base = 0 \<and> n = 0") (auto simp: digits dec_value zero)
qed

lemma dec_7777: "dec 7777 = ''7777''"
proof -
  have "(of_char (digit_char 7) :: nat) = of_char CHR ''7''" by (simp add: digit_char_def)
  then have "digit_char 7 = CHR ''7''" by (simp only: of_char_eq_iff)
  then show ?thesis
    by (simp add: dec.simps [of 7777] dec.simps [of 777] dec.simps [of 77] dec.simps [of 7])
qed

section \<open>Settings of a printed file\<close>

text \<open>A setting of a printed file: its entry is the number in decimal, or there is none.\<close>

definition setting :: "ini_config \<Rightarrow> string \<Rightarrow> string \<Rightarrow> nat \<Rightarrow> nat \<Rightarrow> bool" where
  "setting cfg s name default_value n \<longleftrightarrow>
     n < 2147483648 \<and> (config_values cfg (MakeKey s name) = Some (dec n)
       \<or> config_values cfg (MakeKey s name) = None \<and> n = default_value)"

text \<open>The reader on a printed file, or on no file, which counts as an empty configuration.\<close>

definition config_file :: "(string \<Rightarrow> string option) \<Rightarrow> string \<Rightarrow> ini_config \<Rightarrow> bool" where
  "config_file fs path cfg \<longleftrightarrow>
     fs path = Some (config_text cfg) \<and> list_all section_ok cfg \<or> fs path = None \<and> cfg = []"

lemma config_file_reader:
  assumes "config_file fs path cfg"
  obtains r where "INIReader_file fs path = Some r" "map_of (rd_values r) = config_values cfg"
proof -
  consider (there) "fs path = Some (config_text cfg)" "list_all section_ok cfg" | (absent) "fs path = None" "cfg = []"
    using assms by (auto simp: config_file_def)
  then show ?thesis
  proof cases
    case there
    then show ?thesis using config_file_read [of cfg fs path] that by blast
  next
    case absent
    then show ?thesis
      by (intro that [of "\<lparr>rd_error = - 1, rd_values = []\<rparr>"])
        (simp_all add: INIReader_file_def ini_parse_def config_values_def config_entries_def fun_eq_iff)
  qed
qed

lemma setting_GetInteger:
  assumes "map_of (rd_values r) = config_values cfg" "setting cfg s name d n"
  shows "GetInteger r s name (int d) = int n"
proof -
  have "c_strto 0 (c_str []) = None" by (simp add: c_str_def c_strto_def c_sign_def c_base_def Let_def)
  then show ?thesis
    using assms by (auto simp: setting_def GetInteger_def INIReader_Get_def dec_c_str dec_strto c_signed_def)
qed

lemma setting_stoi:
  assumes "map_of (rd_values r) = config_values cfg" "setting cfg s name d n"
  shows "c_stoi (INIReader_Get r s name (dec d)) = Some (int n)"
  using assms by (auto simp: setting_def INIReader_Get_def c_stoi_def dec_c_str dec_strto)

end
