(* ===== verification/Log_File.thy ===== *)
theory Log_File
  imports Ini_Numbers
begin

text \<open>
  The logger of both programs, \<^verbatim>\<open>include/plog\<close>: severities and the filter of \<^verbatim>\<open>Logger.h\<close>, the
  text format of \<^verbatim>\<open>Formatters/TxtFormatter.h\<close> with the line endings of
  \<^verbatim>\<open>Converters/NativeEOLConverter.h\<close>, the file of \<^verbatim>\<open>Util.h\<close> and the appender of
  \<^verbatim>\<open>Appenders/RollingFileAppender.h\<close>, as built on Windows, where \<^verbatim>\<open>nchar\<close> is \<^verbatim>\<open>wchar_t\<close>.

  A disk maps file names to contents. Whether a file opens and how much a write puts out are
  parameters, the conversion to UTF-8 and the local time too; \<^verbatim>\<open>MoveFileW\<close> does not replace
  an existing file. A stream operator with \<^verbatim>\<open>setw\<close> pads its text.
\<close>

section \<open>Severities\<close>

datatype Severity = sev_none | sev_fatal | sev_error | sev_warning | sev_info | sev_debug | sev_verbose

primrec severity_code :: "Severity \<Rightarrow> nat" where
  "severity_code sev_none = 0"
| "severity_code sev_fatal = 1"
| "severity_code sev_error = 2"
| "severity_code sev_warning = 3"
| "severity_code sev_info = 4"
| "severity_code sev_debug = 5"
| "severity_code sev_verbose = 6"

primrec severityToString :: "Severity \<Rightarrow> string" where
  "severityToString sev_fatal = ''FATAL''"
| "severityToString sev_error = ''ERROR''"
| "severityToString sev_warning = ''WARN''"
| "severityToString sev_info = ''INFO''"
| "severityToString sev_debug = ''DEBUG''"
| "severityToString sev_verbose = ''VERB''"
| "severityToString sev_none = ''NONE''"

definition severityFromString :: "string \<Rightarrow> Severity" where
  "severityFromString str =
     (case c_str str of
        [] \<Rightarrow> sev_none
      | c # _ \<Rightarrow>
          if c_tolower c = CHR ''f'' then sev_fatal
          else if c_tolower c = CHR ''e'' then sev_error
          else if c_tolower c = CHR ''w'' then sev_warning
          else if c_tolower c = CHR ''i'' then sev_info
          else if c_tolower c = CHR ''d'' then sev_debug
          else if c_tolower c = CHR ''v'' then sev_verbose
          else sev_none)"

section \<open>Text\<close>

type_synonym nstring = "uint16 list"

definition wide :: "string \<Rightarrow> nstring" where
  "wide s = map (\<lambda>c. of_nat (of_char c)) s"

record Tm =
  tm_year :: nat
  tm_mon :: nat
  tm_mday :: nat
  tm_hour :: nat
  tm_min :: nat
  tm_sec :: nat

record LogRecord =
  lr_time :: int
  lr_millitm :: nat
  lr_severity :: Severity
  lr_tid :: nat
  lr_func :: string
  lr_line :: nat
  lr_message :: nstring

definition pad_right :: "nat \<Rightarrow> char \<Rightarrow> string \<Rightarrow> string" where
  "pad_right n c s = replicate (n - length s) c @ s"

definition pad_left :: "nat \<Rightarrow> char \<Rightarrow> string \<Rightarrow> string" where
  "pad_left n c s = s @ replicate (n - length s) c"

definition TxtFormatter_format :: "(int \<Rightarrow> Tm) \<Rightarrow> LogRecord \<Rightarrow> nstring" where
  "TxtFormatter_format localtime record =
     (let t = localtime (lr_time record); two = pad_right 2 CHR ''0''
      in wide (dec (tm_year t + 1900) @ ''-'' @ two (dec (tm_mon t + 1)) @ ''-'' @ two (dec (tm_mday t)) @ '' '')
         @ wide (two (dec (tm_hour t)) @ '':'' @ two (dec (tm_min t)) @ '':'' @ two (dec (tm_sec t)) @ ''.''
                 @ pad_right 3 CHR ''0'' (dec (lr_millitm record)) @ '' '')
         @ wide (pad_left 5 CHR '' '' (severityToString (lr_severity record)) @ '' '')
         @ wide (''['' @ dec (lr_tid record) @ ''] '')
         @ wide (''['' @ lr_func record @ ''@'' @ dec (lr_line record) @ ''] '')
         @ takeWhile (\<lambda>c. c \<noteq> 0) (lr_message record) @ wide [newline])"

text \<open>\<^verbatim>\<open>MyLogger::MyLog\<close>, which nothing calls, has a format of its own.\<close>

definition MyLogger_MyLog :: "Tm \<Rightarrow> nat \<Rightarrow> string \<Rightarrow> string" where
  "MyLogger_MyLog t milliseconds strMsg =
     (let two = pad_right 2 CHR ''0''
      in ''['' @ dec (tm_year t + 1900) @ ''-'' @ two (dec (tm_mon t + 1)) @ ''-'' @ two (dec (tm_mday t)) @ '' ''
         @ two (dec (tm_hour t)) @ '':'' @ two (dec (tm_min t)) @ '':'' @ two (dec (tm_sec t)) @ ''.''
         @ pad_right 3 CHR ''0'' (dec milliseconds) @ '']'' @ ''#'' @ ''#'' @ strMsg @ [newline])"

definition TxtFormatter_header :: nstring where
  "TxtFormatter_header = []"

fun fixLineEndings :: "nstring \<Rightarrow> nstring" where
  "fixLineEndings [] = []"
| "fixLineEndings (ch # str) = (if ch = 0x0A then 0x0D # ch # fixLineEndings str else ch # fixLineEndings str)"

definition toNarrow :: "(nstring \<Rightarrow> byte list option) \<Rightarrow> nstring \<Rightarrow> byte list" where
  "toNarrow wide_to_utf8 wstr = (case wide_to_utf8 wstr of None \<Rightarrow> [] | Some str \<Rightarrow> str)"

definition Converter_convert :: "(nstring \<Rightarrow> byte list option) \<Rightarrow> nstring \<Rightarrow> byte list" where
  "Converter_convert wide_to_utf8 str = toNarrow wide_to_utf8 (fixLineEndings str)"

definition Converter_header :: "(nstring \<Rightarrow> byte list option) \<Rightarrow> nstring \<Rightarrow> byte list" where
  "Converter_header wide_to_utf8 str = [0xEF, 0xBB, 0xBF] @ Converter_convert wide_to_utf8 str"

section \<open>Files\<close>

type_synonym disk = "nstring \<Rightarrow> byte list option"

text \<open>What the operating system does: opens a file or not, and writes so many of \<open>n\<close> bytes.\<close>

record log_os =
  os_open :: "nstring \<Rightarrow> bool"
  os_write :: "nat \<Rightarrow> nat option"
  os_utf8 :: "nstring \<Rightarrow> byte list option"
  os_localtime :: "int \<Rightarrow> Tm"

text \<open>\<open>File::m_file\<close>: the open file and the position in it.\<close>

type_synonym log_file = "(nstring \<times> nat) option"

abbreviation io_error :: uint64 where
  "io_error \<equiv> - 1"

definition File_open :: "log_os \<Rightarrow> nstring \<Rightarrow> disk \<Rightarrow> uint64 \<times> log_file \<times> disk" where
  "File_open os name d =
     (if os_open os name
      then case d name of
             None \<Rightarrow> (0, Some (name, 0), d(name \<mapsto> []))
           | Some old \<Rightarrow> (of_nat (length old), Some (name, length old), d)
      else (io_error, None, d))"

definition File_write :: "log_os \<Rightarrow> byte list \<Rightarrow> log_file \<Rightarrow> disk \<Rightarrow> uint64 \<times> log_file \<times> disk" where
  "File_write os buf f d =
     (case f of
        None \<Rightarrow> (io_error, f, d)
      | Some (name, pos) \<Rightarrow>
          (case os_write os (length buf mod 4294967296) of
             None \<Rightarrow> (io_error, f, d)
           | Some n \<Rightarrow>
               (of_nat n, Some (name, pos + n),
                d(name := map_option (\<lambda>old. overwrite old pos (take n buf)) (d name)))))"

definition File_unlink :: "nstring \<Rightarrow> disk \<Rightarrow> disk" where
  "File_unlink name d = d(name := None)"

definition File_rename :: "nstring \<Rightarrow> nstring \<Rightarrow> disk \<Rightarrow> disk" where
  "File_rename old new d =
     (if d old \<noteq> None \<and> d new = None then d(new := d old, old := None) else d)"

definition splitFileName :: "nstring \<Rightarrow> nstring \<times> nstring" where
  "splitFileName name =
     (if 0x2E \<in> set name
      then (rev (tl (dropWhile (\<lambda>c. c \<noteq> 0x2E) (rev name))), rev (takeWhile (\<lambda>c. c \<noteq> 0x2E) (rev name)))
      else (name, []))"

section \<open>The rolling file\<close>

record RollingFileAppender =
  m_File :: log_file
  m_fileSize :: uint64
  m_maxFileSize :: uint64
  m_maxFiles :: int
  m_fileExt :: nstring
  m_fileNameNoExt :: nstring
  m_firstWrite :: bool

definition setFileName :: "nstring \<Rightarrow> RollingFileAppender \<Rightarrow> RollingFileAppender" where
  "setFileName fileName a =
     (let (noext, ext) = splitFileName fileName
      in a\<lparr>m_fileNameNoExt := noext, m_fileExt := ext, m_File := None, m_firstWrite := True\<rparr>)"

definition setMaxFileSize :: "uint64 \<Rightarrow> RollingFileAppender \<Rightarrow> RollingFileAppender" where
  "setMaxFileSize maxFileSize a = a\<lparr>m_maxFileSize := max maxFileSize 1000\<rparr>"

definition setMaxFiles :: "int \<Rightarrow> RollingFileAppender \<Rightarrow> RollingFileAppender" where
  "setMaxFiles maxFiles a = a\<lparr>m_maxFiles := maxFiles\<rparr>"

definition RollingFileAppender_new :: "nstring \<Rightarrow> uint64 \<Rightarrow> int \<Rightarrow> RollingFileAppender" where
  "RollingFileAppender_new fileName maxFileSize maxFiles =
     setMaxFileSize maxFileSize (setFileName fileName
       \<lparr>m_File = None, m_fileSize = 0, m_maxFileSize = 0, m_maxFiles = maxFiles,
        m_fileExt = [], m_fileNameNoExt = [], m_firstWrite = True\<rparr>)"

definition buildFileName :: "RollingFileAppender \<Rightarrow> int \<Rightarrow> nstring" where
  "buildFileName a fileNumber =
     m_fileNameNoExt a
     @ (if 0 < fileNumber then wide (''.'' @ dec (nat fileNumber)) else [])
     @ (if m_fileExt a \<noteq> [] then wide ''.'' @ m_fileExt a else [])"

definition count_written :: "uint64 \<Rightarrow> RollingFileAppender \<Rightarrow> RollingFileAppender" where
  "count_written n a = (if io_error \<noteq> n then a\<lparr>m_fileSize := m_fileSize a + n\<rparr> else a)"

definition openLogFile :: "log_os \<Rightarrow> RollingFileAppender \<times> disk \<Rightarrow> RollingFileAppender \<times> disk" where
  "openLogFile os s =
     (let (a, d) = s;
          (len, f, d1) = File_open os (buildFileName a 0) d;
          a1 = a\<lparr>m_fileSize := len, m_File := f\<rparr>
      in if m_fileSize a1 = 0
         then let (n, f', d2) = File_write os (Converter_header (os_utf8 os) TxtFormatter_header) f d1
              in (count_written n (a1\<lparr>m_File := f'\<rparr>), d2)
         else (a1, d1))"

text \<open>\<open>rename_from a k\<close>: the loop for the numbers \<open>k - 1, \<dots>, 0\<close>.\<close>

fun rename_from :: "RollingFileAppender \<Rightarrow> nat \<Rightarrow> disk \<Rightarrow> disk" where
  "rename_from a 0 d = d"
| "rename_from a (Suc k) d = rename_from a k (File_rename (buildFileName a (int k)) (buildFileName a (int k + 1)) d)"

definition rollLogFiles :: "log_os \<Rightarrow> RollingFileAppender \<times> disk \<Rightarrow> RollingFileAppender \<times> disk" where
  "rollLogFiles os s =
     (let (a, d) = s;
          a1 = a\<lparr>m_File := None\<rparr>;
          d1 = File_unlink (buildFileName a1 (m_maxFiles a1 - 1)) d;
          d2 = rename_from a1 (nat (m_maxFiles a1 - 1)) d1;
          (a2, d3) = openLogFile os (a1, d2)
      in (a2\<lparr>m_firstWrite := False\<rparr>, d3))"

definition write_bytes :: "log_os \<Rightarrow> byte list \<Rightarrow> RollingFileAppender \<times> disk \<Rightarrow> RollingFileAppender \<times> disk" where
  "write_bytes os buf s =
     (let (a, d) = s; (n, f, d') = File_write os buf (m_File a) d
      in (count_written n (a\<lparr>m_File := f\<rparr>), d'))"

definition render :: "log_os \<Rightarrow> LogRecord \<Rightarrow> byte list" where
  "render os record = Converter_convert (os_utf8 os) (TxtFormatter_format (os_localtime os) record)"

definition RollingFileAppender_write ::
    "log_os \<Rightarrow> LogRecord \<Rightarrow> RollingFileAppender \<times> disk \<Rightarrow> RollingFileAppender \<times> disk" where
  "RollingFileAppender_write os record s =
     (let a = fst s;
          s1 = (if m_firstWrite a
                then let (a', d') = openLogFile os s in (a'\<lparr>m_firstWrite := False\<rparr>, d')
                else if 0 < m_maxFiles a \<and> m_maxFileSize a < m_fileSize a \<and> io_error \<noteq> m_fileSize a
                then rollLogFiles os s
                else s)
      in write_bytes os (render os record) s1)"

section \<open>The logger\<close>

text \<open>
  \<open>'s\<close> is the state behind all appenders, and an appender is its \<^verbatim>\<open>write\<close> on it. \<open>None\<close> is
  the logger before \<^verbatim>\<open>plog::init\<close>, when \<^verbatim>\<open>getInstance\<close> returns the null pointer.
\<close>

record 's Logger =
  m_maxSeverity :: Severity
  m_appenders :: "(LogRecord \<Rightarrow> 's \<Rightarrow> 's) list"

definition Logger_addAppender :: "(LogRecord \<Rightarrow> 's \<Rightarrow> 's) \<Rightarrow> 's Logger \<Rightarrow> 's Logger" where
  "Logger_addAppender w l = l\<lparr>m_appenders := m_appenders l @ [w]\<rparr>"

definition checkSeverity :: "'s Logger \<Rightarrow> Severity \<Rightarrow> bool" where
  "checkSeverity l s \<longleftrightarrow> severity_code s \<le> severity_code (m_maxSeverity l)"

definition Logger_append :: "'s Logger \<Rightarrow> LogRecord \<Rightarrow> 's \<Rightarrow> 's" where
  "Logger_append l record s = fold (\<lambda>w. w record) (m_appenders l) s"

definition Logger_write :: "'s Logger \<Rightarrow> LogRecord \<Rightarrow> 's \<Rightarrow> 's" where
  "Logger_write l record s = (if checkSeverity l (lr_severity record) then Logger_append l record s else s)"

definition plog_init :: "Severity \<Rightarrow> (LogRecord \<Rightarrow> 's \<Rightarrow> 's) option \<Rightarrow> 's Logger" where
  "plog_init maxSeverity appender =
     (let logger = \<lparr>m_maxSeverity = maxSeverity, m_appenders = []\<rparr>
      in case appender of None \<Rightarrow> logger | Some w \<Rightarrow> Logger_addAppender w logger)"

text \<open>The logging macros: \<^verbatim>\<open>IF_PLOG(severity) (*plog::get()) += record\<close>.\<close>

definition PLOG :: "'s Logger option \<Rightarrow> LogRecord \<Rightarrow> 's \<Rightarrow> 's" where
  "PLOG logger record s =
     (case logger of
        None \<Rightarrow> s
      | Some l \<Rightarrow> if \<not> checkSeverity l (lr_severity record) then s else Logger_append l record s)"

end
