(* ===== verification/Log_Rolling.thy ===== *)
theory Log_Rolling
  imports Log_File
begin

text \<open>
  What the log files hold. The abstract log is a list of segments, the newest first, each
  the records of one file; a write adds to the newest segment, or, when that has outgrown
  the limit, starts a new one and drops the oldest. The files of the appender show exactly
  the segments, and the segments are the most recent records.
\<close>

section \<open>File names\<close>

definition log_name :: "RollingFileAppender \<Rightarrow> nat \<Rightarrow> nstring" where
  "log_name a i = buildFileName a (int i)"

lemma dec_inj: "dec m = dec n \<longleftrightarrow> m = n"
  by (metis dec_value)

lemma wide_inj: "wide s = wide t \<longleftrightarrow> s = t"
proof -
  have "inj (\<lambda>c :: char. of_nat (of_char c) :: uint16)"
  proof (rule injI)
    fix c c' :: char
    assume "(of_nat (of_char c) :: uint16) = of_nat (of_char c')"
    then have "unat (of_nat (of_char c) :: uint16) = unat (of_nat (of_char c') :: uint16)" by simp
    moreover have "(of_char x :: nat) < 65536" for x :: char
    proof -
      have "(of_char x :: nat) = of_char x mod 256" by simp
      also have "\<dots> < 256" by (rule mod_less_divisor) simp
      finally show ?thesis by linarith
    qed
    ultimately have "(of_char c :: nat) = of_char c'" by (simp add: unat_of_nat)
    then show "c = c'" by (simp only: of_char_eq_iff)
  qed
  then show ?thesis unfolding wide_def by (rule inj_map_eq_map)
qed

lemma log_name_inj: "log_name a i = log_name a j \<longleftrightarrow> i = j"
proof -
  have "wide (CHR ''.'' # dec k) \<noteq> []" "[] \<noteq> wide (CHR ''.'' # dec k)" for k by (simp_all add: wide_def)
  then show ?thesis
    by (auto simp: log_name_def buildFileName_def wide_inj dec_inj split: if_splits)
qed

lemma log_name_cong:
  "m_fileNameNoExt a' = m_fileNameNoExt a \<Longrightarrow> m_fileExt a' = m_fileExt a \<Longrightarrow> log_name a' = log_name a"
  by (simp add: fun_eq_iff log_name_def buildFileName_def)

lemma rename_from_Suc:
  "rename_from a (Suc k) d = rename_from a k (File_rename (log_name a k) (log_name a (Suc k)) d)"
  by (simp add: log_name_def add.commute)

section \<open>Rolling\<close>

lemma rename_from_shift:
  assumes "d (log_name a k) = None"
  shows "(\<forall>i < k. rename_from a k d (log_name a (Suc i)) = d (log_name a i))
    \<and> rename_from a k d (log_name a 0) = None
    \<and> (\<forall>i. k < i \<longrightarrow> rename_from a k d (log_name a i) = d (log_name a i))
    \<and> (\<forall>name. name \<notin> range (log_name a) \<longrightarrow> rename_from a k d name = d name)"
  using assms
proof (induction k arbitrary: d)
  case 0
  then show ?case by simp
next
  case (Suc k)
  let ?d = "File_rename (log_name a k) (log_name a (Suc k)) d"
  have d: "?d (log_name a k) = None" "?d (log_name a (Suc k)) = d (log_name a k)"
    "\<And>i. i \<noteq> k \<Longrightarrow> i \<noteq> Suc k \<Longrightarrow> ?d (log_name a i) = d (log_name a i)"
    "\<And>name. name \<notin> range (log_name a) \<Longrightarrow> ?d name = d name"
    using Suc.prems by (auto simp: File_rename_def log_name_inj)
  show ?case
    unfolding rename_from_Suc using Suc.IH [of ?d, OF d(1)] d(2-4) by (auto simp: less_Suc_eq)
qed

section \<open>The abstract log\<close>

text \<open>An operating system that opens and writes everything, and converts nothing to nothing.\<close>

definition os_ok :: "log_os \<Rightarrow> bool" where
  "os_ok os \<longleftrightarrow> (\<forall>name. os_open os name) \<and> (\<forall>n. os_write os n = Some n) \<and> toNarrow (os_utf8 os) [] = []"

definition BOM :: "byte list" where
  "BOM = [0xEF, 0xBB, 0xBF]"

definition file_of :: "byte list list \<Rightarrow> byte list" where
  "file_of seg = BOM @ concat seg"

definition seg_write :: "nat \<Rightarrow> nat \<Rightarrow> byte list \<Rightarrow> byte list list list \<Rightarrow> byte list list list" where
  "seg_write N limit b segs =
     (case segs of
        [] \<Rightarrow> [[b]]
      | seg # older \<Rightarrow>
          if 0 < N \<and> limit < length (file_of seg) then take N ([b] # segs) else (seg @ [b]) # older)"

text \<open>Nothing is lost but from the oldest end, and only when there are as many segments as files.\<close>

lemma seg_write_recent:
  assumes "bs = old @ concat (rev segs)" "length segs < N \<or> N = 0 \<longrightarrow> old = []" "segs \<noteq> [] \<or> bs = []"
  shows "\<exists>old'. bs @ [b] = old' @ concat (rev (seg_write N limit b segs))
    \<and> (length (seg_write N limit b segs) < N \<or> N = 0 \<longrightarrow> old' = [])"
proof (cases segs)
  case Nil
  then show ?thesis using assms by (intro exI [of _ "[]"]) (simp add: seg_write_def)
next
  case (Cons seg older)
  show ?thesis
  proof (cases "0 < N \<and> limit < length (file_of seg)")
    case True
    let ?new = "[b] # segs"
    have "concat (rev ?new) = concat (rev (drop N ?new)) @ concat (rev (take N ?new))"
      by (metis append_take_drop_id concat_append rev_append)
    then have "bs @ [b] = (old @ concat (rev (drop N ?new))) @ concat (rev (take N ?new))"
      using assms(1) by simp
    moreover have "seg_write N limit b segs = take N ?new" using True Cons by (simp add: seg_write_def)
    ultimately show ?thesis
      using assms(2) True by (intro exI [of _ "old @ concat (rev (drop N ?new))"]) auto
  next
    case False
    then have "seg_write N limit b segs = (seg @ [b]) # older" using Cons by (auto simp: seg_write_def)
    then show ?thesis using assms Cons by (intro exI [of _ old]) auto
  qed
qed

section \<open>The files show the abstract log\<close>

lemma File_write_ok:
  "os_ok os \<Longrightarrow> d name = Some old \<Longrightarrow> length b < 4294967296 \<Longrightarrow>
   File_write os b (Some (name, length old)) d
     = (of_nat (length b), Some (name, length old + length b), d(name \<mapsto> old @ b))"
  by (simp add: File_write_def os_ok_def overwrite_def)

lemma header_bytes: "os_ok os \<Longrightarrow> Converter_header (os_utf8 os) TxtFormatter_header = BOM"
  by (simp add: Converter_header_def Converter_convert_def TxtFormatter_header_def os_ok_def BOM_def)

lemma small_not_error: "n < 4294967296 \<Longrightarrow> (of_nat n :: uint64) \<noteq> io_error"
proof
  assume n: "n < 4294967296" "(of_nat n :: uint64) = io_error"
  then have "(of_nat (Suc n) :: uint64) = 0" by simp
  then have "2 ^ 64 dvd Suc n" by (simp only: word_of_nat_eq_0_iff) simp
  then show False using n(1) dvd_imp_le [of "2 ^ 64" "Suc n"] by simp
qed

lemma openLogFile_new:
  assumes "os_ok os" "d (log_name a 0) = None"
  shows "openLogFile os (a, d) =
    (a\<lparr>m_fileSize := 3, m_File := Some (log_name a 0, 3)\<rparr>, d(log_name a 0 \<mapsto> BOM))"
proof -
  have name: "buildFileName a 0 = log_name a 0" by (simp add: log_name_def)
  have "File_open os (log_name a 0) d = (0, Some (log_name a 0, 0), d(log_name a 0 \<mapsto> []))"
    using assms by (simp add: File_open_def os_ok_def)
  moreover have "File_write os BOM (Some (log_name a 0, 0)) (d(log_name a 0 \<mapsto> []))
      = (3, Some (log_name a 0, 3), d(log_name a 0 \<mapsto> BOM))"
    using File_write_ok [OF assms(1), of "d(log_name a 0 \<mapsto> [])" "log_name a 0" "[]" BOM] by (simp add: BOM_def)
  moreover have "count_written 3 (a\<lparr>m_fileSize := 0, m_File := f\<rparr>) = a\<lparr>m_fileSize := 3, m_File := f\<rparr>"
    "count_written 3 (a\<lparr>m_fileSize := 0, m_File := f', m_File := f\<rparr>) = a\<lparr>m_fileSize := 3, m_File := f\<rparr>" for f f'
    using small_not_error [of 3] by (simp_all add: count_written_def)
  ultimately show ?thesis
    using header_bytes [OF assms(1)] by (simp add: openLogFile_def Let_def name)
qed

definition shows_files :: "RollingFileAppender \<Rightarrow> disk \<Rightarrow> nat \<Rightarrow> byte list list list \<Rightarrow> bool" where
  "shows_files a d N segs \<longleftrightarrow>
     (\<forall>i < length segs. d (log_name a i) = Some (file_of (segs ! i)))
     \<and> (\<forall>i < N. length segs \<le> i \<longrightarrow> d (log_name a i) = None)"

definition log_inv :: "nat \<Rightarrow> nat \<Rightarrow> RollingFileAppender \<Rightarrow> disk \<Rightarrow> byte list list list \<Rightarrow> bool" where
  "log_inv N limit a d segs \<longleftrightarrow>
     m_maxFiles a = int N \<and> unat (m_maxFileSize a) = limit \<and> \<not> m_firstWrite a
     \<and> segs \<noteq> [] \<and> length segs \<le> max 1 N \<and> shows_files a d N segs
     \<and> m_File a = Some (log_name a 0, length (file_of (hd segs)))
     \<and> m_fileSize a = of_nat (length (file_of (hd segs)))"

lemma same_names [simp]:
  "log_name (a\<lparr>m_File := f\<rparr>) = log_name a" "log_name (a\<lparr>m_fileSize := n\<rparr>) = log_name a"
  "log_name (a\<lparr>m_firstWrite := w\<rparr>) = log_name a" "log_name (count_written n a) = log_name a"
  by (auto simp: count_written_def intro!: log_name_cong)

lemma length_file_of: "length (file_of seg) = 3 + length (concat seg)"
  by (simp add: file_of_def BOM_def)

lemma file_of_snoc: "file_of (seg @ [b]) = file_of seg @ b"
  by (simp add: file_of_def)

text \<open>Writing to the newest file.\<close>

lemma write_newest:
  assumes "os_ok os" "log_inv N limit a d (seg # older)" "length b < 4294967296"
  shows "\<exists>a' d'. write_bytes os b (a, d) = (a', d') \<and> log_inv N limit a' d' ((seg @ [b]) # older)
    \<and> log_name a' = log_name a \<and> (\<forall>name. name \<notin> range (log_name a) \<longrightarrow> d' name = d name)"
proof -
  let ?n = "log_name a 0" and ?c = "file_of seg"
  have inv: "m_File a = Some (?n, length ?c)" "m_fileSize a = of_nat (length ?c)" "d ?n = Some ?c"
    using assms(2) by (auto simp: log_inv_def shows_files_def)
  have w: "write_bytes os b (a, d)
      = (count_written (of_nat (length b)) (a\<lparr>m_File := Some (?n, length ?c + length b)\<rparr>), d(?n \<mapsto> ?c @ b))"
    using File_write_ok [of os d ?n ?c b, OF assms(1) inv(3) assms(3)] inv(1) by (simp add: write_bytes_def)
  show ?thesis
    unfolding w using assms(2) inv small_not_error [OF assms(3)]
    by (auto simp: log_inv_def shows_files_def count_written_def file_of_snoc log_name_inj nth_Cons' split: if_splits)
qed

text \<open>Rolling starts a segment and drops the oldest one when there is no file left for it.\<close>

lemma roll_files:
  assumes "os_ok os" "log_inv N limit a d segs" "0 < N"
  shows "\<exists>a' d'. rollLogFiles os (a, d) = (a', d') \<and> log_inv N limit a' d' ([] # take (N - 1) segs)
    \<and> log_name a' = log_name a \<and> (\<forall>name. name \<notin> range (log_name a) \<longrightarrow> d' name = d name)"
proof -
  let ?n = "log_name a" and ?a = "a\<lparr>m_File := None\<rparr>"
  have inv: "m_maxFiles a = int N" "unat (m_maxFileSize a) = limit" "length segs \<le> N" "shows_files a d N segs"
    using assms(2,3) by (auto simp: log_inv_def)
  let ?d1 = "File_unlink (?n (N - 1)) d"
  let ?d2 = "rename_from ?a (N - 1) ?d1"
  have d1: "?d1 (log_name ?a (N - 1)) = None" by (simp add: File_unlink_def)
  have d2: "?d2 (?n (Suc i)) = d (?n i)" if "i < N - 1" for i
    using rename_from_shift [of ?d1 ?a "N - 1", OF d1] that by (simp add: File_unlink_def log_name_inj)
  have d2_0: "?d2 (?n 0) = None"
    using rename_from_shift [of ?d1 ?a "N - 1", OF d1] by simp
  have d2_other: "?d2 name = d name" if "name \<notin> range ?n" for name
    using rename_from_shift [of ?d1 ?a "N - 1", OF d1] that by (auto simp: File_unlink_def)
  have names: "buildFileName ?a (m_maxFiles a - 1) = ?n (N - 1)" "nat (m_maxFiles a - 1) = N - 1"
    using inv(1) assms(3) by (simp_all add: log_name_def buildFileName_def of_nat_diff nat_diff_distrib)
  let ?d3 = "?d2(?n 0 \<mapsto> BOM)"
  let ?a2 = "?a\<lparr>m_fileSize := 3, m_File := Some (?n 0, 3), m_firstWrite := False\<rparr>"
  have roll: "rollLogFiles os (a, d) = (?a2, ?d3)"
    using openLogFile_new [OF assms(1), of ?d2 ?a] d2_0 by (simp add: rollLogFiles_def Let_def names del: rename_from.simps)
  have new: "?d3 (?n i) = (if i = 0 then Some BOM else d (?n (i - 1)))" if "i < N" for i
    using that d2 [of "i - 1"] by (auto simp: log_name_inj)
  have "shows_files ?a2 ?d3 N ([] # take (N - 1) segs)"
    unfolding shows_files_def
  proof (intro conjI allI impI)
    fix i assume "i < length ([] # take (N - 1) segs)"
    then show "?d3 (log_name ?a2 i) = Some (file_of (([] # take (N - 1) segs) ! i))"
      using new [of i] inv(3,4) assms(3) by (cases i) (auto simp: shows_files_def file_of_def)
  next
    fix i assume "i < N" "length ([] # take (N - 1) segs) \<le> i"
    then show "?d3 (log_name ?a2 i) = None"
      using new [of i] inv(3,4) assms(3) by (cases i) (auto simp: shows_files_def)
  qed
  then have "log_inv N limit ?a2 ?d3 ([] # take (N - 1) segs)"
    using inv assms(3) by (auto simp: log_inv_def file_of_def BOM_def)
  then show ?thesis
    unfolding roll using d2_other by auto
qed

lemma first_open:
  assumes "os_ok os" "m_maxFiles a = int N" "\<forall>i < max 1 N. d (log_name a i) = None"
  shows "\<exists>a' d'. openLogFile os (a, d) = (a', d')
    \<and> log_inv N (unat (m_maxFileSize a)) (a'\<lparr>m_firstWrite := False\<rparr>) d' [[]]
    \<and> log_name a' = log_name a \<and> (\<forall>name. name \<notin> range (log_name a) \<longrightarrow> d' name = d name)"
proof -
  have "d (log_name a 0) = None" using assms(3) by simp
  from openLogFile_new [of os d a, OF assms(1) this] show ?thesis
    using assms(2,3) by (auto simp: log_inv_def shows_files_def file_of_def BOM_def log_name_inj)
qed

text \<open>With rolling on, no file grows past the limit by more than one record.\<close>

definition sizes_ok :: "nat \<Rightarrow> nat \<Rightarrow> byte list list list \<Rightarrow> bool" where
  "sizes_ok N bound segs \<longleftrightarrow> (0 < N \<longrightarrow> list_all (\<lambda>s. length (file_of s) \<le> bound) segs)"

text \<open>One write of the appender is one write of the abstract log.\<close>

lemma appender_write:
  assumes "os_ok os" "log_inv N limit a d segs" "length (render os r) \<le> most" "most < 4294967296"
    and "limit + most < 9223372036854775808" "sizes_ok N (limit + most) segs" "3 \<le> limit"
  shows "\<exists>a' d'. RollingFileAppender_write os r (a, d) = (a', d')
    \<and> log_inv N limit a' d' (seg_write N limit (render os r) segs)
    \<and> sizes_ok N (limit + most) (seg_write N limit (render os r) segs)
    \<and> log_name a' = log_name a \<and> (\<forall>name. name \<notin> range (log_name a) \<longrightarrow> d' name = d name)"
proof -
  let ?b = "render os r"
  obtain seg older where segs: "segs = seg # older"
    using assms(2) by (cases segs) (auto simp: log_inv_def)
  let ?c = "length (file_of seg)"
  have b: "length ?b < 4294967296" using assms(3,4) by simp
  have c: "?c \<le> limit + most" if "0 < N" using that assms(6) segs by (simp add: sizes_ok_def)
  have inv: "\<not> m_firstWrite a" "m_fileSize a = of_nat ?c" "unat (m_maxFileSize a) = limit" "m_maxFiles a = int N"
    using assms(2) segs by (simp_all add: log_inv_def)
  have u: "unat (of_nat ?c :: uint64) = ?c" if "0 < N" using c [OF that] assms(5) by (simp add: unat_of_nat)
  have "(of_nat ?c :: uint64) \<noteq> io_error" if "0 < N"
  proof
    assume "(of_nat ?c :: uint64) = io_error"
    then have "(of_nat (Suc ?c) :: uint64) = 0" by simp
    then have "2 ^ 64 dvd Suc ?c" by (simp only: word_of_nat_eq_0_iff) simp
    then show False using c [OF that] assms(5) dvd_imp_le [of "2 ^ 64" "Suc ?c"] by simp
  qed
  then have rolls: "0 < m_maxFiles a \<and> m_maxFileSize a < m_fileSize a \<and> io_error \<noteq> m_fileSize a \<longleftrightarrow> 0 < N \<and> limit < ?c"
    using inv u by (auto simp: word_less_nat_alt)
  show ?thesis
  proof (cases "0 < N \<and> limit < ?c")
    case True
    then obtain a1 d1 where roll: "rollLogFiles os (a, d) = (a1, d1)" "log_inv N limit a1 d1 ([] # take (N - 1) segs)"
      "log_name a1 = log_name a" "\<forall>name. name \<notin> range (log_name a) \<longrightarrow> d1 name = d name"
      using roll_files [OF assms(1,2)] by blast
    obtain a2 d2 where w: "write_bytes os ?b (a1, d1) = (a2, d2)" "log_inv N limit a2 d2 (([] @ [?b]) # take (N - 1) segs)"
      "log_name a2 = log_name a1" "\<forall>name. name \<notin> range (log_name a1) \<longrightarrow> d2 name = d1 name"
      using write_newest [OF assms(1) roll(2) b] by blast
    have "RollingFileAppender_write os r (a, d) = (a2, d2)"
      using True inv(1) rolls roll(1) w(1) by (simp add: RollingFileAppender_write_def Let_def)
    moreover have seg: "seg_write N limit ?b segs = [?b] # take (N - 1) segs"
      using True segs by (cases N) (simp_all add: seg_write_def)
    moreover have "sizes_ok N (limit + most) (seg_write N limit ?b segs)"
      unfolding seg using assms(3,6,7) by (auto simp: sizes_ok_def list_all_iff length_file_of dest: in_set_takeD)
    ultimately show ?thesis using w roll by simp
  next
    case False
    obtain a2 d2 where w: "write_bytes os ?b (a, d) = (a2, d2)" "log_inv N limit a2 d2 ((seg @ [?b]) # older)"
      "log_name a2 = log_name a" "\<forall>name. name \<notin> range (log_name a) \<longrightarrow> d2 name = d name"
      using write_newest [OF assms(1) assms(2)[unfolded segs] b] by blast
    have "RollingFileAppender_write os r (a, d) = (a2, d2)"
      using False inv(1) rolls w(1) by (auto simp: RollingFileAppender_write_def Let_def)
    moreover have seg: "seg_write N limit ?b segs = (seg @ [?b]) # older"
      using False segs by (auto simp: seg_write_def)
    moreover have "sizes_ok N (limit + most) (seg_write N limit ?b segs)"
      unfolding seg using False assms(3,6) segs by (auto simp: sizes_ok_def length_file_of)
    ultimately show ?thesis using w by simp
  qed
qed

lemma appender_writes:
  assumes "os_ok os" "list_all (\<lambda>r. length (render os r) \<le> most) rs" "most < 4294967296"
    and "limit + most < 9223372036854775808" "3 \<le> limit"
    and "log_inv N limit a d segs" "sizes_ok N (limit + most) segs"
    and "bs = old @ concat (rev segs)" "length segs < N \<or> N = 0 \<longrightarrow> old = []"
  shows "\<exists>a' d' segs' old'. fold (RollingFileAppender_write os) rs (a, d) = (a', d')
    \<and> log_inv N limit a' d' segs' \<and> sizes_ok N (limit + most) segs' \<and> log_name a' = log_name a
    \<and> (\<forall>name. name \<notin> range (log_name a) \<longrightarrow> d' name = d name)
    \<and> bs @ map (render os) rs = old' @ concat (rev segs') \<and> (length segs' < N \<or> N = 0 \<longrightarrow> old' = [])"
  using assms(2,6-9)
proof (induction rs arbitrary: a d segs bs old)
  case Nil
  then show ?case by auto
next
  case (Cons r rs)
  let ?segs = "seg_write N limit (render os r) segs"
  have "length (render os r) \<le> most" using Cons.prems(1) by simp
  then obtain a1 d1 where w: "RollingFileAppender_write os r (a, d) = (a1, d1)" "log_inv N limit a1 d1 ?segs"
    "sizes_ok N (limit + most) ?segs" "log_name a1 = log_name a" "\<forall>name. name \<notin> range (log_name a) \<longrightarrow> d1 name = d name"
    using appender_write [OF assms(1) Cons.prems(2) _ assms(3,4) Cons.prems(3) assms(5)] by blast
  have "segs \<noteq> []" using Cons.prems(2) by (simp add: log_inv_def)
  then obtain old' where old': "bs @ [render os r] = old' @ concat (rev ?segs)" "length ?segs < N \<or> N = 0 \<longrightarrow> old' = []"
    using seg_write_recent [OF Cons.prems(4,5)] by blast
  show ?case
    using Cons.IH [OF _ w(2,3) old'] Cons.prems(1) w(1,4,5) by simp
qed

lemma appender_keeps_recent:
  assumes "os_ok os" "list_all (\<lambda>r. length (render os r) \<le> most) (r # rs)" "most < 4294967296"
    and "maxSize < 4294967296" "a = RollingFileAppender_new path maxSize (int N)"
    and "\<forall>i < max 1 N. d (log_name a i) = None"
  shows "\<exists>a' d' segs old. fold (RollingFileAppender_write os) (r # rs) (a, d) = (a', d')
    \<and> length segs \<le> max 1 N \<and> shows_files a d' N segs
    \<and> map (render os) (r # rs) = old @ concat (rev segs) \<and> (length segs < N \<or> N = 0 \<longrightarrow> old = [])
    \<and> sizes_ok N (max (unat maxSize) 1000 + most) segs
    \<and> (\<forall>name. name \<notin> range (log_name a) \<longrightarrow> d' name = d name)"
proof -
  let ?limit = "unat (m_maxFileSize a)"
  have new: "m_maxFiles a = int N" "m_firstWrite a" "m_maxFileSize a = max maxSize 1000"
    by (simp_all add: assms(5) RollingFileAppender_new_def setMaxFileSize_def setFileName_def split: prod.split)
  then have limit: "?limit = max (unat maxSize) 1000"
    by (auto simp: max_def word_le_nat_alt)
  obtain a1 d1 where o: "openLogFile os (a, d) = (a1, d1)" "log_inv N ?limit (a1\<lparr>m_firstWrite := False\<rparr>) d1 [[]]"
    "log_name a1 = log_name a" "\<forall>name. name \<notin> range (log_name a) \<longrightarrow> d1 name = d name"
    using first_open [OF assms(1) new(1) assms(6)] by blast
  let ?a1 = "a1\<lparr>m_firstWrite := False\<rparr>"
  have n0: "\<not> (0 < m_maxFiles ?a1 \<and> m_maxFileSize ?a1 < m_fileSize ?a1 \<and> io_error \<noteq> m_fileSize ?a1)"
    using o(2) limit by (simp add: log_inv_def word_less_nat_alt length_file_of)
  have first: "RollingFileAppender_write os r (a, d) = RollingFileAppender_write os r (?a1, d1)"
    using new(2) o(1) n0 by (auto simp: RollingFileAppender_write_def Let_def)
  have "unat maxSize < 4294967296" using assms(4) by (simp add: word_less_nat_alt)
  then have bound: "?limit + most < 9223372036854775808" "3 \<le> ?limit" using assms(3) limit by simp_all
  obtain a' d' segs old where run: "fold (RollingFileAppender_write os) (r # rs) (?a1, d1) = (a', d')"
    "log_inv N ?limit a' d' segs" "sizes_ok N (?limit + most) segs" "log_name a' = log_name ?a1"
    "\<forall>name. name \<notin> range (log_name ?a1) \<longrightarrow> d' name = d1 name"
    "[] @ map (render os) (r # rs) = old @ concat (rev segs)" "length segs < N \<or> N = 0 \<longrightarrow> old = []"
  proof -
    have "sizes_ok N (?limit + most) [[]]" using bound(2) by (simp add: sizes_ok_def length_file_of)
    from appender_writes [OF assms(1-3) bound o(2) this, of "[]" "[]"] that show ?thesis by auto
  qed
  have "shows_files a d' N segs" "length segs \<le> max 1 N"
    using run(2,4) o(3) by (simp_all add: log_inv_def shows_files_def)
  then show ?thesis
    using run first o(3,4) limit by (intro exI [of _ a'] exI [of _ d'] exI [of _ segs] exI [of _ old]) simp
qed

section \<open>The logger in front\<close>

lemma PLOG_none [simp]: "PLOG None r s = s"
  by (simp add: PLOG_def)

lemma PLOG_one_appender:
  "fold (PLOG (Some (plog_init maxSeverity (Some w)))) rs s
   = fold w (filter (\<lambda>r. severity_code (lr_severity r) \<le> severity_code maxSeverity) rs) s"
  by (induction rs arbitrary: s)
    (simp_all add: PLOG_def plog_init_def Logger_addAppender_def Logger_append_def checkSeverity_def)

section \<open>Property\<close>

text \<open>
  C21. The log files hold the most recent records. A logger with one rolling file, on a disk
  without its log files and with system calls that succeed, drops the records above its
  severity and writes the others into at most as many files as configured, or into one
  if rolling is off, which is how both programs configure it. Each file is the byte order
  mark and a run of whole records. Read from the oldest file to the newest they are the last
  records, in order; none is lost before all files are in use, or when rolling is off. No
  file outgrows the limit by more than one record, and no other file is touched.
\<close>

theorem log_keeps_recent:
  assumes "os_ok os" "list_all (\<lambda>r. length (render os r) \<le> most) rs" "most < 4294967296"
    and "maxSize < 4294967296" "a = RollingFileAppender_new path maxSize (int N)"
    and "\<forall>i < max 1 N. d (log_name a i) = None"
  shows "\<exists>a' d' segs old.
    fold (PLOG (Some (plog_init maxSeverity (Some (RollingFileAppender_write os))))) rs (a, d) = (a', d')
    \<and> length segs \<le> max 1 N \<and> shows_files a d' N segs
    \<and> map (render os) (filter (\<lambda>r. severity_code (lr_severity r) \<le> severity_code maxSeverity) rs)
      = old @ concat (rev segs)
    \<and> (length segs < N \<or> N = 0 \<longrightarrow> old = []) \<and> sizes_ok N (max (unat maxSize) 1000 + most) segs
    \<and> (\<forall>name. name \<notin> range (log_name a) \<longrightarrow> d' name = d name)"
proof (cases "filter (\<lambda>r. severity_code (lr_severity r) \<le> severity_code maxSeverity) rs")
  case Nil
  then show ?thesis
    using assms(6) by (intro exI [of _ a] exI [of _ d] exI [of _ "[]"]) (simp add: PLOG_one_appender shows_files_def sizes_ok_def)
next
  case (Cons r rs')
  have "list_all (\<lambda>r. length (render os r) \<le> most) (filter (\<lambda>r. severity_code (lr_severity r) \<le> severity_code maxSeverity) rs)"
    using assms(2) by (auto simp: list_all_iff)
  then have "list_all (\<lambda>r. length (render os r) \<le> most) (r # rs')" by (simp only: Cons)
  from appender_keeps_recent [OF assms(1) this assms(3-6)] show ?thesis
    unfolding PLOG_one_appender Cons .
qed

definition ex_os :: log_os where
  "ex_os = \<lparr>os_open = \<lambda>_. True, os_write = Some, os_utf8 = \<lambda>w. Some (map ucast w),
     os_localtime = \<lambda>_. \<lparr>tm_year = 126, tm_mon = 2, tm_mday = 9, tm_hour = 17, tm_min = 5, tm_sec = 0\<rparr>\<rparr>"

definition ex_record :: LogRecord where
  "ex_record = \<lparr>lr_time = 0, lr_millitm = 7, lr_severity = sev_info, lr_tid = 12, lr_func = ''main'', lr_line = 138,
     lr_message = wide ''ready''\<rparr>"

lemma length_fixLineEndings: "length (fixLineEndings s) \<le> 2 * length s"
  by (induction s rule: fixLineEndings.induct) auto

lemma length_ex_records:
  assumes "r = ex_record \<or> r = ex_record\<lparr>lr_severity := sev_verbose\<rparr>"
  shows "length (render ex_os r) \<le> 200"
proof -
  have d: "length (dec 2026) = 4" "length (dec 138) = 3" "length (dec 12) = 2" "length (dec 17) = 2"
    "length (dec 9) = 1" "length (dec 3) = 1" "length (dec 5) = 1" "length (dec 0) = 1" "length (dec 7) = 1"
    by (simp_all add: dec.simps [of 2026] dec.simps [of 202] dec.simps [of 20] dec.simps [of 2] dec.simps [of 138]
        dec.simps [of 13] dec.simps [of "Suc 0"] dec.simps [of 12] dec.simps [of 17] dec.simps [of 9] dec.simps [of 3]
        dec.simps [of 5] dec.simps [of 0] dec.simps [of 7])
  let ?txt = "TxtFormatter_format (os_localtime ex_os) r"
  have "length (takeWhile (\<lambda>c. c \<noteq> 0) (wide ''ready'')) \<le> 5"
    using length_takeWhile_le [of "\<lambda>c. c \<noteq> 0" "wide ''ready''"] by (simp add: wide_def)
  then have "length ?txt \<le> 100"
    using assms d by (auto simp: TxtFormatter_format_def Let_def ex_os_def ex_record_def wide_def pad_right_def pad_left_def)
  then show ?thesis
    using length_fixLineEndings [of ?txt] by (simp add: render_def Converter_convert_def toNarrow_def ex_os_def)
qed

lemmas length_ex_record = length_ex_records [OF disjI1 [OF refl]]
lemmas length_ex_verbose = length_ex_records [OF disjI2 [OF refl]]

theorem log_keeps_recent_witness:
  "\<exists>a' d' segs. fold (PLOG (Some (plog_init sev_debug (Some (RollingFileAppender_write ex_os)))))
        [ex_record, ex_record\<lparr>lr_severity := sev_verbose\<rparr>, ex_record]
      (RollingFileAppender_new (wide ''server.log'') 0 (int 0), Map.empty) = (a', d')
    \<and> length segs \<le> 1 \<and> map (render ex_os) [ex_record, ex_record] = concat (rev segs)"
proof -
  let ?rs = "[ex_record, ex_record\<lparr>lr_severity := sev_verbose\<rparr>, ex_record]"
  let ?log = "PLOG (Some (plog_init sev_debug (Some (RollingFileAppender_write ex_os))))"
  have os: "os_ok ex_os" by (simp add: os_ok_def ex_os_def toNarrow_def)
  have len: "list_all (\<lambda>r. length (render ex_os r) \<le> 200) ?rs"
    using length_ex_record length_ex_verbose by simp
  let ?a = "RollingFileAppender_new (wide ''server.log'') 0 (int 0)"
  have n: "\<forall>i < max 1 0. Map.empty (log_name ?a i) = None" by simp
  have bounds: "(200 :: nat) < 4294967296" "(0 :: uint64) < 4294967296" by simp_all
  obtain a' d' segs old where
    "fold ?log ?rs (?a, Map.empty) = (a', d')" "length segs \<le> max 1 0"
    "map (render ex_os) (filter (\<lambda>r. severity_code (lr_severity r) \<le> severity_code sev_debug) ?rs) = old @ concat (rev segs)"
    "length segs < 0 \<or> (0 :: nat) = 0 \<longrightarrow> old = []"
    using log_keeps_recent [OF os len bounds refl n] by blast
  then show ?thesis by (auto simp: ex_record_def)
qed

end
