(* ===== verification/Program_Config.thy ===== *)
theory Program_Config
  imports Ini_Numbers Log_Rolling Game_Session Client_Life
begin

text \<open>
  How the two programs read their configuration: \<^verbatim>\<open>main\<close> of \<^verbatim>\<open>GameServer.cpp\<close> and
  \<^verbatim>\<open>WinMain\<close> of \<^verbatim>\<open>Client.cpp\<close> construct an \<^verbatim>\<open>INIReader\<close> on \<^verbatim>\<open>ServerConfig.ini\<close> and
  \<^verbatim>\<open>ClientConfig.ini\<close>, log a failure to open it, and look up their settings with defaults.
  The file system is a parameter. The port of the server stays a string until \<^verbatim>\<open>stoi\<close> reads
  it in the constructor of the acceptor, which is where \<open>cfg_Port\<close> comes from.

  The lemmas: a setting of a printed file is the one that was printed, or the default.
\<close>

section \<open>The settings\<close>

record ServerSettings = ServerConfig +
  cfg_Address :: string
  cfg_ThreadCnt :: int
  cfg_IsConsoleLog :: int

definition ServerSettings_read :: "INIReader \<Rightarrow> ServerSettings" where
  "ServerSettings_read reader =
     \<lparr>cfg_Port = c_stoi (INIReader_Get reader ''server'' ''Port'' ''7777''),
      cfg_PacketPoolSize = GetInteger reader ''server'' ''PacketPoolSize'' 10000,
      cfg_SessionPoolSize = GetInteger reader ''server'' ''SessionPoolSize'' 10000,
      cfg_Address = INIReader_Get reader ''server'' ''Address'' ''127.0.0.1'',
      cfg_ThreadCnt = GetInteger reader ''server'' ''ThreadCnt'' 4,
      cfg_IsConsoleLog = GetInteger reader ''server'' ''IsConsoleLog'' 1\<rparr>"

record ClientSettings = ClientConfig +
  ccfg_Port :: string
  ccfg_Address :: string

definition ClientSettings_read :: "INIReader \<Rightarrow> ClientSettings" where
  "ClientSettings_read reader =
     \<lparr>ccfg_threadCnt = GetInteger reader ''client'' ''threadCnt'' 10,
      ccfg_maxSessionCnt = GetInteger reader ''client'' ''maxSessionCnt'' 10,
      ccfg_PacketPoolSize = GetInteger reader ''client'' ''PacketPoolSize'' 10000,
      ccfg_IsStressTest = GetInteger reader ''client'' ''IsStressTest'' 0,
      ccfg_Port = INIReader_Get reader ''client'' ''Port'' ''7777'',
      ccfg_Address = INIReader_Get reader ''client'' ''Address'' ''127.0.0.1''\<rparr>"

text \<open>Start-up from the file. \<open>None\<close> would be a parser that does not return.\<close>

definition GameServer_start ::
    "(string \<Rightarrow> string option) \<Rightarrow> string \<Rightarrow> nat \<Rightarrow> (nat \<Rightarrow> int) \<Rightarrow> bool \<Rightarrow> listen_errors \<Rightarrow> (bool \<times> Game) run" where
  "GameServer_start fs ConfigPath hw mem listens ec =
     (case INIReader_file fs ConfigPath of
        None \<Rightarrow> None
      | Some reader \<Rightarrow> Some (GameServer_main hw mem listens ec (ServerConfig.truncate (ServerSettings_read reader))))"

definition Client_start :: "(string \<Rightarrow> string option) \<Rightarrow> string \<Rightarrow> nat \<Rightarrow> ClientApp run" where
  "Client_start fs ConfigPath hw =
     (case INIReader_file fs ConfigPath of
        None \<Rightarrow> None
      | Some reader \<Rightarrow> Some (Client_main hw (ClientConfig.truncate (ClientSettings_read reader))))"

section \<open>The loggers\<close>

text \<open>
  The logger of \<^verbatim>\<open>main\<close>: the log file, and the console if the setting is exactly \<open>true\<close>, which
  a \<^verbatim>\<open>long\<close> equals when it is 1. The client always has both.
\<close>

definition server_logger :: "int \<Rightarrow> (LogRecord \<Rightarrow> 's \<Rightarrow> 's) \<Rightarrow> (LogRecord \<Rightarrow> 's \<Rightarrow> 's) \<Rightarrow> 's Logger" where
  "server_logger IsConsoleLog fileAppender consoleAppender =
     (if IsConsoleLog = 1
      then Logger_addAppender consoleAppender (plog_init sev_debug (Some fileAppender))
      else plog_init sev_debug (Some fileAppender))"

definition client_logger :: "(LogRecord \<Rightarrow> 's \<Rightarrow> 's) \<Rightarrow> (LogRecord \<Rightarrow> 's \<Rightarrow> 's) \<Rightarrow> 's Logger" where
  "client_logger fileAppender consoleAppender =
     Logger_addAppender consoleAppender (plog_init sev_debug (Some fileAppender))"

text \<open>What is logged about the configuration file comes before the logger exists, and is dropped.\<close>

lemma config_errors_dropped: "fold (PLOG None) records s = s"
  by (induction records) simp_all

section \<open>Reading a printed file\<close>

lemma server_settings:
  assumes "config_file fs path cfg"
    and "setting cfg ''server'' ''Port'' 7777 port"
    and "setting cfg ''server'' ''PacketPoolSize'' 10000 packets"
    and "setting cfg ''server'' ''SessionPoolSize'' 10000 sessions"
  shows "GameServer_start fs path hw mem listens ec
    = Some (GameServer_main hw mem listens ec
        \<lparr>cfg_Port = Some (int port), cfg_PacketPoolSize = int packets, cfg_SessionPoolSize = int sessions\<rparr>)"
proof -
  obtain r where r: "INIReader_file fs path = Some r" "map_of (rd_values r) = config_values cfg"
    using config_file_reader [OF assms(1)] by blast
  show ?thesis
    using r setting_stoi [OF r(2) assms(2)] setting_GetInteger [OF r(2) assms(3)] setting_GetInteger [OF r(2) assms(4)]
    by (simp add: GameServer_start_def ServerSettings_read_def ServerConfig.truncate_def dec_7777)
qed

lemma client_settings:
  assumes "config_file fs path cfg"
    and "setting cfg ''client'' ''threadCnt'' 10 threads" "setting cfg ''client'' ''maxSessionCnt'' 10 sessions"
    and "setting cfg ''client'' ''PacketPoolSize'' 10000 packets" "setting cfg ''client'' ''IsStressTest'' 0 stress"
  shows "Client_start fs path hw
    = Some (Client_main hw \<lparr>ccfg_threadCnt = int threads, ccfg_maxSessionCnt = int sessions,
        ccfg_PacketPoolSize = int packets, ccfg_IsStressTest = int stress\<rparr>)"
proof -
  obtain r where r: "INIReader_file fs path = Some r" "map_of (rd_values r) = config_values cfg"
    using config_file_reader [OF assms(1)] by blast
  show ?thesis
    using r assms(2-5) [THEN setting_GetInteger [OF r(2)]]
    by (simp add: Client_start_def ClientSettings_read_def ClientConfig.truncate_def)
qed

end
