(* ===== verification/Utf8_Check.thy ===== *)
theory Utf8_Check
  imports YJ_Prelude
begin

unbundle bit_operations_syntax

text \<open>
  \<^verbatim>\<open>google/protobuf/stubs/structurally_valid.cc\<close>: the check that every string field of a
  message goes through when it is parsed. A table-driven automaton with nine states scans the
  bytes, behind two fast paths for ASCII that depend on the alignment of the buffer.

  The table is written run by run, \<open>replicate n e\<close> for \<open>n\<close> equal entries in a row of the source.
  A \<^verbatim>\<open>uint8*\<close> into the string is an offset, one into the state table as well; \<open>addr\<close> is the
  address of the string, of which the code looks at the three lowest bits. The program runs
  on a little-endian machine. Scans that the table could send around again are partial
  functions with \<open>None\<close> for a scan that does not end.
\<close>

section \<open>The state table\<close>

definition kExitIllegalStructure :: nat where "kExitIllegalStructure = 240"
definition kExitOK :: nat where "kExitOK = 241"
definition kExitReject :: nat where "kExitReject = 242"
definition kExitDoAgain :: nat where "kExitDoAgain = 253"

definition utf8_state0 :: "nat list" where
  "utf8_state0 = replicate 128 0 @ replicate 66 kExitIllegalStructure @ replicate 30 1
     @ [2] @ replicate 12 3 @ [7] @ replicate 2 3 @ [4] @ replicate 3 5 @ [6] @ replicate 11 kExitIllegalStructure"

definition utf8_state1 :: "nat list" where
  "utf8_state1 = replicate 128 kExitIllegalStructure @ replicate 64 0 @ replicate 64 kExitIllegalStructure"

definition utf8_state2 :: "nat list" where
  "utf8_state2 = replicate 160 kExitIllegalStructure @ replicate 32 1 @ replicate 64 kExitIllegalStructure"

definition utf8_state3 :: "nat list" where
  "utf8_state3 = replicate 128 kExitIllegalStructure @ replicate 64 1 @ replicate 64 kExitIllegalStructure"

definition utf8_state4 :: "nat list" where
  "utf8_state4 = replicate 144 kExitIllegalStructure @ replicate 48 3 @ replicate 64 kExitIllegalStructure"

definition utf8_state5 :: "nat list" where
  "utf8_state5 = replicate 128 kExitIllegalStructure @ replicate 64 3 @ replicate 64 kExitIllegalStructure"

definition utf8_state6 :: "nat list" where
  "utf8_state6 = replicate 128 kExitIllegalStructure @ replicate 16 3 @ replicate 112 kExitIllegalStructure"

definition utf8_state7 :: "nat list" where
  "utf8_state7 = replicate 128 kExitIllegalStructure @ replicate 32 1 @ replicate 32 8 @ replicate 64 kExitIllegalStructure"

definition utf8_state8 :: "nat list" where
  "utf8_state8 = replicate 128 kExitIllegalStructure @ replicate 64 kExitReject @ replicate 64 kExitIllegalStructure"

definition utf8acceptnonsurrogates :: "nat list" where
  "utf8acceptnonsurrogates = utf8_state0 @ utf8_state1 @ utf8_state2 @ utf8_state3 @ utf8_state4
     @ utf8_state5 @ utf8_state6 @ utf8_state7 @ utf8_state8"

definition utf8acceptnonsurrogates_fast :: "nat list" where
  "utf8acceptnonsurrogates_fast = replicate 128 0 @ replicate 128 1"

text \<open>The fields that the scan reads; what the replacing variants need is left out.\<close>

record UTF8ScanObj =
  state0 :: nat
  state0_size :: nat
  entry_shift :: nat
  losub :: uint32
  hiadd :: uint32
  state_table :: "nat list"
  fast_state :: "nat list"

definition utf8acceptnonsurrogates_obj :: UTF8ScanObj where
  "utf8acceptnonsurrogates_obj =
     \<lparr>state0 = 0, state0_size = 256, entry_shift = 8, losub = 0x20202020, hiadd = 0,
      state_table = utf8acceptnonsurrogates, fast_state = utf8acceptnonsurrogates_fast\<rparr>"

section \<open>The scan\<close>

definition InStateZero :: "UTF8ScanObj \<Rightarrow> nat \<Rightarrow> bool" where
  "InStateZero st Tbl \<longleftrightarrow> (word_of_int (int Tbl - int (state0 st)) :: uint32) < of_nat (state0_size st)"

definition fast_entry :: "UTF8ScanObj \<Rightarrow> byte list \<Rightarrow> nat \<Rightarrow> nat" where
  "fast_entry st str i = fast_state st ! unat (str ! i)"

function align_skip :: "UTF8ScanObj \<Rightarrow> nat \<Rightarrow> byte list \<Rightarrow> nat \<Rightarrow> nat" where
  "align_skip st addr str src =
     (if (addr + src) mod 8 \<noteq> 0 \<and> src < length str \<and> fast_entry st str src = 0
      then align_skip st addr str (src + 1) else src)"
  by pat_completeness auto
termination by (relation "measure (\<lambda>(st, addr, str, src). length str - src)") auto

definition load32 :: "byte list \<Rightarrow> nat \<Rightarrow> uint32" where
  "load32 str i = ucast (str ! i) OR push_bit 8 (ucast (str ! (i + 1)))
     OR push_bit 16 (ucast (str ! (i + 2))) OR push_bit 24 (ucast (str ! (i + 3)))"

definition srclimit8 :: "byte list \<Rightarrow> nat" where
  "srclimit8 str = (if length str < 7 then 0 else length str - 7)"

function fast_scan :: "UTF8ScanObj \<Rightarrow> byte list \<Rightarrow> nat \<Rightarrow> nat" where
  "fast_scan st str src =
     (if src < srclimit8 str
      then let s0123 = load32 str src; s4567 = load32 str (src + 4);
               temp = (s0123 - losub st) OR (s0123 + hiadd st) OR (s4567 - losub st) OR (s4567 + hiadd st)
           in if temp AND 0x80808080 \<noteq> 0
              then if fast_entry st str src OR fast_entry st str (src + 1)
                      OR fast_entry st str (src + 2) OR fast_entry st str (src + 3) \<noteq> 0 then src
                   else if fast_entry st str (src + 4) OR fast_entry st str (src + 5)
                      OR fast_entry st str (src + 6) OR fast_entry st str (src + 7) \<noteq> 0 then src + 4
                   else fast_scan st str (src + 8)
              else fast_scan st str (src + 8)
      else src)"
  by pat_completeness auto
termination
  by (relation "measure (\<lambda>(st, str, src). length str - src)") (auto simp: srclimit8_def split: if_splits)

text \<open>The result: the last entry read, the state reached, and the position.\<close>

function byte_scan :: "UTF8ScanObj \<Rightarrow> byte list \<Rightarrow> nat \<Rightarrow> nat \<Rightarrow> nat \<Rightarrow> nat \<times> nat \<times> nat" where
  "byte_scan st str e Tbl src =
     (if src < length str
      then let e' = state_table st ! (Tbl + unat (str ! src))
           in if kExitIllegalStructure \<le> e' then (e', Tbl, src + 1)
              else byte_scan st str e' (state0 st + push_bit (entry_shift st) e') (src + 1)
      else (e, Tbl, src))"
  by pat_completeness auto
termination by (relation "measure (\<lambda>(st, str, e, Tbl, src). length str - src)") auto

text \<open>\<^verbatim>\<open>do { src--; } while ((src > isrc) && ((src[0] & 0xc0) == 0x80));\<close>\<close>

fun back_up :: "byte list \<Rightarrow> nat \<Rightarrow> nat" where
  "back_up str 0 = 0"
| "back_up str (Suc src) = (if 0 < src \<and> str ! src AND 0xC0 = 0x80 then back_up str src else src)"

definition scan_exit :: "UTF8ScanObj \<Rightarrow> byte list \<Rightarrow> nat \<times> nat \<times> nat \<Rightarrow> nat \<times> nat" where
  "scan_exit st str r =
     (case r of (e, Tbl, src) \<Rightarrow>
        if kExitIllegalStructure \<le> e
        then (e, if InStateZero st Tbl then src - 1 else back_up str (src - 1))
        else if \<not> InStateZero st Tbl then (kExitIllegalStructure, back_up str src)
        else (kExitOK, src))"

definition scan_once :: "UTF8ScanObj \<Rightarrow> nat \<Rightarrow> byte list \<Rightarrow> nat \<Rightarrow> nat \<times> nat" where
  "scan_once st addr str src0 =
     (let src1 = align_skip st addr str src0;
          src2 = (if (addr + src1) mod 8 = 0 then fast_scan st str src1 else src1)
      in scan_exit st str (byte_scan st str 0 (state0 st) src2))"

partial_function (option) scan_again :: "UTF8ScanObj \<Rightarrow> nat \<Rightarrow> byte list \<Rightarrow> nat \<Rightarrow> (nat \<times> nat) option" where
  "scan_again st addr str src0 =
     (let (e, src) = scan_once st addr str src0
      in if e = kExitDoAgain then scan_again st addr str src else Some (e, src))"

definition UTF8GenericScan :: "UTF8ScanObj \<Rightarrow> nat \<Rightarrow> byte list \<Rightarrow> (nat \<times> nat) option" where
  "UTF8GenericScan st addr str = (if str = [] then Some (kExitOK, 0) else scan_again st addr str 0)"

declare align_skip.simps [simp del] fast_scan.simps [simp del] byte_scan.simps [simp del]

section \<open>The fast path for ASCII\<close>

function ascii_align :: "nat \<Rightarrow> byte list \<Rightarrow> nat \<Rightarrow> nat" where
  "ascii_align addr str src =
     (if (addr + src) mod 8 \<noteq> 0 \<and> src < length str \<and> str ! src < 0x80 then ascii_align addr str (src + 1) else src)"
  by pat_completeness auto
termination by (relation "measure (\<lambda>(addr, str, src). length str - src)") auto

function ascii_words :: "byte list \<Rightarrow> nat \<Rightarrow> nat" where
  "ascii_words str src =
     (if src < srclimit8 str \<and> (load32 str src OR load32 str (src + 4)) AND 0x80808080 = 0
      then ascii_words str (src + 8) else src)"
  by pat_completeness auto
termination
  by (relation "measure (\<lambda>(str, src). length str - src)") (auto simp: srclimit8_def split: if_splits)

function ascii_bytes :: "byte list \<Rightarrow> nat \<Rightarrow> nat" where
  "ascii_bytes str src = (if src < length str \<and> str ! src < 0x80 then ascii_bytes str (src + 1) else src)"
  by pat_completeness auto
termination by (relation "measure (\<lambda>(str, src). length str - src)") auto

declare ascii_align.simps [simp del] ascii_words.simps [simp del] ascii_bytes.simps [simp del]

definition ascii_skip :: "nat \<Rightarrow> byte list \<Rightarrow> nat \<Rightarrow> nat" where
  "ascii_skip addr str src =
     (let src1 = ascii_align addr str src;
          src2 = (if (addr + src1) mod 8 = 0 then ascii_words str src1 else src1)
      in ascii_bytes str src2)"

partial_function (option) fast_ascii_loop :: "UTF8ScanObj \<Rightarrow> nat \<Rightarrow> byte list \<Rightarrow> nat \<Rightarrow> (nat \<times> nat) option" where
  "fast_ascii_loop st addr str src =
     (let n = ascii_skip addr str src
      in case UTF8GenericScan st (addr + n) (drop n str) of
           None \<Rightarrow> None
         | Some (exit_reason, rest_consumed) \<Rightarrow>
             if exit_reason = kExitDoAgain then fast_ascii_loop st addr str (n + rest_consumed)
             else Some (exit_reason, n + rest_consumed))"

definition UTF8GenericScanFastAscii :: "UTF8ScanObj \<Rightarrow> nat \<Rightarrow> byte list \<Rightarrow> (nat \<times> nat) option" where
  "UTF8GenericScanFastAscii st addr str =
     (if str = [] then Some (kExitOK, 0) else fast_ascii_loop st addr str 0)"

section \<open>The checks\<close>

text \<open>\<open>module_initialized\<close> is the flag that a static constructor sets before \<^verbatim>\<open>main\<close> runs.\<close>

definition IsStructurallyValidUTF8 :: "bool \<Rightarrow> nat \<Rightarrow> byte list \<Rightarrow> bool option" where
  "IsStructurallyValidUTF8 module_initialized addr buf =
     (if \<not> module_initialized then Some True
      else map_option (\<lambda>(_, bytes_consumed). bytes_consumed = length buf)
             (UTF8GenericScanFastAscii utf8acceptnonsurrogates_obj addr buf))"

definition UTF8SpnStructurallyValid :: "bool \<Rightarrow> nat \<Rightarrow> byte list \<Rightarrow> nat option" where
  "UTF8SpnStructurallyValid module_initialized addr str =
     (if \<not> module_initialized then Some (length str)
      else map_option snd (UTF8GenericScanFastAscii utf8acceptnonsurrogates_obj addr str))"

partial_function (option) coerce_loop :: "bool \<Rightarrow> nat \<Rightarrow> byte \<Rightarrow> byte list \<Rightarrow> byte list \<Rightarrow> byte list option" where
  "coerce_loop module_initialized addr replace_char src dst =
     (if src = [] then Some dst
      else case UTF8SpnStructurallyValid module_initialized (addr + 1) (tl src) of
             None \<Rightarrow> None
           | Some n \<Rightarrow> coerce_loop module_initialized (addr + 1 + n) replace_char (drop n (tl src))
                         (dst @ replace_char # take n (tl src)))"

text \<open>Whether the result is \<^verbatim>\<open>idst\<close>, and the bytes it points to.\<close>

definition UTF8CoerceToStructurallyValid :: "bool \<Rightarrow> nat \<Rightarrow> byte list \<Rightarrow> byte \<Rightarrow> (bool \<times> byte list) option" where
  "UTF8CoerceToStructurallyValid module_initialized addr src_str replace_char =
     (case UTF8SpnStructurallyValid module_initialized addr src_str of
        None \<Rightarrow> None
      | Some n \<Rightarrow>
          if n = length src_str then Some (False, src_str)
          else map_option (Pair True)
                 (coerce_loop module_initialized (addr + n) replace_char (drop n src_str) (take n src_str)))"

end
