(* ===== verification/Utf8_Valid.thy ===== *)
theory Utf8_Valid
  imports Utf8_Check
begin

unbundle bit_operations_syntax

text \<open>
  What the check of \<^verbatim>\<open>structurally_valid.cc\<close> decides. The reference is the encoding of
  Unicode: a byte string is valid when it is the concatenation of the encodings of scalar
  values. The proof goes through the automaton: \<open>char_len\<close> runs it over one character,
  \<open>span\<close> over as many as there are, and the scan with its fast paths and its backing up
  returns the span, whatever the alignment of the buffer.
\<close>

section \<open>The entries of the table\<close>

definition table_entry :: "nat \<Rightarrow> nat \<Rightarrow> nat" where
  "table_entry s c = utf8acceptnonsurrogates ! (256 * s + c)"

lemmas utf8_blocks =
  utf8_state0_def utf8_state1_def utf8_state2_def utf8_state3_def utf8_state4_def
  utf8_state5_def utf8_state6_def utf8_state7_def utf8_state8_def

lemmas exit_codes = kExitIllegalStructure_def kExitOK_def kExitReject_def kExitDoAgain_def

lemma utf8_block_lengths [simp]:
  "length utf8_state0 = 256" "length utf8_state1 = 256" "length utf8_state2 = 256"
  "length utf8_state3 = 256" "length utf8_state4 = 256" "length utf8_state5 = 256"
  "length utf8_state6 = 256" "length utf8_state7 = 256" "length utf8_state8 = 256"
  by (simp_all add: utf8_blocks)

lemma replicate_append_nth: "(replicate n e @ xs) ! c = (if c < n then e else xs ! (c - n))"
  by (simp add: nth_append)

lemma table_entry_0:
  assumes "c < 256"
  shows "table_entry 0 c =
    (if c < 0x80 then 0 else if c < 0xC2 then 240 else if c < 0xE0 then 1 else if c = 0xE0 then 2
     else if c < 0xED then 3 else if c = 0xED then 7 else if c < 0xF0 then 3 else if c = 0xF0 then 4
     else if c < 0xF4 then 5 else if c = 0xF4 then 6 else 240)"
proof -
  have "table_entry 0 c = utf8_state0 ! c"
    using assms by (simp add: table_entry_def utf8acceptnonsurrogates_def nth_append)
  also have "\<dots> = (if c < 0x80 then 0 else if c < 0xC2 then 240 else if c < 0xE0 then 1 else if c = 0xE0 then 2
     else if c < 0xED then 3 else if c = 0xED then 7 else if c < 0xF0 then 3 else if c = 0xF0 then 4
     else if c < 0xF4 then 5 else if c = 0xF4 then 6 else 240)"
  proof -
    consider "c < 0x80" | "0x80 \<le> c" "c < 0xC2" | "0xC2 \<le> c" "c < 0xE0" | "c = 0xE0" | "0xE1 \<le> c" "c < 0xED" | "c = 0xED"
     | "0xEE \<le> c" "c < 0xF0" | "c = 0xF0" | "0xF1 \<le> c" "c < 0xF4" | "c = 0xF4" | "0xF5 \<le> c"
      by linarith
    then show ?thesis
      by cases (use assms in \<open>simp_all add: utf8_state0_def nth_append nth_Cons' exit_codes less_diff_conv2\<close>)
  qed
  finally show ?thesis .
qed

lemma table_entry_cont:
  assumes "c < 256"
  shows "table_entry 1 c = (if 0x80 \<le> c \<and> c < 0xC0 then 0 else 240)"
    "table_entry 2 c = (if 0xA0 \<le> c \<and> c < 0xC0 then 1 else 240)"
    "table_entry 3 c = (if 0x80 \<le> c \<and> c < 0xC0 then 1 else 240)"
    "table_entry 4 c = (if 0x90 \<le> c \<and> c < 0xC0 then 3 else 240)"
    "table_entry 5 c = (if 0x80 \<le> c \<and> c < 0xC0 then 3 else 240)"
    "table_entry 6 c = (if 0x80 \<le> c \<and> c < 0x90 then 3 else 240)"
    "table_entry 7 c = (if 0x80 \<le> c \<and> c < 0xA0 then 1 else if 0x80 \<le> c \<and> c < 0xC0 then 8 else 240)"
    "table_entry 8 c = (if 0x80 \<le> c \<and> c < 0xC0 then 242 else 240)"
  using assms
  by (simp_all add: table_entry_def utf8acceptnonsurrogates_def nth_append utf8_blocks nth_Cons' exit_codes)
    presburger+

section \<open>Bytes\<close>

lemma cont_byte: "(b AND 0xC0 = (0x80 :: byte)) = (0x80 \<le> unat b \<and> unat b < 0xC0)"
  by (rule all_bytes) code_simp
lemma high_bit: "bit (b :: byte) 7 = (0x80 \<le> unat b)"
  by (rule all_bytes) code_simp
lemma load32_ascii:
  assumes "load32 str i AND 0x80808080 = 0"
  shows "list_all (\<lambda>j. unat (str ! (i + j)) < 0x80) [0, 1, 2, 3]"
proof -
  have m: "bit (0x80808080 :: uint32) 7" "bit (0x80808080 :: uint32) 15" "bit (0x80808080 :: uint32) 23" "bit (0x80808080 :: uint32) 31"
    by (code_simp)+
  have n: "\<not> bit (load32 str i) k" if "bit (0x80808080 :: uint32) k" for k
    using that arg_cong [OF assms, of "\<lambda>w. bit w k"] by (simp add: bit_and_iff)
  have "\<not> bit (str ! (i + j)) 7" if "j \<in> {0,1,2,3}" for j
    using that n [OF m(1)] n [OF m(2)] n [OF m(3)] n [OF m(4)]
    by (auto simp: load32_def bit_or_iff bit_push_bit_iff bit_ucast_iff)
  from this [of 0] this [of 1] this [of 2] this [of 3] show ?thesis
    by (simp add: high_bit not_le)
qed

lemma unat_byte: "unat (b :: byte) < 256"
  using unsigned_less [of b] by simp

definition cont :: "byte \<Rightarrow> bool" where
  "cont b \<longleftrightarrow> 0x80 \<le> unat b \<and> unat b < 0xC0"

section \<open>One character, and as many as there are\<close>

definition step :: "nat \<Rightarrow> byte \<Rightarrow> nat" where
  "step s b = table_entry s (unat b)"

fun char_len :: "nat \<Rightarrow> byte list \<Rightarrow> nat option" where
  "char_len s [] = None"
| "char_len s (b # bs) =
     (if kExitIllegalStructure \<le> step s b then None
      else if step s b = 0 then Some 1
      else map_option Suc (char_len (step s b) bs))"

lemma char_len_bounds: "char_len s bs = Some n \<Longrightarrow> 0 < n \<and> n \<le> length bs"
  by (induction s bs arbitrary: n rule: char_len.induct) (auto split: if_splits)

function span :: "byte list \<Rightarrow> nat" where
  "span bs = (case char_len 0 bs of None \<Rightarrow> 0 | Some n \<Rightarrow> n + span (drop n bs))"
  by pat_completeness auto
termination
  by (relation "measure length") (auto dest: char_len_bounds)

declare span.simps [simp del]

lemma span_Nil [simp]: "span [] = 0"
  by (simp add: span.simps)

lemma span_le: "span bs \<le> length bs"
proof (induction bs rule: span.induct)
  case (1 bs)
  show ?case
  proof (cases "char_len 0 bs")
    case (Some n)
    then show ?thesis
      using 1 [OF Some] char_len_bounds [OF Some] by (subst span.simps) (auto simp: le_diff_conv2)
  qed (simp add: span.simps)
qed

text \<open>What a step does: an error, the end of the character, or a state that expects more.\<close>

lemma step_start:
  "240 \<le> step 0 b \<and> step 0 b \<le> 242 \<or> step 0 b = 0 \<and> unat b < 0x80
   \<or> 1 \<le> step 0 b \<and> step 0 b \<le> 8 \<and> \<not> cont b"
  using unat_byte [of b] by (simp add: step_def table_entry_0 cont_def)

lemma step_inner:
  assumes "s \<in> {1..8}"
  shows "240 \<le> step s b \<and> step s b \<le> 242 \<or> step s b \<le> 8 \<and> cont b"
proof -
  have "s \<in> {1, 2, 3, 4, 5, 6, 7, 8}" using assms by auto
  then show ?thesis
    using unat_byte [of b] by (elim insertE emptyE) (simp_all add: step_def table_entry_cont cont_def del: One_nat_def)
qed

section \<open>The scan\<close>

abbreviation obj :: UTF8ScanObj where
  "obj \<equiv> utf8acceptnonsurrogates_obj"

lemma obj_fields [simp]:
  "state0 obj = 0" "state0_size obj = 256" "entry_shift obj = 8" "losub obj = 0x20202020" "hiadd obj = 0"
  "state_table obj = utf8acceptnonsurrogates" "fast_state obj = utf8acceptnonsurrogates_fast"
  by (simp_all add: utf8acceptnonsurrogates_obj_def)

lemma InStateZero_obj: "s \<le> 8 \<Longrightarrow> InStateZero obj (256 * s) \<longleftrightarrow> s = 0"
proof -
  assume "s \<le> 8"
  then have "s \<in> {0, 1, 2, 3, 4, 5, 6, 7, 8}" by auto
  then show ?thesis
    by (elim insertE emptyE) (simp_all add: InStateZero_def)
qed

lemma byte_scan_end: "length str \<le> src \<Longrightarrow> byte_scan obj str e Tbl src = (e, Tbl, src)"
  by (simp add: byte_scan.simps)

lemma byte_scan_step:
  "src < length str \<Longrightarrow> byte_scan obj str e (256 * s) src =
     (if 240 \<le> step s (str ! src) then (step s (str ! src), 256 * s, src + 1)
      else byte_scan obj str (step s (str ! src)) (256 * step s (str ! src)) (src + 1))"
  by (subst byte_scan.simps)
    (simp add: step_def table_entry_def exit_codes push_bit_eq_mult mult.commute Let_def)

lemma back_up_cont: "0 < src \<Longrightarrow> back_up str (Suc src) = (if cont (str ! src) then back_up str src else src)"
  by (simp add: cont_byte cont_def)

declare back_up.simps [simp del]

lemma scan_tail:
  assumes "s \<in> {1..8}" "e < 240" "char_len s (drop src str) = None" "0 < src" "src \<le> length str"
  shows "\<exists>x \<in> {240..242}. scan_exit obj str (byte_scan obj str e (256 * s) src) = (x, back_up str src)"
  using assms
proof (induction "length str - src" arbitrary: s e src)
  case 0
  then show ?case
    by (simp add: byte_scan_end scan_exit_def InStateZero_obj exit_codes)
next
  case (Suc k)
  let ?b = "str ! src"
  have src: "src < length str" using Suc by simp
  then have drop: "drop src str = ?b # drop (Suc src) str" by (simp add: Cons_nth_drop_Suc)
  show ?case
  proof (cases "240 \<le> step s ?b")
    case True
    then show ?thesis
      using src step_inner [OF Suc.prems(1), of ?b] Suc.prems(1)
      by (simp add: byte_scan_step scan_exit_def InStateZero_obj exit_codes)
  next
    case False
    then have c: "cont ?b" "step s ?b \<le> 8" using step_inner [OF Suc.prems(1), of ?b] by auto
    have "step s ?b \<noteq> 0" "char_len (step s ?b) (drop (Suc src) str) = None"
      using Suc.prems(3) False by (simp_all add: drop exit_codes split: if_splits)
    then obtain x where "x \<in> {240..242}"
      "scan_exit obj str (byte_scan obj str (step s ?b) (256 * step s ?b) (Suc src)) = (x, back_up str (Suc src))"
      using Suc.hyps(1) [of "Suc src" "step s ?b" "step s ?b"] Suc.hyps(2) src c(2) by force
    then show ?thesis
      using False src c(1) Suc.prems(4) by (intro bexI [of _ x]) (simp_all add: byte_scan_step back_up_cont)
  qed
qed

lemma scan_char:
  "char_len s (drop src str) = Some n \<Longrightarrow> byte_scan obj str e (256 * s) src = byte_scan obj str 0 0 (src + n)"
proof (induction n arbitrary: s e src)
  case (Suc n)
  let ?b = "str ! src"
  have src: "src < length str" using char_len_bounds [OF Suc.prems] by simp
  then have drop: "drop src str = ?b # drop (Suc src) str" by (simp add: Cons_nth_drop_Suc)
  show ?case
    using Suc.prems Suc.IH [of "step s ?b" "Suc src"] src
    by (auto simp: byte_scan_step drop exit_codes split: if_splits)
qed (auto dest: char_len_bounds)

lemma scan_head:
  assumes "char_len 0 (drop src str) = None" "src < length str"
  shows "\<exists>x \<in> {240..242}. scan_exit obj str (byte_scan obj str e 0 src) = (x, src)"
proof -
  let ?b = "str ! src"
  have drop: "drop src str = ?b # drop (Suc src) str" using assms(2) by (simp add: Cons_nth_drop_Suc)
  have scan: "byte_scan obj str e 0 src =
      (if 240 \<le> step 0 ?b then (step 0 ?b, 0, src + 1)
       else byte_scan obj str (step 0 ?b) (256 * step 0 ?b) (Suc src))"
    using byte_scan_step [OF assms(2), of e 0] by simp
  show ?thesis
  proof (cases "240 \<le> step 0 ?b")
    case True
    then show ?thesis
      using step_start [of ?b] InStateZero_obj [of 0] by (auto simp: scan scan_exit_def exit_codes)
  next
    case False
    then have s: "step 0 ?b \<in> {1..8}" "\<not> cont ?b" "char_len (step 0 ?b) (drop (Suc src) str) = None"
      using step_start [of ?b] assms(1) by (auto simp: drop exit_codes split: if_splits)
    obtain x where "x \<in> {240..242}"
      "scan_exit obj str (byte_scan obj str (step 0 ?b) (256 * step 0 ?b) (Suc src)) = (x, back_up str (Suc src))"
      using scan_tail [OF s(1) _ s(3), of "step 0 ?b"] False assms(2) by force
    moreover have "back_up str (Suc src) = src"
      using s(2) by (cases "src = 0") (simp_all add: back_up_cont, simp add: back_up.simps)
    ultimately show ?thesis using False by (intro bexI [of _ x]) (simp_all add: scan)
  qed
qed

lemma scan_span:
  assumes "src \<le> length str"
  shows "\<exists>x \<in> {240..242}. scan_exit obj str (byte_scan obj str 0 0 src) = (x, src + span (drop src str))"
  using assms
proof (induction "drop src str" arbitrary: src rule: span.induct)
  case 1
  show ?case
  proof (cases "char_len 0 (drop src str)")
    case None
    show ?thesis
    proof (cases "src < length str")
      case True
      then show ?thesis using scan_head [OF None, of 0] None by (simp add: span.simps [of "drop src str"])
    next
      case False
      then show ?thesis
        using 1 InStateZero_obj [of 0] by (simp add: byte_scan_end scan_exit_def exit_codes)
    qed
  next
    case (Some n)
    have n: "0 < n" "src + n \<le> length str"
      using char_len_bounds [OF Some] 1(2) by auto
    have "byte_scan obj str 0 0 src = byte_scan obj str 0 0 (src + n)"
      using scan_char [of 0 src str n 0] Some by simp
    moreover have "src + span (drop src str) = src + n + span (drop (src + n) str)"
      using Some by (simp add: span.simps [of "drop src str"] drop_drop add.commute)
    moreover have "drop n (drop src str) = drop (src + n) str"
      by (simp add: drop_drop add.commute)
    ultimately show ?thesis
      using 1(1) [OF Some _ n(2)] by (simp only:)
  qed
qed

section \<open>The fast paths\<close>

text \<open>What a fast path may do: move the position over ASCII.\<close>

definition ascii_move :: "byte list \<Rightarrow> nat \<Rightarrow> nat \<Rightarrow> bool" where
  "ascii_move str src src' \<longleftrightarrow> src \<le> src' \<and> (src \<le> length str \<longrightarrow> src' \<le> length str)
     \<and> (\<forall>i. src \<le> i \<and> i < src' \<longrightarrow> unat (str ! i) < 0x80)"

lemma ascii_move_refl [simp]: "ascii_move str src src"
  by (simp add: ascii_move_def)

lemma ascii_move_trans: "ascii_move str a b \<Longrightarrow> ascii_move str b c \<Longrightarrow> ascii_move str a c"
  unfolding ascii_move_def by (meson le_trans not_le)

lemma ascii_move_1: "src < length str \<Longrightarrow> unat (str ! src) < 0x80 \<Longrightarrow> ascii_move str src (src + 1)"
  by (auto simp: ascii_move_def less_Suc_eq)

lemma char_len_ascii: "unat b < 0x80 \<Longrightarrow> char_len 0 (b # bs) = Some 1"
  by (simp add: step_def table_entry_0 exit_codes)

lemma span_ascii: "unat b < 0x80 \<Longrightarrow> span (b # bs) = Suc (span bs)"
  by (subst span.simps) (simp add: char_len_ascii del: char_len.simps)

lemma span_move:
  assumes "ascii_move str src src'" "src \<le> length str"
  shows "src + span (drop src str) = src' + span (drop src' str)"
  using assms
proof (induction "src' - src" arbitrary: src)
  case 0
  then show ?case by (simp add: ascii_move_def)
next
  case (Suc k)
  then have src: "src < src'" "src' \<le> length str" "unat (str ! src) < 0x80" "ascii_move str (Suc src) src'"
    by (auto simp: ascii_move_def)
  then have "drop src str = str ! src # drop (Suc src) str" by (simp add: Cons_nth_drop_Suc)
  then have "span (drop src str) = Suc (span (drop (Suc src) str))" using src(3) by (simp add: span_ascii)
  then show ?case using Suc(1) [of "Suc src"] Suc(2) src by simp
qed

lemma fast_entry_ascii: "fast_entry obj str i = 0 \<longleftrightarrow> unat (str ! i) < 0x80"
  using unat_byte [of "str ! i"]
  by (auto simp: fast_entry_def utf8acceptnonsurrogates_fast_def nth_append)

lemma move_4:
  assumes "list_all (\<lambda>j. unat (str ! (src + j)) < 0x80) [0, 1, 2, 3]" "src + 4 \<le> length str"
  shows "ascii_move str src (src + 4)"
proof -
  have "unat (str ! i) < 0x80" if "src \<le> i" "i < src + 4" for i
  proof -
    have "i = src + 0 \<or> i = src + 1 \<or> i = src + 2 \<or> i = src + 3" using that by linarith
    then show ?thesis using assms(1) by (elim disjE) simp_all
  qed
  then show ?thesis using assms(2) by (auto simp: ascii_move_def)
qed

lemma align_skip_move: "ascii_move str src (align_skip obj addr str src)"
proof (induction obj addr str src rule: align_skip.induct)
  case (1 addr str src)
  then show ?case
    by (subst align_skip.simps) (auto simp: fast_entry_ascii intro: ascii_move_trans [OF ascii_move_1])
qed

lemma ascii_align_move: "ascii_move str src (ascii_align addr str src)"
proof (induction addr str src rule: ascii_align.induct)
  case (1 addr str src)
  then show ?case
    by (subst ascii_align.simps) (auto simp: word_less_nat_alt intro: ascii_move_trans [OF ascii_move_1])
qed

lemma ascii_bytes_move: "ascii_move str src (ascii_bytes str src)"
proof (induction str src rule: ascii_bytes.induct)
  case (1 str src)
  then show ?case
    by (subst ascii_bytes.simps) (auto simp: word_less_nat_alt intro: ascii_move_trans [OF ascii_move_1])
qed

lemma srclimit8: "src < srclimit8 str \<Longrightarrow> src + 8 \<le> length str"
  by (auto simp: srclimit8_def split: if_splits)

lemma move_8:
  assumes "load32 str src AND 0x80808080 = 0" "load32 str (src + 4) AND 0x80808080 = 0" "src + 8 \<le> length str"
  shows "ascii_move str src (src + 8)"
  using ascii_move_trans [OF move_4 [OF load32_ascii [OF assms(1)]] move_4 [OF load32_ascii [OF assms(2)]]] assms(3)
  by (simp add: add.commute [of 8])

lemma or_and_zero: "(a OR b) AND m = 0 \<longleftrightarrow> a AND m = 0 \<and> b AND m = (0 :: uint32)"
  by (simp add: word_ao_dist or_eq_0_iff)

lemma ascii_words_move: "ascii_move str src (ascii_words str src)"
proof (induction str src rule: ascii_words.induct)
  case (1 str src)
  then show ?case
    by (subst ascii_words.simps) (auto simp: or_and_zero dest: srclimit8 intro: ascii_move_trans [OF move_8])
qed

lemma or_zero_4: "a OR b OR c OR d = (0 :: nat) \<longleftrightarrow> a = 0 \<and> b = 0 \<and> c = 0 \<and> d = 0"
  by (simp add: or_eq_0_iff conj_assoc)

lemma fast_4:
  assumes "fast_entry obj str src OR fast_entry obj str (src + 1) OR fast_entry obj str (src + 2) OR fast_entry obj str (src + 3) = 0"
    and "src + 4 \<le> length str"
  shows "ascii_move str src (src + 4)"
  using assms by (intro move_4) (simp_all add: or_zero_4 fast_entry_ascii)

lemma fast_scan_move: "ascii_move str src (fast_scan obj str src)"
proof (induction "length str - src" arbitrary: src rule: less_induct)
  case less
  let ?temp = "(load32 str src - losub obj) OR (load32 str src + hiadd obj)
    OR (load32 str (src + 4) - losub obj) OR (load32 str (src + 4) + hiadd obj)"
  let ?lo = "fast_entry obj str src OR fast_entry obj str (src + 1) OR fast_entry obj str (src + 2) OR fast_entry obj str (src + 3)"
  let ?hi = "fast_entry obj str (src + 4) OR fast_entry obj str (src + 5) OR fast_entry obj str (src + 6) OR fast_entry obj str (src + 7)"
  have unfold: "fast_scan obj str src =
      (if src < srclimit8 str
       then if ?temp AND 0x80808080 \<noteq> 0
            then if ?lo \<noteq> 0 then src else if ?hi \<noteq> 0 then src + 4 else fast_scan obj str (src + 8)
            else fast_scan obj str (src + 8)
       else src)"
    by (subst fast_scan.simps) (simp only: Let_def)
  show ?case
  proof (cases "src < srclimit8 str")
    case False
    then show ?thesis by (simp only: unfold if_False ascii_move_refl)
  next
    case True
    then have len: "src + 8 \<le> length str" by (rule srclimit8)
    have more: "ascii_move str (src + 8) (fast_scan obj str (src + 8))"
      using len by (intro less) simp
    have lo: "ascii_move str src (src + 4)" if "?lo = 0"
      using fast_4 [OF that] len by simp
    have hi: "ascii_move str (src + 4) (src + 8)" if "?hi = 0"
    proof -
      have p: "src + 4 + 1 = src + 5" "src + 4 + 2 = src + 6" "src + 4 + 3 = src + 7" "src + 4 + 4 = src + 8"
        by simp_all
      show ?thesis
        using fast_4 [of str "src + 4", unfolded p, OF that] len by simp
    qed
    have words: "ascii_move str src (src + 8)" if "?temp AND 0x80808080 = 0"
      using that len by (intro move_8) (simp_all add: or_and_zero)
    have "ascii_move str src (fast_scan obj str (src + 8))" if "?temp AND 0x80808080 = 0 \<or> ?lo = 0 \<and> ?hi = 0"
      using that words ascii_move_trans [OF lo hi] by (blast intro: ascii_move_trans [OF _ more])
    then show ?thesis
      using lo True by (simp only: unfold if_True split: if_split) auto
  qed
qed

section \<open>The functions of the interface\<close>

lemma scan_once_span:
  assumes "src \<le> length str"
  shows "\<exists>x \<in> {240..242}. scan_once obj addr str src = (x, src + span (drop src str))"
proof -
  let ?src1 = "align_skip obj addr str src"
  let ?src2 = "if (addr + ?src1) mod 8 = 0 then fast_scan obj str ?src1 else ?src1"
  have move: "ascii_move str src ?src2"
    by (simp add: align_skip_move ascii_move_trans [OF align_skip_move fast_scan_move])
  then have "?src2 \<le> length str" using assms by (simp add: ascii_move_def)
  then obtain x where "x \<in> {240..242}"
    "scan_exit obj str (byte_scan obj str 0 0 ?src2) = (x, ?src2 + span (drop ?src2 str))"
    using scan_span by blast
  then show ?thesis
    using span_move [OF move assms] by (intro bexI [of _ x]) (simp_all add: scan_once_def Let_def)
qed

lemma UTF8GenericScan_span: "\<exists>x \<in> {240..242}. UTF8GenericScan obj addr str = Some (x, span str)"
proof (cases "str = []")
  case True
  then show ?thesis by (simp add: UTF8GenericScan_def exit_codes)
next
  case False
  obtain x where x: "x \<in> {240..242}" "scan_once obj addr str 0 = (x, span str)"
    using scan_once_span [of 0 str addr] by auto
  then show ?thesis
    using False by (intro bexI [of _ x]) (simp_all add: UTF8GenericScan_def scan_again.simps exit_codes)
qed

lemma ascii_skip_move: "ascii_move str src (ascii_skip addr str src)"
  unfolding ascii_skip_def Let_def
  by (simp add: ascii_move_trans [OF ascii_align_move ascii_bytes_move]
      ascii_move_trans [OF ascii_move_trans [OF ascii_align_move ascii_words_move] ascii_bytes_move])

lemma FastAscii_span: "\<exists>x \<in> {240..242}. UTF8GenericScanFastAscii obj addr str = Some (x, span str)"
proof (cases "str = []")
  case True
  then show ?thesis by (simp add: UTF8GenericScanFastAscii_def exit_codes)
next
  case False
  let ?n = "ascii_skip addr str 0"
  obtain x where x: "x \<in> {240..242}" "UTF8GenericScan obj (addr + ?n) (drop ?n str) = Some (x, span (drop ?n str))"
    using UTF8GenericScan_span by blast
  then show ?thesis
    using False span_move [OF ascii_skip_move, of 0 str addr]
    by (intro bexI [of _ x]) (simp_all add: UTF8GenericScanFastAscii_def fast_ascii_loop.simps [of _ _ _ 0] exit_codes Let_def)
qed

lemma Spn_span: "UTF8SpnStructurallyValid True addr str = Some (span str)"
  using FastAscii_span [of addr str] by (auto simp: UTF8SpnStructurallyValid_def)

lemma IsValid_span: "IsStructurallyValidUTF8 True addr str = Some (span str = length str)"
  using FastAscii_span [of addr str] by (auto simp: IsStructurallyValidUTF8_def)

section \<open>The encoding of Unicode\<close>

definition scalar_value :: "nat \<Rightarrow> bool" where
  "scalar_value c \<longleftrightarrow> c < 0xD800 \<or> 0xE000 \<le> c \<and> c < 0x110000"

definition encode_nats :: "nat \<Rightarrow> nat list" where
  "encode_nats c =
     (if c < 0x80 then [c]
      else if c < 0x800 then [0xC0 + c div 64, 0x80 + c mod 64]
      else if c < 0x10000 then [0xE0 + c div 4096, 0x80 + c div 64 mod 64, 0x80 + c mod 64]
      else [0xF0 + c div 262144, 0x80 + c div 4096 mod 64, 0x80 + c div 64 mod 64, 0x80 + c mod 64])"

definition utf8_encode :: "nat \<Rightarrow> byte list" where
  "utf8_encode c = map of_nat (encode_nats c)"

definition valid_utf8 :: "byte list \<Rightarrow> bool" where
  "valid_utf8 bs \<longleftrightarrow> (\<exists>cs. list_all scalar_value cs \<and> bs = concat (map utf8_encode cs))"

lemma encode_nats_bytes:
  assumes "scalar_value c"
  shows "list_all (\<lambda>n. n < 256) (encode_nats c)"
proof -
  have "c div 64 < 32" if "c < 0x800" using that by (simp add: div_less_iff_less_mult)
  moreover have "c div 4096 < 16" if "c < 0x10000" using that by (simp add: div_less_iff_less_mult)
  moreover have "c div 262144 < 5" if "c < 0x110000" using that by (simp add: div_less_iff_less_mult)
  ultimately show ?thesis
    using assms by (auto simp: encode_nats_def scalar_value_def)
qed

lemma encode_unat: "scalar_value c \<Longrightarrow> map unat (utf8_encode c) = encode_nats c"
  using encode_nats_bytes [of c]
  by (auto simp: utf8_encode_def list_all_iff unat_of_nat intro!: map_idI)

lemma map_unat_inj: "map unat (xs :: byte list) = map unat ys \<longleftrightarrow> xs = ys"
  by (rule inj_map_eq_map) (rule injI, simp only: word_unat_eq_iff)

text \<open>The scalar values by their six-bit groups.\<close>

lemma group_64: "z < 64 \<Longrightarrow> (64 * q + z) div 64 = q" "z < 64 \<Longrightarrow> (64 * q + z) mod 64 = (z :: nat)"
  by simp_all

lemma encode_2:
  assumes "2 \<le> x" "x < 32" "y < 64"
  shows "scalar_value (64 * x + y) \<and> encode_nats (64 * x + y) = [0xC0 + x, 0x80 + y]"
  using assms by (auto simp: scalar_value_def encode_nats_def)

lemma encode_3:
  assumes "x < 16" "y < 64" "z < 64" "x = 0 \<longrightarrow> 32 \<le> y" "x = 13 \<longrightarrow> y < 32"
  shows "scalar_value (64 * (64 * x + y) + z)
    \<and> encode_nats (64 * (64 * x + y) + z) = [0xE0 + x, 0x80 + y, 0x80 + z]"
proof -
  let ?c = "64 * (64 * x + y) + z"
  have d: "?c div 64 = 64 * x + y" "?c mod 64 = z" using assms(3) by (simp_all only: group_64)
  then have "?c div 4096 = x" using assms div_mult2_eq [of ?c 64 64] by simp
  moreover have c: "?c = 4096 * x + 64 * y + z" by simp
  moreover have le: "x \<le> 15" "y \<le> 63" "z \<le> 63" using assms by simp_all
  then have "?c < 0x10000" unfolding c by linarith
  moreover have "32 \<le> y \<or> 1 \<le> x" using assms(4) by linarith
  then have "0x800 \<le> ?c" unfolding c by linarith
  moreover have "?c < 0xD800 \<or> 0xE000 \<le> ?c"
  proof -
    consider "x \<le> 12" | "x = 13" "y \<le> 31" | "14 \<le> x" using assms(5) by linarith
    then show ?thesis using le unfolding c by cases linarith+
  qed
  ultimately show ?thesis
    using d assms by (simp add: scalar_value_def encode_nats_def)
qed

lemma encode_4:
  assumes "w < 5" "x < 64" "y < 64" "z < 64" "w = 0 \<longrightarrow> 16 \<le> x" "w = 4 \<longrightarrow> x < 16"
  shows "scalar_value (64 * (64 * (64 * w + x) + y) + z)
    \<and> encode_nats (64 * (64 * (64 * w + x) + y) + z) = [0xF0 + w, 0x80 + x, 0x80 + y, 0x80 + z]"
proof -
  let ?c = "64 * (64 * (64 * w + x) + y) + z"
  have d: "?c div 64 = 64 * (64 * w + x) + y" "?c mod 64 = z" using assms(4) by (simp_all only: group_64)
  have e: "?c div 4096 = 64 * w + x" using assms d div_mult2_eq [of ?c 64 64] by simp
  have g: "?c div 64 mod 64 = y" "?c div 4096 mod 64 = x" using assms by (simp_all only: d e group_64)
  have f: "?c div 262144 = w" using assms e div_mult2_eq [of ?c 4096 64] by simp
  have c: "?c = 262144 * w + 4096 * x + 64 * y + z" by simp
  have le: "x \<le> 63" "y \<le> 63" "z \<le> 63" using assms by simp_all
  have "16 \<le> x \<or> 1 \<le> w" using assms(5) by linarith
  then have "0x10000 \<le> ?c" unfolding c by linarith
  moreover have "?c < 0x110000"
  proof -
    consider "w \<le> 3" | "w = 4" "x \<le> 15" using assms(1,6) by linarith
    then show ?thesis using le unfolding c by cases linarith+
  qed
  ultimately show ?thesis
    using d f g by (simp add: scalar_value_def encode_nats_def)
qed

lemma scalar_value_groups:
  assumes "scalar_value c"
  obtains (one) "c < 0x80"
  | (two) x y where "c = 64 * x + y" "2 \<le> x" "x < 32" "y < 64"
  | (three) x y z where "c = 64 * (64 * x + y) + z" "x < 16" "y < 64" "z < 64" "x = 0 \<longrightarrow> 32 \<le> y" "x = 13 \<longrightarrow> y < 32"
  | (four) w x y z where "c = 64 * (64 * (64 * w + x) + y) + z" "w < 5" "x < 64" "y < 64" "z < 64"
      "w = 0 \<longrightarrow> 16 \<le> x" "w = 4 \<longrightarrow> x < 16"
proof -
  define z q where "z = c mod 64" "q = c div 64"
  define y p where "y = q mod 64" "p = q div 64"
  define x w where "x = p mod 64" "w = p div 64"
  have eqs: "c = 64 * q + z" "q = 64 * p + y" "p = 64 * w + x" and less: "z < 64" "y < 64" "x < 64"
    by (simp_all add: z_q_def y_p_def x_w_def)
  consider "c < 0x80" | "0x80 \<le> c" "c < 0x800" | "0x800 \<le> c" "c < 0x10000" | "0x10000 \<le> c" by linarith
  then show ?thesis
  proof cases
    case 1
    then show ?thesis by (rule one)
  next
    case 2
    then have "2 \<le> q" "q < 32" using eqs less by linarith+
    then show ?thesis using two [of q z] eqs less by simp
  next
    case 3
    have "p < 16" "p = 0 \<longrightarrow> 32 \<le> y" using 3 eqs less by linarith+
    moreover have "p = 13 \<longrightarrow> y < 32" using assms eqs less unfolding scalar_value_def by linarith
    ultimately show ?thesis using three [of p y z] eqs less by simp
  next
    case 4
    then have "0x10000 \<le> c" "c < 0x110000" using assms by (auto simp: scalar_value_def)
    then have "w < 5" "w = 0 \<longrightarrow> 16 \<le> x" "w = 4 \<longrightarrow> x < 16" using eqs less by linarith+
    then show ?thesis using four [of w x y z] eqs less by simp
  qed
qed

section \<open>The automaton accepts the encodings\<close>

lemma char_len_inner:
  "char_len 1 (b # r) = (if cont b then Some 1 else None)"
  "char_len 2 (b # r) = (if cont b \<and> 0xA0 \<le> unat b then map_option Suc (char_len 1 r) else None)"
  "char_len 3 (b # r) = (if cont b then map_option Suc (char_len 1 r) else None)"
  "char_len 4 (b # r) = (if cont b \<and> 0x90 \<le> unat b then map_option Suc (char_len 3 r) else None)"
  "char_len 5 (b # r) = (if cont b then map_option Suc (char_len 3 r) else None)"
  "char_len 6 (b # r) = (if cont b \<and> unat b < 0x90 then map_option Suc (char_len 3 r) else None)"
  "char_len 7 (b # r) = (if cont b then map_option Suc (char_len (if unat b < 0xA0 then 1 else 8) r) else None)"
  "char_len 8 (b # r) = None"
  by (auto simp: step_def table_entry_cont unat_byte cont_def exit_codes simp del: One_nat_def)

lemma char_len_start:
  "char_len 0 (b # r) =
     (if unat b < 0x80 then Some 1
      else if unat b < 0xC2 then None
      else if unat b < 0xE0 then map_option Suc (char_len 1 r)
      else if unat b = 0xE0 then map_option Suc (char_len 2 r)
      else if unat b < 0xF0 then map_option Suc (char_len (if unat b = 0xED then 7 else 3) r)
      else if unat b < 0xF5 then map_option Suc (char_len (if unat b = 0xF0 then 4 else if unat b = 0xF4 then 6 else 5) r)
      else None)"
  by (auto simp: step_def table_entry_0 unat_byte exit_codes simp del: One_nat_def)

lemmas char_len_rules = char_len_start char_len_inner

declare char_len.simps (2) [simp del]

lemma char_len_encode:
  assumes "map unat e = encode_nats c" "scalar_value c"
  shows "char_len 0 (e @ r) = Some (length e)"
  using assms(2)
proof (cases rule: scalar_value_groups)
  case one
  then have "map unat e = [c]" using assms(1) by (simp add: encode_nats_def)
  then show ?thesis using one by (auto simp: char_len_start)
next
  case (two x y)
  then have "map unat e = [0xC0 + x, 0x80 + y]" using assms(1) encode_2 [of x y] by simp
  then show ?thesis using two by (auto simp: char_len_rules cont_def simp del: One_nat_def)
next
  case (three x y z)
  then have "map unat e = [0xE0 + x, 0x80 + y, 0x80 + z]" using assms(1) encode_3 [of x y z] by simp
  then show ?thesis using three by (auto simp: char_len_rules cont_def simp del: One_nat_def)
next
  case (four w x y z)
  then have "map unat e = [0xF0 + w, 0x80 + x, 0x80 + y, 0x80 + z]" using assms(1) encode_4 [of w x y z] by simp
  then show ?thesis using four by (auto simp: char_len_rules cont_def simp del: One_nat_def)
qed

lemma char_len_tails:
  "char_len 1 r = Some m \<Longrightarrow> \<exists>b r'. r = b # r' \<and> cont b \<and> m = 1"
  "char_len 2 r = Some m \<Longrightarrow> \<exists>b c r'. r = b # c # r' \<and> cont b \<and> 0xA0 \<le> unat b \<and> cont c \<and> m = 2"
  "char_len 3 r = Some m \<Longrightarrow> \<exists>b c r'. r = b # c # r' \<and> cont b \<and> cont c \<and> m = 2"
  "char_len 7 r = Some m \<Longrightarrow> \<exists>b c r'. r = b # c # r' \<and> cont b \<and> unat b < 0xA0 \<and> cont c \<and> m = 2"
proof -
  have one: "char_len 1 r = Some m \<Longrightarrow> \<exists>b r'. r = b # r' \<and> cont b \<and> m = 1" for r m
    by (cases r) (auto simp: char_len_rules split: if_splits simp del: One_nat_def)
  have eight: "char_len 8 r = None" for r
    by (cases r) (auto simp: char_len_rules)
  show "char_len 1 r = Some m \<Longrightarrow> \<exists>b r'. r = b # r' \<and> cont b \<and> m = 1" by (rule one)
  show "char_len 2 r = Some m \<Longrightarrow> \<exists>b c r'. r = b # c # r' \<and> cont b \<and> 0xA0 \<le> unat b \<and> cont c \<and> m = 2"
    "char_len 3 r = Some m \<Longrightarrow> \<exists>b c r'. r = b # c # r' \<and> cont b \<and> cont c \<and> m = 2"
    "char_len 7 r = Some m \<Longrightarrow> \<exists>b c r'. r = b # c # r' \<and> cont b \<and> unat b < 0xA0 \<and> cont c \<and> m = 2"
    by (cases r; auto simp: char_len_rules eight dest!: one split: if_splits simp del: One_nat_def)+
qed

lemma char_len_tails_4:
  "char_len 4 r = Some m \<Longrightarrow> \<exists>b c d r'. r = b # c # d # r' \<and> cont b \<and> 0x90 \<le> unat b \<and> cont c \<and> cont d \<and> m = 3"
  "char_len 5 r = Some m \<Longrightarrow> \<exists>b c d r'. r = b # c # d # r' \<and> cont b \<and> cont c \<and> cont d \<and> m = 3"
  "char_len 6 r = Some m \<Longrightarrow> \<exists>b c d r'. r = b # c # d # r' \<and> cont b \<and> unat b < 0x90 \<and> cont c \<and> cont d \<and> m = 3"
  by (cases r; auto simp: char_len_rules dest!: char_len_tails (3) split: if_splits simp del: One_nat_def)+

lemma contE:
  assumes "cont b"
  obtains y where "unat b = 0x80 + y" "y < 64"
  using assms by (intro that [of "unat b - 0x80"]) (auto simp: cont_def)

lemma char_len_decode:
  assumes "char_len 0 bs = Some n"
  shows "\<exists>c. scalar_value c \<and> encode_nats c = map unat (take n bs)"
proof -
  obtain b r where bs: "bs = b # r" using assms by (cases bs) auto
  have two: ?thesis if b: "unat b = 0xC0 + x" "2 \<le> x" "x < 32" and r: "r = b1 # r'" "cont b1" "n = 2" for x b1 r'
  proof -
    obtain y where "unat b1 = 0x80 + y" "y < 64" using r(2) by (rule contE)
    then show ?thesis using b r encode_2 [of x y] by (intro exI [of _ "64 * x + y"]) (simp add: bs numeral_2_eq_2)
  qed
  have three: ?thesis
    if b: "unat b = 0xE0 + x" "x < 16" and r: "r = b1 # b2 # r'" "cont b1" "cont b2" "n = 3"
      and "x = 0 \<longrightarrow> 0xA0 \<le> unat b1" "x = 13 \<longrightarrow> unat b1 < 0xA0" for x b1 b2 r'
  proof -
    obtain y where y: "unat b1 = 0x80 + y" "y < 64" using r(2) by (rule contE)
    obtain z where z: "unat b2 = 0x80 + z" "z < 64" using r(3) by (rule contE)
    have "map unat (take n bs) = [0xE0 + x, 0x80 + y, 0x80 + z]" by (simp add: bs b r y z)
    moreover have "x = 0 \<longrightarrow> 32 \<le> y" "x = 13 \<longrightarrow> y < 32" using that y by simp_all
    ultimately show ?thesis using encode_3 [OF b(2) y(2) z(2)] by metis
  qed
  have four: ?thesis
    if b: "unat b = 0xF0 + w" "w < 5" and r: "r = b1 # b2 # b3 # r'" "cont b1" "cont b2" "cont b3" "n = 4"
      and "w = 0 \<longrightarrow> 0x90 \<le> unat b1" "w = 4 \<longrightarrow> unat b1 < 0x90" for w b1 b2 b3 r'
  proof -
    obtain x where x: "unat b1 = 0x80 + x" "x < 64" using r(2) by (rule contE)
    obtain y where y: "unat b2 = 0x80 + y" "y < 64" using r(3) by (rule contE)
    obtain z where z: "unat b3 = 0x80 + z" "z < 64" using r(4) by (rule contE)
    have "map unat (take n bs) = [0xF0 + w, 0x80 + x, 0x80 + y, 0x80 + z]" by (simp add: bs b r x y z)
    moreover have "w = 0 \<longrightarrow> 16 \<le> x" "w = 4 \<longrightarrow> x < 16" using that x by simp_all
    ultimately show ?thesis using encode_4 [OF b(2) x(2) y(2) z(2)] by metis
  qed
  have len: "char_len 0 (b # r) = Some n" using assms by (simp add: bs)
  consider "unat b < 0x80" | "0x80 \<le> unat b" "unat b < 0xC2" | "0xC2 \<le> unat b" "unat b < 0xE0"
    | "unat b = 0xE0" | "unat b = 0xED" | "0xE1 \<le> unat b" "unat b < 0xF0" "unat b \<noteq> 0xED"
    | "unat b = 0xF0" | "unat b = 0xF4" | "0xF1 \<le> unat b" "unat b < 0xF4" | "0xF5 \<le> unat b" by linarith
  then show ?thesis
  proof cases
    case 1
    then show ?thesis using len by (intro exI [of _ "unat b"]) (auto simp: char_len_start bs scalar_value_def encode_nats_def)
  next
    case 3
    then obtain m where "char_len 1 r = Some m" "n = Suc m" using len by (auto simp: char_len_start)
    then show ?thesis using char_len_tails(1) [of r m] 3 two [of "unat b - 0xC0"] by fastforce
  next
    case 4
    then obtain m where "char_len 2 r = Some m" "n = Suc m" using len by (auto simp: char_len_start)
    then show ?thesis using char_len_tails(2) [of r m] 4 three [of 0] by auto
  next
    case 5
    then obtain m where "char_len 7 r = Some m" "n = Suc m" using len by (auto simp: char_len_start)
    then show ?thesis using char_len_tails(4) [of r m] 5 three [of 13] by auto
  next
    case 6
    then obtain m where "char_len 3 r = Some m" "n = Suc m" using len by (auto simp: char_len_start)
    moreover have "unat b - 0xE0 \<noteq> 13" "unat b - 0xE0 \<noteq> 0" using 6 by linarith+
    ultimately show ?thesis using char_len_tails(3) [of r m] 6 three [of "unat b - 0xE0"] by auto
  next
    case 7
    then obtain m where "char_len 4 r = Some m" "n = Suc m" using len by (auto simp: char_len_start)
    then show ?thesis using char_len_tails_4(1) [of r m] 7 four [of 0] by auto
  next
    case 8
    then obtain m where "char_len 6 r = Some m" "n = Suc m" using len by (auto simp: char_len_start)
    then show ?thesis using char_len_tails_4(3) [of r m] 8 four [of 4] by auto
  next
    case 9
    then obtain m where "char_len 5 r = Some m" "n = Suc m" using len by (auto simp: char_len_start)
    moreover have "unat b - 0xF0 \<noteq> 0" "unat b - 0xF0 \<noteq> 4" using 9 by linarith+
    ultimately show ?thesis using char_len_tails_4(2) [of r m] 9 four [of "unat b - 0xF0"] by auto
  qed (use len in \<open>simp_all add: char_len_start\<close>)
qed

section \<open>Valid strings\<close>

lemma valid_Nil [simp]: "valid_utf8 []"
  unfolding valid_utf8_def by (intro exI [of _ "[]"]) simp

lemma valid_encode: "scalar_value c \<Longrightarrow> valid_utf8 (utf8_encode c)"
  unfolding valid_utf8_def by (intro exI [of _ "[c]"]) simp

lemma valid_append: "valid_utf8 xs \<Longrightarrow> valid_utf8 ys \<Longrightarrow> valid_utf8 (xs @ ys)"
  unfolding valid_utf8_def by (elim exE conjE, rule_tac x = "cs @ csa" in exI) simp

lemma span_encode: "scalar_value c \<Longrightarrow> span (utf8_encode c @ r) = length (utf8_encode c) + span r"
  using char_len_encode [OF encode_unat, of c r] by (subst span.simps) simp

lemma span_append: "valid_utf8 xs \<Longrightarrow> span (xs @ ys) = length xs + span ys"
proof -
  have "list_all scalar_value cs \<Longrightarrow>
      span (concat (map utf8_encode cs) @ ys) = length (concat (map utf8_encode cs)) + span ys" for cs
    by (induction cs) (simp_all add: span_encode)
  then show "valid_utf8 xs \<Longrightarrow> span (xs @ ys) = length xs + span ys"
    unfolding valid_utf8_def by blast
qed

lemma valid_take_span: "valid_utf8 (take (span bs) bs)"
proof (induction bs rule: span.induct)
  case (1 bs)
  show ?case
  proof (cases "char_len 0 bs")
    case None
    then show ?thesis by (simp add: span.simps [of bs])
  next
    case (Some n)
    obtain c where c: "scalar_value c" "encode_nats c = map unat (take n bs)"
      using char_len_decode [OF Some] by blast
    then have "map unat (take n bs) = map unat (utf8_encode c)" by (simp only: encode_unat)
    then have "take n bs = utf8_encode c" by (simp only: map_unat_inj)
    then have "valid_utf8 (take n bs @ take (span (drop n bs)) (drop n bs))"
      using 1 [OF Some] c(1) by (simp add: valid_append valid_encode)
    moreover have "take (span bs) bs = take n bs @ take (span (drop n bs)) (drop n bs)"
      using Some by (simp add: span.simps [of bs] take_add)
    ultimately show ?thesis by (simp only:)
  qed
qed

lemma valid_span: "valid_utf8 bs \<longleftrightarrow> span bs = length bs"
  using span_append [of bs "[]"] valid_take_span [of bs] by auto

lemma span_Max: "span bs = Max {k. k \<le> length bs \<and> valid_utf8 (take k bs)}"
proof (rule Max_eqI [symmetric])
  show "finite {k. k \<le> length bs \<and> valid_utf8 (take k bs)}"
    by (rule finite_subset [of _ "{..length bs}"]) auto
  show "span bs \<in> {k. k \<le> length bs \<and> valid_utf8 (take k bs)}"
    by (simp add: span_le valid_take_span)
  fix k assume "k \<in> {k. k \<le> length bs \<and> valid_utf8 (take k bs)}"
  then show "k \<le> span bs"
    using span_append [of "take k bs" "drop k bs"] by simp
qed

section \<open>Properties\<close>

text \<open>
  C17. The UTF-8 check always returns, and it is exact: wherever the buffer lies in memory, it
  accepts a byte string exactly when the string is the concatenation of the UTF-8 encodings
  of Unicode scalar values (no surrogates, nothing above U+10FFFF, no overlong forms), and
  \<^verbatim>\<open>UTF8SpnStructurallyValid\<close> is the length of the longest prefix that is.
\<close>

theorem utf8_check_exact:
  "IsStructurallyValidUTF8 True addr buf = Some (valid_utf8 buf)
   \<and> UTF8SpnStructurallyValid True addr buf = Some (Max {k. k \<le> length buf \<and> valid_utf8 (take k buf)})"
  by (rule conjI) (simp add: IsValid_span valid_span, simp only: Spn_span flip: span_Max)

text \<open>What coercion promises: each byte is kept or replaced.\<close>

abbreviation kept :: "byte \<Rightarrow> byte list \<Rightarrow> byte list \<Rightarrow> bool" where
  "kept r \<equiv> list_all2 (\<lambda>a b. b = a \<or> b = r)"

lemma kept_refl [simp]: "kept r xs xs"
  by (simp add: list_all2_refl)

lemma valid_ascii: "unat r < 0x80 \<Longrightarrow> valid_utf8 [r]"
  using span_ascii [of r "[]"] by (simp add: valid_span)

lemma coerce_loop_valid:
  assumes "unat r < 0x80"
  shows "\<exists>out. coerce_loop True addr r src dst = Some (dst @ out) \<and> kept r src out
    \<and> (valid_utf8 dst \<longrightarrow> valid_utf8 (dst @ out))"
proof (induction "length src" arbitrary: addr src dst rule: less_induct)
  case less
  show ?case
  proof (cases src)
    case Nil
    then show ?thesis by (simp add: coerce_loop.simps)
  next
    case (Cons b bs)
    let ?good = "take (span bs) bs" and ?rest = "drop (span bs) bs"
    obtain out where out: "coerce_loop True (addr + 1 + span bs) r ?rest (dst @ r # ?good) = Some ((dst @ r # ?good) @ out)"
      "kept r ?rest out" "valid_utf8 (dst @ r # ?good) \<longrightarrow> valid_utf8 ((dst @ r # ?good) @ out)"
    proof -
      have "length ?rest < length src" using Cons by (simp add: less_Suc_eq_le)
      from less [OF this, of "addr + 1 + span bs" "dst @ r # ?good"] that show ?thesis by blast
    qed
    have "valid_utf8 (dst @ r # ?good)" if "valid_utf8 dst"
      using valid_append [OF valid_append [OF that valid_ascii [OF assms]] valid_take_span [of bs]] by simp
    moreover have "kept r (b # bs) (r # ?good @ out)"
      using list_all2_appendI [OF kept_refl [of r ?good] out(2)] by simp
    ultimately show ?thesis
      using out(1,3) Cons by (intro exI [of _ "r # ?good @ out"]) (simp add: coerce_loop.simps [of True addr] Spn_span)
  qed
qed

text \<open>
  Coercing to valid UTF-8 with an ASCII replacement character always returns. A valid
  string comes back itself. Otherwise the copy has the same length, each of its bytes is the
  original one or the replacement, and it is valid UTF-8.
\<close>

lemma utf8_coerce:
  assumes "unat replace_char < 0x80"
  shows "\<exists>out. UTF8CoerceToStructurallyValid True addr src_str replace_char = Some (\<not> valid_utf8 src_str, out)
    \<and> length out = length src_str \<and> valid_utf8 out \<and> kept replace_char src_str out
    \<and> (valid_utf8 src_str \<longrightarrow> out = src_str)"
proof (cases "valid_utf8 src_str")
  case True
  then show ?thesis by (simp add: UTF8CoerceToStructurallyValid_def Spn_span valid_span)
next
  case False
  let ?n = "span src_str"
  obtain out where out: "coerce_loop True (addr + ?n) replace_char (drop ?n src_str) (take ?n src_str) = Some (take ?n src_str @ out)"
    "kept replace_char (drop ?n src_str) out" "valid_utf8 (take ?n src_str @ out)"
    using coerce_loop_valid [OF assms] valid_take_span by blast
  have "kept replace_char src_str (take ?n src_str @ out)"
    using list_all2_appendI [OF kept_refl [of _ "take ?n src_str"] out(2)] by simp
  moreover have "length (take ?n src_str @ out) = length src_str"
    using list_all2_lengthD [OF calculation] by (rule sym)
  ultimately show ?thesis
    using out(1,3) False
    by (intro exI [of _ "take ?n src_str @ out"])
      (simp add: UTF8CoerceToStructurallyValid_def Spn_span valid_span [of src_str])
qed

end
