(* ===== verification/Proto_Varint.thy ===== *)
theory Proto_Varint
  imports Proto_Wire
begin

unbundle bit_operations_syntax

text \<open>
  The varint decoders of \<^verbatim>\<open>google/protobuf/parse_context.h\<close> and \<^verbatim>\<open>parse_context.cc\<close> as they are
  written: they add \<open>(byte - 1) << 7 * i\<close> to the sum so far, so that the subtracted one
  cancels the continuation bit of the byte before, in 32-bit or 64-bit arithmetic that wraps.
  A pointer is the list of the bytes behind it, of which the runtime keeps sixteen readable
  beyond the end of the data; the result is the number of bytes consumed and the value.

  The lemmas compare them with the decoders of \<^verbatim>\<open>Proto_Wire\<close>, over natural numbers, that the
  parsers of the messages use.
\<close>

section \<open>The decoders\<close>

text \<open>
  A loop over \<open>i < n\<close> that adds up bytes: \<open>Inl\<close> when it returns from the function, \<open>Inr\<close> with the
  sum when it has run out.
\<close>

function varint_for :: "byte list \<Rightarrow> nat \<Rightarrow> nat \<Rightarrow> 'a :: len word \<Rightarrow> nat \<times> 'a word + 'a word" where
  "varint_for p i n res =
     (if i < n
      then let res' = res + push_bit (7 * i) (ucast (p ! i) - 1)
           in if p ! i < 128 then Inl (i + 1, res') else varint_for p (i + 1) n res'
      else Inr res)"
  by pat_completeness auto
termination by (relation "measure (\<lambda>(p, i, n, res). n - i)") auto

declare varint_for.simps [simp del]

text \<open>The second loop of \<^verbatim>\<open>VarintParseSlow32\<close>: the bits beyond the 32nd are dropped.\<close>

function skip_for :: "byte list \<Rightarrow> nat \<Rightarrow> nat \<Rightarrow> nat option" where
  "skip_for p i n =
     (if i < n then if p ! i < 128 then Some (i + 1) else skip_for p (i + 1) n else None)"
  by pat_completeness auto
termination by (relation "measure (\<lambda>(p, i, n). n - i)") auto

declare skip_for.simps [simp del]

definition VarintParseSlow32 :: "byte list \<Rightarrow> uint32 \<Rightarrow> (nat \<times> uint32) option" where
  "VarintParseSlow32 p res =
     (case varint_for p 2 5 res of
        Inl r \<Rightarrow> Some r
      | Inr res' \<Rightarrow> map_option (\<lambda>k. (k, res')) (skip_for p 5 10))"

definition VarintParseSlow64 :: "byte list \<Rightarrow> uint32 \<Rightarrow> (nat \<times> uint64) option" where
  "VarintParseSlow64 p res32 =
     (case varint_for p 2 10 (ucast res32) of Inl r \<Rightarrow> Some r | Inr _ \<Rightarrow> None)"

definition ReadTagFallback :: "byte list \<Rightarrow> uint32 \<Rightarrow> (nat \<times> uint32) option" where
  "ReadTagFallback p res = (case varint_for p 2 5 res of Inl r \<Rightarrow> Some r | Inr _ \<Rightarrow> None)"

definition ReadSizeFallback :: "byte list \<Rightarrow> uint32 \<Rightarrow> (nat \<times> uint32) option" where
  "ReadSizeFallback p res =
     (case varint_for p 1 4 res of
        Inl r \<Rightarrow> Some r
      | Inr res' \<Rightarrow>
          let byte = ucast (p ! 4); res'' = res' + push_bit 28 (byte - 1)
          in if 8 \<le> p ! 4 then None
             else if 2147483647 - 16 < res'' then None
             else Some (5, res''))"

text \<open>The template \<^verbatim>\<open>VarintParse\<close>, with the slow path of its type.\<close>

definition VarintParse_by :: "(byte list \<Rightarrow> uint32 \<Rightarrow> (nat \<times> 'a :: len word) option) \<Rightarrow> byte list \<Rightarrow> (nat \<times> 'a word) option" where
  "VarintParse_by slow p =
     (let res = ucast (p ! 0) :: uint32
      in if res AND 0x80 = 0 then Some (1, ucast res)
         else let byte = ucast (p ! 1) :: uint32; res2 = res + push_bit 7 (byte - 1)
              in if byte AND 0x80 = 0 then Some (2, ucast res2) else slow p res2)"

definition ReadVarint32_code :: "byte list \<Rightarrow> (nat \<times> uint32) option" where
  "ReadVarint32_code p = VarintParse_by VarintParseSlow32 p"

definition ReadVarint64_code :: "byte list \<Rightarrow> (nat \<times> uint64) option" where
  "ReadVarint64_code p = VarintParse_by VarintParseSlow64 p"

definition ReadTag_code :: "byte list \<Rightarrow> (nat \<times> uint32) option" where
  "ReadTag_code p =
     (let res = ucast (p ! 0) :: uint32
      in if res < 128 then Some (1, res)
         else let second = ucast (p ! 1) :: uint32; res2 = res + push_bit 7 (second - 1)
              in if second < 128 then Some (2, res2) else ReadTagFallback p res2)"

definition ReadSize_code :: "byte list \<Rightarrow> (nat \<times> uint32) option" where
  "ReadSize_code p =
     (let res = ucast (p ! 0) :: uint32
      in if res < 128 then Some (1, res) else ReadSizeFallback p res)"

section \<open>The sum cancels the continuation bits\<close>

text \<open>
  After \<open>i\<close> bytes with continuation bits the sum is the value of their lower bits plus
  \<open>128 ^ i\<close>; the next summand takes that away again.
\<close>

lemma sum_step: "(of_nat (V + 128 ^ i) :: 'a :: len word) + push_bit (7 * i) (ucast b - 1) = of_nat (V + 128 ^ i * unat (b :: byte))"
proof -
  have "(2 :: 'a word) ^ (7 * i) = of_nat (128 ^ i)" by (simp add: power_mult)
  moreover have "(ucast b :: 'a word) = of_nat (unat b)" by simp
  ultimately show ?thesis
    by (simp add: push_bit_eq_mult algebra_simps)
qed

lemma VarintParse_at:
  "i < length p \<Longrightarrow> VarintParse (Suc n) (drop i p) =
     (if p ! i < 128 then Some (unat (p ! i), drop (Suc i) p)
      else case VarintParse n (drop (Suc i) p) of
             None \<Rightarrow> None | Some (v, rest) \<Rightarrow> Some (unat (p ! i) - 128 + 128 * v, rest))"
  by (simp add: word_less_nat_alt flip: Cons_nth_drop_Suc)

lemma varint_for_value:
  assumes "n \<le> length p" "i \<le> n"
  shows "case VarintParse (n - i) (drop i p) of
      Some (v, rest) \<Rightarrow> \<exists>k. varint_for p i n (of_nat (V + 128 ^ i)) = Inl (k, of_nat (V + 128 ^ i * v) :: 'a :: len word)
        \<and> rest = drop k p \<and> k \<le> n
    | None \<Rightarrow> (\<exists>u. varint_for p i n (of_nat (V + 128 ^ i)) = Inr (of_nat (V + 128 ^ i * u + 128 ^ n) :: 'a word))
        \<and> list_all (\<lambda>j. 128 \<le> p ! j) [i..<n]"
  using assms
proof (induction "n - i" arbitrary: i V)
  case 0
  then show ?case
    by (simp add: varint_for.simps) (intro exI [of _ 0], simp)
next
  case (Suc m)
  let ?b = "p ! i"
  have i: "i < n" "i < length p" and m: "n - i = Suc m" "n - Suc i = m" using Suc by simp_all
  show ?case
  proof (cases "?b < 128")
    case True
    have "varint_for p i n (of_nat (V + 128 ^ i) :: 'a word) = Inl (Suc i, of_nat (V + 128 ^ i * unat ?b))"
      using True i by (subst varint_for.simps) (simp only: sum_step Let_def if_True Suc_eq_plus1)
    with True i show ?thesis by (simp add: m VarintParse_at del: of_nat_add of_nat_mult)
  next
    case False
    have b: "unat ?b = 128 + (unat ?b - 128)" using False by (simp add: word_less_nat_alt)
    have V: "V + 128 ^ i * unat ?b = V + 128 ^ i * (unat ?b - 128) + 128 ^ Suc i"
      by (subst b) (simp add: algebra_simps)
    have step: "varint_for p i n (of_nat (V + 128 ^ i) :: 'a word)
        = varint_for p (Suc i) n (of_nat (V + 128 ^ i * (unat ?b - 128) + 128 ^ Suc i))"
      using i False by (subst varint_for.simps) (simp add: sum_step Let_def V del: of_nat_add)
    have ih: "case VarintParse m (drop (Suc i) p) of
        Some (v, rest) \<Rightarrow> \<exists>k. varint_for p i n (of_nat (V + 128 ^ i)) = Inl (k, of_nat (V + 128 ^ i * (unat ?b - 128) + 128 ^ Suc i * v) :: 'a word)
          \<and> rest = drop k p \<and> k \<le> n
      | None \<Rightarrow> (\<exists>u. varint_for p i n (of_nat (V + 128 ^ i)) = Inr (of_nat (V + 128 ^ i * (unat ?b - 128) + 128 ^ Suc i * u + 128 ^ n) :: 'a word))
          \<and> list_all (\<lambda>j. 128 \<le> p ! j) [Suc i..<n]"
      unfolding step using Suc.hyps(1) [of "Suc i" "V + 128 ^ i * (unat ?b - 128)"] m(2) i(1) Suc.prems(1) by simp
    have sum: "V + 128 ^ i * (unat ?b - 128) + 128 ^ Suc i * v = V + 128 ^ i * (unat ?b - 128 + 128 * v)" for v
      by (simp add: algebra_simps)
    have upt: "[i..<n] = i # [Suc i..<n]" using i(1) by (rule upt_conv_Cons)
    show ?thesis
      using ih False unfolding sum m(1) VarintParse_at [OF i(2)] upt
      by (auto split: option.splits prod.splits simp: not_less simp del: of_nat_add of_nat_mult of_nat_power)
  qed
qed

section \<open>The unrolled decoders\<close>

lemma continuation_bit: "(ucast (b :: byte) :: uint32) AND 0x80 = 0 \<longleftrightarrow> b < 128"
proof -
  have "\<forall>n \<in> set [0..<256]. (ucast (word_of_nat n :: byte) :: uint32) AND 0x80 = 0 \<longleftrightarrow> (word_of_nat n :: byte) < 128"
    by code_simp
  then show ?thesis by (rule all_bytes)
qed

lemma small_byte: "(ucast (b :: byte) :: uint32) < 128 \<longleftrightarrow> b < 128"
  by (simp add: word_less_nat_alt unsigned_ucast_eq take_bit_nat_eq_self [OF order_less_trans [OF unsigned_less]])

lemma ucast_byte: "(ucast (ucast (b :: byte) :: uint32) :: uint64) = ucast b"
  by (rule bit_word_eqI) (auto simp: bit_unsigned_iff dest: bit_imp_le_length)

text \<open>The first two rounds of a loop that starts at the first byte with the sum one.\<close>

lemma varint_for_unrolled:
  "2 \<le> n \<Longrightarrow> varint_for p 0 n (1 :: 'a :: len word) =
     (if p ! 0 < 128 then Inl (1, ucast (p ! 0))
      else let res = ucast (p ! 0) + push_bit 7 (ucast (p ! 1) - 1)
           in if p ! 1 < 128 then Inl (2, res) else varint_for p 2 n res)"
  by (simp add: varint_for.simps [of p 0] varint_for.simps [of p "Suc 0"] Let_def numeral_2_eq_2)

lemma ReadTag_code_loop: "ReadTag_code p = (case varint_for p 0 5 1 of Inl r \<Rightarrow> Some r | Inr _ \<Rightarrow> None)"
  by (simp add: ReadTag_code_def varint_for_unrolled ReadTagFallback_def small_byte Let_def)

lemma ReadVarint32_code_loop:
  "ReadVarint32_code p =
     (case varint_for p 0 5 1 of Inl r \<Rightarrow> Some r | Inr v \<Rightarrow> map_option (\<lambda>k. (k, v)) (skip_for p 5 10))"
  by (simp add: ReadVarint32_code_def VarintParse_by_def varint_for_unrolled VarintParseSlow32_def continuation_bit Let_def)

lemma ReadSize_code_loop:
  "ReadSize_code p =
     (case varint_for p 0 4 1 of
        Inl r \<Rightarrow> Some r
      | Inr v \<Rightarrow>
          let v' = v + push_bit 28 (ucast (p ! 4) - 1)
          in if 8 \<le> p ! 4 \<or> 2147483631 < v' then None else Some (5, v'))"
  by (simp add: ReadSize_code_def ReadSizeFallback_def varint_for.simps [of p 0] small_byte Let_def split: sum.split)

text \<open>In the 64-bit template the first two bytes are summed up in 32 bits.\<close>

lemma two_bytes_32:
  "128 \<le> b \<Longrightarrow> (ucast (ucast (b :: byte) + push_bit 7 (ucast (c :: byte) - 1) :: uint32) :: uint64)
     = ucast b + push_bit 7 (ucast c - 1)"
proof -
  assume b: "128 \<le> b"
  let ?n = "(unat b - 128) + 128 ^ 1 * unat c"
  have two: "(ucast b + push_bit 7 (ucast c - 1) :: 'a :: len word) = of_nat ?n"
    using b sum_step [of "unat b - 128" 1 c, where ?'a = 'a] by (simp add: word_le_nat_alt)
  have "?n < 2 ^ 32" using unsigned_less [of b, where ?'a = nat] unsigned_less [of c, where ?'a = nat] by simp
  then show ?thesis unfolding two by (simp add: unsigned_of_nat take_bit_nat_eq_self ucast_eq del: of_nat_add of_nat_mult)
qed

lemma ReadVarint64_code_loop: "ReadVarint64_code p = (case varint_for p 0 10 1 of Inl r \<Rightarrow> Some r | Inr _ \<Rightarrow> None)"
proof (cases "p ! 0 < 128")
  case True
  then show ?thesis
    by (simp add: ReadVarint64_code_def VarintParse_by_def varint_for_unrolled continuation_bit ucast_byte Let_def)
next
  case False
  then have "128 \<le> p ! 0" by simp
  with False show ?thesis
    by (simp add: ReadVarint64_code_def VarintParse_by_def varint_for_unrolled VarintParseSlow64_def
        continuation_bit Let_def two_bytes_32)
qed

text \<open>A loop can be cut in two; in 32 bits the rounds from the fifth byte on add nothing.\<close>

lemma varint_for_cut:
  "i \<le> m \<Longrightarrow> m \<le> n \<Longrightarrow> varint_for p i n res =
     (case varint_for p i m res of Inl r \<Rightarrow> Inl r | Inr v \<Rightarrow> varint_for p m n v)"
proof (induction "m - i" arbitrary: i res)
  case 0
  then have "m = i" by simp
  then show ?case by (simp add: varint_for.simps [of p i i])
next
  case (Suc j)
  then have "i < m" "i < n" "j = m - Suc i" by simp_all
  then show ?case using Suc.hyps(1) [of "Suc i"] Suc.prems
    by (simp add: varint_for.simps [of p i] Let_def)
qed

lemma varint_for_32: "5 \<le> i \<Longrightarrow> varint_for p i n (res :: uint32) =
    (case skip_for p i n of Some k \<Rightarrow> Inl (k, res) | None \<Rightarrow> Inr res)"
proof (induction "n - i" arbitrary: i)
  case 0
  then show ?case by (simp add: varint_for.simps skip_for.simps)
next
  case (Suc m)
  have "push_bit (7 * i) (ucast (p ! i) - 1 :: uint32) = 0"
    using Suc.prems by (intro push_bit_word_beyond) simp
  with Suc.hyps(1) [of "Suc i"] Suc.hyps(2) Suc.prems show ?case
    by (simp add: varint_for.simps [of p i] skip_for.simps [of p i] Let_def)
qed

section \<open>Agreement with the reference decoders\<close>

lemma varint_for_parse:
  assumes "n \<le> length p"
  shows "map_option (\<lambda>(k, v). (v, drop k p)) (case varint_for p 0 n 1 of Inl r \<Rightarrow> Some r | Inr _ \<Rightarrow> None)
    = map_option (\<lambda>(v, rest). (of_nat v :: 'a :: len word, rest)) (VarintParse n p)"
  using varint_for_value [OF assms, of 0 0, where ?'a = 'a]
  by (auto split: option.splits)

lemma ReadTag_code_eq: "5 \<le> length p \<Longrightarrow> map_option (\<lambda>(k, v). (v, drop k p)) (ReadTag_code p) = ReadTag p"
  by (simp add: ReadTag_code_loop ReadTag_def varint_for_parse)

lemma ReadVarint64_code_eq:
  "10 \<le> length p \<Longrightarrow> map_option (\<lambda>(k, v). (v, drop k p)) (ReadVarint64_code p) = ReadVarint64 p"
  by (simp add: ReadVarint64_code_loop ReadVarint64_def varint_for_parse)

lemma ReadVarint32_code_eq:
  assumes "10 \<le> length p"
  shows "map_option (\<lambda>(k, v). (v, drop k p)) (ReadVarint32_code p) = ReadVarint32 p"
proof -
  have "ReadVarint32_code p = (case varint_for p 0 10 (1 :: uint32) of Inl r \<Rightarrow> Some r | Inr _ \<Rightarrow> None)"
    by (simp add: ReadVarint32_code_loop varint_for_cut [of 0 5 10] varint_for_32 split: sum.split option.split)
  with varint_for_parse [OF assms] show ?thesis by (simp add: ReadVarint32_def)
qed

text \<open>The last byte that a varint uses holds its upper bits.\<close>

lemma VarintParse_top:
  "VarintParse n p = Some (v, drop k p) \<Longrightarrow> k \<le> length p \<Longrightarrow>
     0 < k \<and> k \<le> n \<and> p ! (k - 1) < 128 \<and> v div 128 ^ (k - 1) = unat (p ! (k - 1))"
proof (induction n p arbitrary: v k rule: VarintParse.induct)
  case (3 n b bs)
  show ?case
  proof (cases "unat b < 128")
    case True
    with 3 have "drop k (b # bs) = bs" by simp
    with 3(3) have "k = 1" by (metis length_Cons length_drop diff_diff_cancel diff_Suc_Suc diff_zero Suc_diff_le le_add1 plus_1_eq_Suc One_nat_def)
    with True 3 show ?thesis by (simp add: word_less_nat_alt)
  next
    case False
    from 3(2) False obtain v' where v': "VarintParse n bs = Some (v', drop k (b # bs))" "v = unat b - 128 + 128 * v'"
      by (auto split: option.splits)
    have "length (drop k (b # bs)) < length bs" using VarintParse_shorter [OF v'(1)] .
    then obtain j where k: "k = Suc j" "0 < j" "j \<le> length bs" using 3(3) by (cases k) auto
    have "unat b - 128 < 128" using unsigned_less [of b, where ?'a = nat] by simp
    then have "v div 128 = v'" by (simp add: v')
    then have "v div 128 ^ j = v' div 128 ^ (j - 1)"
      using k(2) by (cases j) (simp_all add: div_mult2_eq)
    moreover have "0 < j \<and> j \<le> n \<and> bs ! (j - 1) < 128 \<and> v' div 128 ^ (j - 1) = unat (bs ! (j - 1))"
      using 3(1) [OF False] v'(1) k by simp
    ultimately show ?thesis using k by (simp add: nth_Cons')
  qed
qed simp_all

lemma varint_for_5:
  "varint_for p 0 5 (1 :: uint32) =
     (case varint_for p 0 4 1 of
        Inl r \<Rightarrow> Inl r
      | Inr v \<Rightarrow> let v' = v + push_bit 28 (ucast (p ! 4) - 1) in if p ! 4 < 128 then Inl (5, v') else Inr v')"
  by (simp add: varint_for_cut [of 0 4 5] varint_for.simps [of p 4] varint_for.simps [of p 5] Let_def split: sum.split)

lemma varint_for_Inl: "varint_for p i n res = Inl (k, v) \<Longrightarrow> i < k \<and> k \<le> n"
proof (induction "n - i" arbitrary: i res)
  case 0
  then show ?case by (simp add: varint_for.simps)
next
  case (Suc m)
  then show ?case using Suc.hyps(1) [of "Suc i"]
    by (fastforce simp: varint_for.simps [of p i] Let_def split: if_splits)
qed

text \<open>What \<^verbatim>\<open>ReadSize\<close> adds to a loop over five bytes is the guard.\<close>

lemma ReadSize_code_loop5:
  "ReadSize_code p =
     (case varint_for p 0 5 1 of
        Inl (k, v) \<Rightarrow> if k = 5 \<and> (8 \<le> p ! 4 \<or> 2147483631 < v) then None else Some (k, v)
      | Inr v \<Rightarrow> None)"
proof (cases "varint_for p 0 4 (1 :: uint32)")
  case (Inl r)
  obtain k v where r: "r = (k, v)" by (cases r)
  with Inl varint_for_Inl have "k \<noteq> 5" by fastforce
  with Inl r show ?thesis by (simp add: ReadSize_code_loop varint_for_5)
next
  case (Inr v)
  have "8 \<le> p ! 4" if "\<not> p ! 4 < 128" using that by (simp add: word_le_nat_alt word_less_nat_alt)
  with Inr show ?thesis by (auto simp: ReadSize_code_loop varint_for_5 Let_def)
qed

text \<open>A value below two to the 31 is not cut by the 32-bit sum, and the guard reads it.\<close>

lemma size_in_range:
  assumes "v < 2 ^ 31"
  shows "unat (of_nat v :: uint32) = v" "2147483631 < (of_nat v :: uint32) \<longleftrightarrow> 2147483631 < v"
proof -
  show "unat (of_nat v :: uint32) = v" using assms by (simp add: unsigned_of_nat take_bit_nat_eq_self)
  then show "2147483631 < (of_nat v :: uint32) \<longleftrightarrow> 2147483631 < v" by (simp add: word_less_nat_alt)
qed

lemma ReadSize_code_eq:
  assumes "10 \<le> length p"
  shows "map_option (\<lambda>(k, v). (unat v, drop k p)) (ReadSize_code p) = ReadSize p"
proof (cases "VarintParse 5 p")
  case None
  with varint_for_value [of 5 p 0 0, where ?'a = 32] assms obtain u where "varint_for p 0 5 (1 :: uint32) = Inr u" by auto
  with None show ?thesis by (simp add: ReadSize_code_loop5 ReadSize_def)
next
  case (Some a)
  obtain v rest where a: "a = (v, rest)" by (cases a)
  with Some varint_for_value [of 5 p 0 0, where ?'a = 32] assms
  obtain k where k: "varint_for p 0 5 (1 :: uint32) = Inl (k, of_nat v)" "rest = drop k p" "k \<le> 5" by auto
  from VarintParse_top [of 5 p v k] Some a k assms
  have top: "0 < k" "p ! (k - 1) < 128" "v div 128 ^ (k - 1) = unat (p ! (k - 1))" by auto
  have v: "v = 128 ^ (k - 1) * unat (p ! (k - 1)) + v mod 128 ^ (k - 1)"
    using mult_div_mod_eq [of "128 ^ (k - 1)" v] unfolding top(3) by (rule sym)
  have low: "v mod 128 ^ (k - 1) < 128 ^ (k - 1)" by simp
  have parts: "ReadSize_code p = (if k = 5 \<and> (8 \<le> p ! 4 \<or> 2147483631 < (of_nat v :: uint32)) then None else Some (k, of_nat v))"
    "ReadSize p = (if v \<le> 2147483631 then Some (v, drop k p) else None)"
    using Some a k by (simp_all add: ReadSize_code_loop5 ReadSize_def del: of_nat_add)
  show ?thesis
  proof (cases "k = 5")
    case True
    show ?thesis
    proof (cases "8 \<le> p ! 4")
      case b: True
      then have "8 \<le> unat (p ! 4)" by (simp add: word_le_nat_alt)
      with v True have "2147483631 < v" by simp
      with True b show ?thesis by (simp add: parts)
    next
      case b: False
      then have "unat (p ! 4) \<le> 7" by (simp add: word_le_nat_alt)
      with v low True have "v < 2 ^ 31" by simp
      with True b show ?thesis by (simp add: parts size_in_range not_less)
    qed
  next
    case False
    with k(3) have "k - 1 \<le> 3" by simp
    then have "(128 :: nat) ^ (k - 1) \<le> 128 ^ 3" by (intro power_increasing) simp_all
    moreover have "unat (p ! (k - 1)) \<le> 127" using top(2) by (simp add: word_less_nat_alt)
    ultimately have "128 ^ (k - 1) * unat (p ! (k - 1)) \<le> 128 ^ 3 * 127" by (rule mult_le_mono)
    with v low \<open>(128 :: nat) ^ (k - 1) \<le> 128 ^ 3\<close> have "v \<le> 128 ^ 3 * 127 + 128 ^ 3" by linarith
    with False show ?thesis by (simp add: parts size_in_range)
  qed
qed

lemma ReadVarint64_code_write:
  assumes "10 \<le> length p"
  shows "ReadVarint64_code (UnsafeVarint (unat w) @ p) = Some (VarintSize64 w, w)"
proof -
  let ?q = "UnsafeVarint (unat w) @ p"
  have "map_option (\<lambda>(k, v). (v, drop k ?q)) (ReadVarint64_code ?q) = Some (w, p)"
    using assms by (subst ReadVarint64_code_eq) (simp_all add: ReadVarint64_write)
  then obtain k where k: "ReadVarint64_code ?q = Some (k, w)" "drop k ?q = p"
    by (auto simp del: drop_append)
  then have "k \<le> 10" using varint_for_Inl [of ?q 0 10 1 k w]
    by (auto simp: ReadVarint64_code_loop split: sum.splits)
  moreover have "length (drop k ?q) = length p" by (simp only: k(2))
  ultimately have "k = length (UnsafeVarint (unat w))" using assms by simp
  with k(1) show ?thesis by (simp add: length_UnsafeVarint VarintSize64_eq)
qed

section \<open>Properties\<close>

text \<open>
  C18. The varint decoders compute what they should. As they are written, they add up shifted
  bytes minus one in 32-bit or 64-bit arithmetic that wraps, with the first bytes unrolled; on
  any bytes of which ten are readable they return the value and the position that decoding the
  groups of seven bits over the natural numbers gives (at most five groups for a tag or a size,
  ten for a value, cut to the width of the type), and fail where that fails: a varint that does
  not end, a size beyond 2147483631. They read back what the runtime writes for a 64-bit
  value, whatever follows. The size functions, which multiply the position of the highest bit
  by 9 and divide by 64 instead of dividing by 7, count exactly the bytes that are written, at
  most ten for 64 bits and five for 32, also for a negative 32-bit value, which is sign extended.
\<close>

theorem varint_codec:
  assumes "10 \<le> length p"
  shows "map_option (\<lambda>(k, v). (v, drop k p)) (ReadVarint32_code p) = ReadVarint32 p
    \<and> map_option (\<lambda>(k, v). (v, drop k p)) (ReadVarint64_code p) = ReadVarint64 p
    \<and> map_option (\<lambda>(k, v). (v, drop k p)) (ReadTag_code p) = ReadTag p
    \<and> map_option (\<lambda>(k, v). (unat v, drop k p)) (ReadSize_code p) = ReadSize p
    \<and> ReadVarint64_code (UnsafeVarint (unat w) @ p) = Some (VarintSize64 w, w)
    \<and> length (UnsafeVarint (unat w)) = VarintSize64 w \<and> VarintSize64 w \<le> 10
    \<and> length (UnsafeVarint (unat (v :: uint32))) = VarintSize32 v \<and> VarintSize32 v \<le> 5
    \<and> length (UnsafeVarint (unat (scast v :: uint64))) = VarintSize32SignExtended v"
proof -
  have "unat w < 128 ^ 10" "unat v < 128 ^ 5"
    using unsigned_less [of w, where ?'a = nat] unsigned_less [of v, where ?'a = nat] by simp_all
  then show ?thesis
    using VarintSize_le [of "unat w" 10] VarintSize_le [of "unat v" 5] assms
    by (simp add: ReadVarint32_code_eq ReadVarint64_code_eq ReadTag_code_eq ReadSize_code_eq ReadVarint64_code_write
        length_UnsafeVarint VarintSize64_eq VarintSize32_eq VarintSize32SignExtended_eq)
qed

theorem varint_codec_witness:
  "map_option (\<lambda>(k, v). (v, drop k [172 :: byte, 2, 0, 0, 0, 0, 0, 0, 0, 0])) (ReadTag_code [172, 2, 0, 0, 0, 0, 0, 0, 0, 0])
     = Some (300, [0, 0, 0, 0, 0, 0, 0, 0])"
proof -
  have "ReadTag [172, 2, 0, 0, 0, 0, 0, 0, 0, 0] = Some (300, [0, 0, 0, 0, 0, 0, 0, 0])" by code_simp
  then show ?thesis
    using varint_codec [of "[172, 2, 0, 0, 0, 0, 0, 0, 0, 0]" 0 0] by (simp only: list.size)
qed

end
