(* ===== verification/Server_Steps.thy ===== *)
theory Server_Steps
  imports Receive_Stream Game_Handlers
begin

text \<open>
  The running game server as a transition system. After \<^verbatim>\<open>main\<close> of \<^verbatim>\<open>GameServer.cpp\<close> has started
  everything, the process only reacts: the io threads run completion handlers, the workers of the
  router and of the task queue run their rounds, and the last reference to a session gives it
  back to the pool. An event is one of these; a run is a sequence of events that were enabled.

  The lemmas: what a message handler leaves alone.
\<close>

section \<open>Events\<close>

text \<open>
  \<open>Accepted ec mem\<close>: an accept completes (\<open>mem\<close> is the memory of a session that would have to be
  allocated). \<open>Received s chunk\<close> and \<open>Receive_failed s r\<close>: the read of a session completes.
  \<open>Written i ec len\<close>: the \<open>i\<close>-th of the outstanding writes completes. \<open>Task_round\<close> and
  \<open>Worker_round w\<close>: a round of a worker of the task queue, of worker \<open>w\<close> of the router.
  \<open>Released s\<close>: the last reference to a session goes.
\<close>

datatype event =
    Accepted bool int
  | Received session_ptr "byte list"
  | Receive_failed session_ptr read_result
  | Written nat bool int
  | Task_round
  | Worker_round nat
  | Released session_ptr

text \<open>
  What keeps a session alive: the two tables (the manager has it under its own UID), its read,
  its writes, and the players that it owns. A player holds its session by a shared pointer and
  the session holds the player, so that neither goes before the other.
\<close>

definition referenced :: "session_ptr \<Rightarrow> Game \<Rightarrow> bool" where
  "referenced s g \<longleftrightarrow>
     s \<in> set (m_Sessions (c_service g)) \<or> c_manager g (uid_of g s) = Some s
     \<or> (case c_heap g s of None \<Rightarrow> False | Some x \<Rightarrow> m_ReadPending x)
     \<or> s \<in> fst ` set (c_writes g) \<or> (\<exists>p \<in> set (g_players g). ownerSession p = Some s)"

fun event_enabled :: "event \<Rightarrow> Game \<Rightarrow> bool" where
  "event_enabled (Accepted ec mem) g = ac_open (c_acceptor g)"
| "event_enabled (Received s chunk) g =
     (case c_heap g s of
        None \<Rightarrow> False
      | Some x \<Rightarrow> m_ReadPending x \<and> chunk \<noteq> [] \<and> int (length chunk) \<le> PacketBuffer_FreeSize (m_PacketBuffer x))"
| "event_enabled (Receive_failed s r) g =
     (case c_heap g s of None \<Rightarrow> False | Some x \<Rightarrow> m_ReadPending x \<and> r \<noteq> Read_ok)"
| "event_enabled (Written i ec len) g = (i < length (c_writes g))"
| "event_enabled Task_round g = True"
| "event_enabled (Worker_round w) g = (\<lparr>pp_Id = int w, pp_ProcessQueue = w\<rparr> \<in> set (r_WorkerThreads (c_router g)))"
| "event_enabled (Released s) g = (c_heap g s \<noteq> None \<and> s \<notin> set (g_pool g) \<and> \<not> referenced s g)"

text \<open>The logger of the server writes debug records, see \<^verbatim>\<open>plog::init\<close> in \<^verbatim>\<open>main\<close>.\<close>

fun server_event :: "Env \<Rightarrow> event \<Rightarrow> Game \<Rightarrow> Game run" where
  "server_event env (Accepted ec mem) g =
     Some (bindR (AsioAcceptor_HandleAccept GameSession_OnConnected (game_maker True mem) ec g) (\<lambda>(_, g'). Inr g'))"
| "server_event env (Received s chunk) g = read_completes chunk s g"
| "server_event env (Receive_failed s r) g =
     AsioSession_HandleRead r 0 s (upd_sess s (\<lambda>y. y\<lparr>m_ReadPending := False\<rparr>) g)"
| "server_event env (Written i ec len) g =
     (let (s, packet) = c_writes g ! i
      in Some (AsioSession_HandleWrite GameSession_OnSend ec len s (Some packet)
                 (g\<lparr>c_writes := take i (c_writes g) @ drop (Suc i) (c_writes g)\<rparr>)))"
| "server_event env Task_round g =
     Some (case TaskQueue_WorkerThread (c_tasks g) of
             (None, q) \<Rightarrow> Inr (g\<lparr>c_tasks := q\<rparr>)
           | (Some task, q) \<Rightarrow> TaskQueue_ProcessIoTask GameSession_OnDisconnected task (g\<lparr>c_tasks := q\<rparr>))"
| "server_event env (Worker_round w) g =
     Some (bindR (PacketWorker_round (PacketHandler_HandlePacket env) \<lparr>pp_Id = int w, pp_ProcessQueue = w\<rparr> g)
             (\<lambda>(_, g'). Inr g'))"
| "server_event env (Released s) g = Some (Inr (game_recycle s g))"

inductive server_run :: "Env \<Rightarrow> Game \<Rightarrow> event list \<Rightarrow> Game \<Rightarrow> bool" for env g where
  started: "server_run env g [] g"
| event: "server_run env g es g1 \<Longrightarrow> event_enabled e g1 \<Longrightarrow> server_event env e g1 = Some (Inr g2)
    \<Longrightarrow> server_run env g (es @ [e]) g2"

inductive_simps server_run_Nil [simp]: "server_run env g [] g'"
inductive_cases server_run_snocE: "server_run env g (es @ [e]) g'"

section \<open>What a message handler leaves alone\<close>

text \<open>Sessions up to their players.\<close>

definition bare :: "GameSession option \<Rightarrow> GameSession option" where
  "bare = map_option (m_Player_update (\<lambda>_. []))"

text \<open>
  A handler for session \<open>s\<close> changes players and rooms, the packet pool, and \<open>m_Player\<close> of sessions;
  it starts writes on \<open>s\<close> and on the sessions of players; new players belong to \<open>s\<close>, and a session
  that owned a player still owns one.
\<close>

definition may_write :: "session_ptr \<Rightarrow> Game \<Rightarrow> session_ptr \<Rightarrow> bool" where
  "may_write s g t \<longleftrightarrow> t = s \<or> (\<exists>q \<in> set (g_players g). ownerSession q = Some t)"

definition handler_frame :: "session_ptr \<Rightarrow> Game \<Rightarrow> Game \<Rightarrow> bool" where
  "handler_frame s g g' \<longleftrightarrow>
     c_manager g' = c_manager g \<and> c_tasks g' = c_tasks g \<and> c_router g' = c_router g \<and> c_buffers g' = c_buffers g
     \<and> c_service g' = c_service g \<and> c_acceptor g' = c_acceptor g \<and> g_pool g' = g_pool g
     \<and> (\<forall>t. bare (c_heap g' t) = bare (c_heap g t))
     \<and> (\<exists>ws. c_writes g' = c_writes g @ ws \<and> (\<forall>w \<in> set ws. c_heap g (fst w) \<noteq> None \<and> may_write s g (fst w)))
     \<and> (\<forall>p \<in> set (g_players g'). ownerSession p = Some s \<or> (\<exists>q \<in> set (g_players g). ownerSession q = ownerSession p))
     \<and> (\<forall>q \<in> set (g_players g). \<exists>p \<in> set (g_players g'). ownerSession p = ownerSession q)"

lemma bare_None [simp]: "bare h = None \<longleftrightarrow> h = None" "None = bare h \<longleftrightarrow> h = None"
  by (auto simp: bare_def)

lemma handler_frame_refl [simp]: "handler_frame s g g"
  by (auto simp: handler_frame_def)

lemma handler_frame_trans: "handler_frame s g1 g2 \<Longrightarrow> handler_frame s g2 g3 \<Longrightarrow> handler_frame s g1 g3"
proof -
  assume h: "handler_frame s g1 g2" "handler_frame s g2 g3"
  then have alive: "c_heap g2 t \<noteq> None \<longleftrightarrow> c_heap g1 t \<noteq> None" for t
    by (metis handler_frame_def bare_None(1))
  have may: "may_write s g2 t \<Longrightarrow> may_write s g1 t" for t
    using h(1) unfolding handler_frame_def may_write_def by (metis option.inject)
  obtain ws ws' where ws: "c_writes g2 = c_writes g1 @ ws" "\<forall>w \<in> set ws. c_heap g1 (fst w) \<noteq> None \<and> may_write s g1 (fst w)"
    "c_writes g3 = c_writes g2 @ ws'" "\<forall>w \<in> set ws'. c_heap g2 (fst w) \<noteq> None \<and> may_write s g2 (fst w)"
    using h unfolding handler_frame_def by blast
  have "c_writes g3 = c_writes g1 @ (ws @ ws')" "\<forall>w \<in> set (ws @ ws'). c_heap g1 (fst w) \<noteq> None \<and> may_write s g1 (fst w)"
    using ws alive may by (simp, metis Un_iff set_append)
  then have "\<exists>ws. c_writes g3 = c_writes g1 @ ws \<and> (\<forall>w \<in> set ws. c_heap g1 (fst w) \<noteq> None \<and> may_write s g1 (fst w))" by blast
  moreover have "\<forall>p \<in> set (g_players g3). ownerSession p = Some s \<or> (\<exists>q \<in> set (g_players g1). ownerSession q = ownerSession p)"
    using h unfolding handler_frame_def by metis
  moreover have "\<forall>q \<in> set (g_players g1). \<exists>p \<in> set (g_players g3). ownerSession p = ownerSession q"
    using h unfolding handler_frame_def by metis
  ultimately show ?thesis using h by (simp add: handler_frame_def)
qed

lemma handler_frame_pool [simp]: "handler_frame s g (g\<lparr>c_pool := p\<rparr>)"
  by (auto simp: handler_frame_def)

lemma Send_frame: "AsioSession_Send t p g = Inr g' \<Longrightarrow> may_write s g t \<Longrightarrow> handler_frame s g g'"
  by (auto simp: AsioSession_Send_def Let_def split_beta bindR_Inr_iff the_or_def handler_frame_def split: option.splits)

lemma send_then_frame: "send_then s a p g = Inr (b, g') \<Longrightarrow> handler_frame s g g'"
  by (auto simp: send_then_def bindR_Inr_iff may_write_def intro: Send_frame)

lemma broadcast_frame: "broadcast_to p ms g = Inr g' \<Longrightarrow> handler_frame s g g'"
proof (induction p ms g rule: broadcast_to.induct)
  case (2 packet k player rest g)
  from "2.prems" obtain packetCopy p t g1 where d: "deref (g_players g) player = Inr p" "ownerSession p = Some t"
    "AsioSession_Send t packetCopy g = Inr g1" "broadcast_to packet rest g1 = Inr g'" "Packet_copy packet = Inr packetCopy"
    by (auto simp: bindR_Inr_iff the_or_def split: option.splits)
  have "may_write s g t" using d(1,2) by (auto simp: may_write_def deref_Inr_iff intro: nth_mem)
  then have "handler_frame s g g1" using d(3) by (intro Send_frame)
  moreover have "handler_frame s g1 g'" using "2.IH" d by auto
  ultimately show ?case by (rule handler_frame_trans)
qed simp

lemma with_packet_frame:
  assumes "with_packet env ty n bytes k g = Inr (a, g')"
    "\<And>p g1 b g2. k p g1 = Inr (b, g2) \<Longrightarrow> handler_frame s g1 g2"
  shows "handler_frame s g g'"
  using assms handler_frame_trans [OF handler_frame_pool] by (fastforce simp: with_packet_def bindR_Inr_iff)

lemma set_list_update_owner:
  assumes "deref ps i = Inr p" "ownerSession p' = ownerSession p"
  shows "\<forall>q \<in> set (ps[i := p']). \<exists>r \<in> set ps. ownerSession r = ownerSession q"
  using assms by (auto simp: deref_def dest!: set_update_subset_insert [THEN subsetD] split: if_splits)

lemma list_update_owner_kept:
  assumes "deref ps i = Inr p" "ownerSession p' = ownerSession p"
  shows "\<forall>q \<in> set ps. \<exists>r \<in> set (ps[i := p']). ownerSession r = ownerSession q"
proof
  fix q assume "q \<in> set ps"
  then obtain j where j: "j < length ps" "ps ! j = q" by (auto simp: in_set_conv_nth)
  then have "ownerSession (ps[i := p'] ! j) = ownerSession q"
    using assms by (cases "j = i") (auto simp: deref_Inr_iff)
  with j(1) show "\<exists>r \<in> set (ps[i := p']). ownerSession r = ownerSession q"
    by (intro bexI [of _ "ps[i := p'] ! j"] nth_mem) simp_all
qed

lemma Enter_frame: "HandleEnterChatRoomReq env (Some s) m g = Inr (a, g') \<Longrightarrow> handler_frame s g g'"
proof -
  assume "HandleEnterChatRoomReq env (Some s) m g = Inr (a, g')"
  then obtain player p r room room' packet where d: "deref (g_players g) player = Inr p"
    "with_packet env EnterChatRoomAck_t (EnterChatRoomAck_ByteSizeLong packet) (EnterChatRoomAck_Serialize packet) (send_then s None)
       (g\<lparr>g_players := (g_players g)[player := p\<lparr>m_ChatRoomID := room\<rparr>], g_rooms := (g_rooms g)[r := room']\<rparr>)
     = Inr (a, g')"
    by (auto simp: HandleEnterChatRoomReq_def Let_def bindR_Inr_iff)
  have "handler_frame s g (g\<lparr>g_players := (g_players g)[player := p\<lparr>m_ChatRoomID := room\<rparr>], g_rooms := (g_rooms g)[r := room']\<rparr>)"
    using set_list_update_owner [OF d(1), of "p\<lparr>m_ChatRoomID := room\<rparr>"] list_update_owner_kept [OF d(1), of "p\<lparr>m_ChatRoomID := room\<rparr>"]
    by (simp add: handler_frame_def)
  then show ?thesis by (rule handler_frame_trans [OF _ with_packet_frame [OF d(2) send_then_frame]])
qed

lemma Login_frame: "HandleLoginReq env (Some s) m g = Inr (a, g') \<Longrightarrow> handler_frame s g g'"
proof -
  let ?g = "\<lambda>p. upd_sess s (\<lambda>y. y\<lparr>m_Player := m_Player y @ [length (g_players g)]\<rparr>) (g\<lparr>g_players := g_players g @ [p]\<rparr>)"
  let ?p = "\<lambda>x :: GameSession. Player_new\<lparr>m_PlayerUID := word_of_int (m_SessionUID x), ownerSession := Some s, m_Name := login_req_id m\<rparr>"
  let ?m = "\<lparr>login_ack_success = True, login_ack_userid = login_req_id m\<rparr>"
  assume "HandleLoginReq env (Some s) m g = Inr (a, g')"
  then obtain x where d: "with_packet env LoginAck_t (LoginAck_ByteSizeLong ?m) (LoginAck_Serialize ?m)
       (send_then s (Some True)) (?g (?p x)) = Inr (a, g')"
    by (auto simp: HandleLoginReq_def Let_def bindR_Inr_iff)
  have "handler_frame s g (?g (?p x))"
    by (auto simp: handler_frame_def bare_def option.map_comp comp_def)
  then show ?thesis by (rule handler_frame_trans [OF _ with_packet_frame [OF d send_then_frame]])
qed

lemma List_frame: "HandleChatRoomListReq env (Some s) m g = Inr (a, g') \<Longrightarrow> handler_frame s g g'"
  using with_packet_frame send_then_frame by (fastforce simp: HandleChatRoomListReq_def bindR_Inr_iff)

lemma Create_frame: "HandleCreateChatRoomReq env (Some s) m g = Inr (a, g') \<Longrightarrow> handler_frame s g g'"
proof -
  assume "HandleCreateChatRoomReq env (Some s) m g = Inr (a, g')"
  then obtain player p rid mm rooms packet where d: "deref (g_players g) player = Inr p"
    "with_packet env EnterChatRoomAck_t (EnterChatRoomAck_ByteSizeLong packet) (EnterChatRoomAck_Serialize packet) (send_then s None)
       (g\<lparr>g_manager := mm, g_rooms := rooms, g_players := (g_players g)[player := p\<lparr>m_ChatRoomID := rid\<rparr>]\<rparr>) = Inr (a, g')"
    by (auto simp: HandleCreateChatRoomReq_def Let_def bindR_Inr_iff)
  have "handler_frame s g (g\<lparr>g_manager := mm, g_rooms := rooms, g_players := (g_players g)[player := p\<lparr>m_ChatRoomID := rid\<rparr>]\<rparr>)"
    using set_list_update_owner [OF d(1), of "p\<lparr>m_ChatRoomID := rid\<rparr>"] list_update_owner_kept [OF d(1), of "p\<lparr>m_ChatRoomID := rid\<rparr>"]
    by (simp add: handler_frame_def)
  then show ?thesis by (rule handler_frame_trans [OF _ with_packet_frame [OF d(2) send_then_frame]])
qed

lemma Chat_frame: "HandleChatReq env (Some s) m g = Inr (a, g') \<Longrightarrow> handler_frame s g g'"
proof -
  assume h: "HandleChatReq env (Some s) m g = Inr (a, g')"
  then obtain packet sel where d: "with_packet env ChatAck_t (ChatAck_ByteSizeLong packet) (ChatAck_Serialize packet)
       (\<lambda>sendPacket g1. bindR (the_or NullDeref sel) (\<lambda>r. bindR (deref (g_rooms g1) r) (\<lambda>room.
          bindR (Packet_copy sendPacket) (\<lambda>argument.
          bindR (ChatRoom_BroadCast argument room g1) (\<lambda>g2. Inr (None, g2)))))) g = Inr (a, g')"
    by (auto simp: HandleChatReq_def Let_def bindR_Inr_iff)
  show ?thesis
    by (rule with_packet_frame [OF d]) (auto simp: bindR_Inr_iff ChatRoom_BroadCast_def intro: broadcast_frame)
qed

lemma Dummy_frame: "HandleDummyPacketReq env (Some s) m g = Inr (a, g') \<Longrightarrow> handler_frame s g g'"
  using with_packet_frame send_then_frame by (fastforce simp: HandleDummyPacketReq_def Let_def)

lemma Refresh_frame: "HandleRefreshChatRoomReq env (Some s) m g = Inr (a, g') \<Longrightarrow> handler_frame s g g'"
  by (simp add: HandleRefreshChatRoomReq_def)

lemmas handler_frames = Enter_frame Login_frame List_frame Create_frame Chat_frame Dummy_frame Refresh_frame

lemma parse_frame:
  assumes "HandlePacket_parse parse f buffer len g = Inr (a, g')" "\<And>m. f m g = Inr (a, g') \<Longrightarrow> handler_frame s g g'"
  shows "handler_frame s g g'"
  using assms by (auto simp: HandlePacket_parse_def split: if_splits option.splits)

lemma HandlePacket_frame:
  assumes "PacketHandler_HandlePacket env (Some s) buffer len g = Inr (a, g')"
  shows "handler_frame s g g'"
proof -
  from assms obtain ty h where "call_table (GPacketHadler env) ty = Inr h" "h (Some s) buffer len g = Inr (a, g')"
    by (auto simp: PacketHandler_HandlePacket_def HandlePacket_by_def bindR_Inr_iff)
  then show ?thesis
    by (auto simp: call_table_def GPacketHadler_def split: if_splits option.splits
        elim!: parse_frame intro: handler_frames)
qed

end
