(* ===== verification/Receive_Total.thy ===== *)
theory Receive_Total
  imports Receive_Stream Session_Hooks
begin

text \<open>
  The receive path on any input. \<open>Receive_Path\<close> follows the bytes as long as the buffer of the
  session is not filled beyond nine tenths; here nothing is assumed about what arrives: the
  buffer may overflow, or be rewound with bytes still in it. What a read then changes is known;
  it hangs exactly when the framing does, and faults exactly when the rewinding copies more
  bytes than lie in front of them.
\<close>

section \<open>The invariant of the receive buffers\<close>

definition buf_ok :: "PacketBuffer \<Rightarrow> bool" where
  "buf_ok b \<longleftrightarrow> pb_inv b \<and> m_BufferSize b = 65536 \<and> m_ReadPos b < 655360 \<and> \<not> frame_ready (pb.bb_bytes b)"

definition recv_ok :: "('s, 'z) Core_scheme \<Rightarrow> bool" where
  "recv_ok c \<longleftrightarrow> router_inv (c_router c) \<and> (\<forall>k b. c_buffers c k = Some b \<longrightarrow> buf_ok b)"

lemma recv_ok_inv: "recv_ok c \<Longrightarrow> recv_inv c"
  by (auto simp: recv_ok_def recv_inv_def buf_ok_def)

lemma empty_buf_ok: "pb_inv b \<Longrightarrow> pb_empty b \<Longrightarrow> m_BufferSize b = 65536 \<Longrightarrow> buf_ok b"
  by (simp add: buf_ok_def pb_empty_def pb.bb_bytes_def between_def frame_ready_def)

text \<open>Rewinding copies to the front what may reach back to itself.\<close>

definition overlaps :: "PacketBuffer \<Rightarrow> bool" where
  "overlaps b \<longleftrightarrow> 589824 < m_WritePos b \<and> m_ReadPos b < m_WritePos b - m_ReadPos b"

lemma Clear_overlaps:
  assumes "pb_inv b" "m_BufferSize b = 65536" "overlaps b"
  shows "PacketBuffer_Clear b = Inl Overlap"
proof -
  note I = pb_invD [OF assms(1)]
  have lt: "m_ReadPos b < m_WritePos b" "589824 < m_WritePos b" "m_ReadPos b < m_WritePos b - m_ReadPos b"
    using assms(3) I by (simp_all add: overlaps_def)
  have pos: "PacketBuffer_ReadPos b = Inr (m_ReadPos b)"
    using I lt by (simp add: PacketBuffer_ReadPos_def subscript_def in_vec_def)
  have "memcpy_within (m_Buffer b) 0 (m_ReadPos b) (m_WritePos b - m_ReadPos b) = Inl Overlap"
    using I lt by (simp add: memcpy_within_def)
  moreover have "subscript (m_Buffer b) 0 = Inr (m_Buffer b ! 0)" using I lt by (simp add: subscript_def in_vec_def)
  ultimately show ?thesis using assms(1,2) I lt by (simp add: PacketBuffer_Clear_def pos)
qed

lemma Clear_total:
  assumes "pb_inv b" "m_BufferSize b = 65536" "\<not> frame_ready (pb.bb_bytes b)" "\<not> overlaps b"
  obtains b' where "PacketBuffer_Clear b = Inr b'" "buf_ok b'"
proof (cases "pending b = []")
  case True
  then show thesis using Clear_nothing_pending [OF assms(1)] empty_buf_ok assms(2) that by metis
next
  case False
  note I = pb_invD [OF assms(1)]
  show thesis
  proof (cases "m_WritePos b \<le> 9 * m_BufferSize b")
    case True
    have "m_ReadPos b \<noteq> m_WritePos b" using False assms(1) by (simp add: pending_Nil_iff)
    then have "m_ReadPos b < 655360" using I True assms(2) by simp
    then show thesis using Clear_room_left [OF assms(1) False True] assms by (intro that) (simp_all add: buf_ok_def)
  next
    case full: False
    then have "int (length (pending b)) \<le> m_ReadPos b"
      using length_pending [OF assms(1)] assms(2,4) by (simp add: overlaps_def)
    then obtain b' where b': "PacketBuffer_Clear b = Inr b'" "pb_empty b'"
      using Clear_compacting [OF assms(1) False] full by (metis not_le)
    then show thesis using Clear_no_fault_inv [OF assms(1)] empty_buf_ok assms(2) that by metis
  qed
qed

section \<open>Cutting on any buffer\<close>

lemma frames_Nil_iff: "\<not> stalls bs \<Longrightarrow> frames bs = [] \<longleftrightarrow> \<not> frame_ready bs"
  by (metis frames_stop frames_step leftover_not_ready leftover.simps list.distinct(1) stalls_zero gr0I)

lemma ProcessSessionBuffer_total:
  assumes r: "router_inv (c_router c)" and x: "c_heap c s = Some x" and u: "u = m_SessionUID x" "0 \<le> u"
    and b: "c_buffers c u = Some b" "pb_inv b" "m_BufferSize b = 65536" "m_ReadPos b < 655360" and bs: "bs = pb.bb_bytes b"
  defines "n \<equiv> length (concat (frames bs))"
  defines "over \<equiv> frames bs \<noteq> [] \<and> overlaps (b\<lparr>m_ReadPos := m_ReadPos b + int n\<rparr>)"
  shows "stalls bs \<Longrightarrow> SessionPacketBuffer_ProcessSessionBuffer (Some s) c = None"
    "\<not> stalls bs \<Longrightarrow> over \<Longrightarrow> SessionPacketBuffer_ProcessSessionBuffer (Some s) c = Some (Inl Overlap)"
    "\<not> stalls bs \<Longrightarrow> \<not> over \<Longrightarrow> \<exists>b'. SessionPacketBuffer_ProcessSessionBuffer (Some s) c
       = Some (Inr (c\<lparr>c_router := push_items u (frame_items u (u, m_ReadPos b) (frames bs)) (c_router c),
                      c_buffers := (c_buffers c)(u \<mapsto> b')\<rparr>)) \<and> buf_ok b'"
proof -
  note I = pb_invD [OF b(2)]
  have pos: "PacketBuffer_ReadPos b = Inr (m_ReadPos b)"
    using I b(3,4) by (simp add: PacketBuffer_ReadPos_def subscript_def in_vec_def)
  let ?mem = "drop (nat (m_ReadPos b)) (m_Buffer b)"
  let ?d = "m_WritePos b - m_ReadPos b"
  have win: "take (nat ?d) ?mem = bs"
    using I b(2) by (simp add: bs pb.bb_bytes_def between_def nat_diff_distrib)
  let ?items = "frame_items u (u, m_ReadPos b) (frames bs)"
  note ends = ProcessPacket_ends [of ?d ?mem "c_router c" u "(u, m_ReadPos b)", unfolded win]
  show "SessionPacketBuffer_ProcessSessionBuffer (Some s) c = None" if "stalls bs"
    using ProcessPacket_diverges [of ?d ?mem "c_router c" u "(u, m_ReadPos b)", unfolded win] I r u(2) that x u(1) b(1,2) pos
    by (simp add: SessionPacketBuffer_ProcessSessionBuffer_def Let_def)
  assume ns: "\<not> stalls bs"
  have run: "AsioSession_ProcessPacket u (u, m_ReadPos b) ?mem (PacketBuffer_DataSize b) (c_router c)
    = Some (Inr (int n, push_items u ?items (c_router c)))"
    using ends I r u(2) ns b(2) by (simp add: n_def)
  let ?b1 = "b\<lparr>m_ReadPos := m_ReadPos b + int n\<rparr>"
  have n: "n \<le> length (pb.bb_bytes b)" using length_frames [of bs] bs by (simp add: n_def)
  obtain b1 where b1: "PacketBuffer_OnRead (int n) b = (True, b1)" "pb_inv b1" "pb.bb_bytes b1 = drop n (pb.bb_bytes b)"
    by (rule pb.skip_bytes [OF b(2) n])
  have nw: "int n \<le> m_WritePos b - m_ReadPos b" using n pb.length_bytes [OF b(2)] by simp
  then have "i32 (m_ReadPos b + int n) = m_ReadPos b + int n" using I by (intro i32_id) auto
  then have b1_eq: "b1 = ?b1" using b1(1) nw b(2) by (simp add: PacketBuffer_OnRead_def)
  have rest: "drop n bs = leftover bs" unfolding n_def by (metis concat_frames append_eq_conv_conj)
  have pos_n: "frames bs \<noteq> [] \<longleftrightarrow> 0 < n"
  proof (cases "frame_ready bs")
    case True
    then have "0 < frame_size bs" "frame_size bs \<le> length bs" using stalls_zero ns by (auto intro: gr0I simp: frame_ready_def)
    then show ?thesis by (simp add: n_def frames_step [OF True])
  qed (simp add: n_def frames_stop)
  have proc: "SessionPacketBuffer_ProcessSessionBuffer (Some s) c =
      (let c1 = c\<lparr>c_router := push_items u ?items (c_router c)\<rparr>
       in if n = 0 then Some (Inr c1)
          else bindO (Some (PacketBuffer_Clear ?b1)) (\<lambda>b2. Some (Inr (c1\<lparr>c_buffers := (c_buffers c1)(u \<mapsto> b2)\<rparr>))))"
    using x u(1) b(1) pos run b1(1) by (simp add: SessionPacketBuffer_ProcessSessionBuffer_def Let_def b1_eq)
  show "SessionPacketBuffer_ProcessSessionBuffer (Some s) c = Some (Inl Overlap)" if over
    using that pos_n Clear_overlaps [of ?b1] b1(2) b(3) by (simp add: proc over_def b1_eq Let_def)
  show "\<exists>b'. SessionPacketBuffer_ProcessSessionBuffer (Some s) c
       = Some (Inr (c\<lparr>c_router := push_items u ?items (c_router c), c_buffers := (c_buffers c)(u \<mapsto> b')\<rparr>)) \<and> buf_ok b'" if no: "\<not> over"
  proof (cases "frames bs = []")
    case True
    have "buf_ok b" using b True frames_Nil_iff [OF ns] by (simp add: buf_ok_def bs)
    moreover have "(c_buffers c)(u \<mapsto> b) = c_buffers c" using b(1) by auto
    ultimately show ?thesis using True pos_n by (intro exI [of _ b]) (simp add: proc)
  next
    case False
    have "\<not> frame_ready (pb.bb_bytes ?b1)" using b1(3) rest leftover_not_ready [OF ns] by (simp add: b1_eq bs)
    moreover have "pb_inv ?b1" "m_BufferSize ?b1 = 65536" using b1(2) b(3) by (simp_all add: b1_eq)
    ultimately obtain b' where "PacketBuffer_Clear ?b1 = Inr b'" "buf_ok b'"
      using Clear_total [of ?b1] no False by (auto simp: over_def)
    then show ?thesis using False pos_n by (intro exI [of _ b']) (simp add: proc Let_def)
  qed
qed

section \<open>One chunk, with or without room\<close>

text \<open>What \<open>ProcessDisconnect\<close> may have done to a session.\<close>

definition disc_effect :: "session_ptr \<Rightarrow> ('s, 'z) Core_scheme \<Rightarrow> ('s, 'z) Core_scheme \<Rightarrow> bool" where
  "disc_effect s c c' \<longleftrightarrow>
     (\<exists>x. c_heap c s = Some x
        \<and> (c_heap c' = c_heap c \<and> c_tasks c' = c_tasks c
          \<or> m_NetState x \<noteq> NetState_Disconnect \<and> c_heap c' = (c_heap c)(s \<mapsto> x\<lparr>m_NetState := NetState_Disconnect\<rparr>)
            \<and> c_tasks c' = TaskQueue_PushTask (m_SessionUID x) NetState_Disconnect (c_tasks c)))"

definition core_same :: "('s, 'z) Core_scheme \<Rightarrow> ('s, 'z) Core_scheme \<Rightarrow> bool" where
  "core_same c c' \<longleftrightarrow> c_manager c' = c_manager c \<and> c_service c' = c_service c \<and> c_acceptor c' = c_acceptor c
     \<and> c_writes c' = c_writes c \<and> Core.more c' = Core.more c"

lemma ProcessDisconnect_effect:
  assumes "c_heap c s = Some x"
  obtains c' where "AsioSession_ProcessDisconnect s c = Inr c'" "disc_effect s c c'" "core_same c c'"
    "c_router c' = c_router c" "c_buffers c' = c_buffers c"
proof (cases "m_NetState x = NetState_Disconnect")
  case True
  then show thesis using assms that [of c] by (simp add: ProcessDisconnect_done disc_effect_def core_same_def)
next
  case False
  then show thesis
    by (intro that [OF ProcessDisconnect_first [OF assms]]) (use assms in \<open>auto simp: disc_effect_def core_same_def upd_sess_def\<close>)
qed

text \<open>The bytes that are cut after a chunk has arrived: a chunk for which there is no room is lost.\<close>

definition chunk_fits :: "('s, 'z) Core_scheme \<Rightarrow> int \<Rightarrow> byte list \<Rightarrow> bool" where
  "chunk_fits c u chunk \<longleftrightarrow> recv_wpos c u + int (length chunk) \<le> 655360"

definition chunk_stalls :: "('s, 'z) Core_scheme \<Rightarrow> int \<Rightarrow> byte list \<Rightarrow> bool" where
  "chunk_stalls c u chunk \<longleftrightarrow> chunk_fits c u chunk \<and> stalls (recv_pending c u @ chunk)"

text \<open>
  Complete packets are taken out, the rest ends in the last tenth of the buffer, and is longer
  than what lies in front of it.
\<close>

definition chunk_overlaps :: "('s, 'z) Core_scheme \<Rightarrow> int \<Rightarrow> byte list \<Rightarrow> bool" where
  "chunk_overlaps c u chunk \<longleftrightarrow>
     (let w = recv_wpos c u + int (length chunk); fs = frames (recv_pending c u @ chunk);
          r = recv_rpos c u + int (length (concat fs))
      in chunk_fits c u chunk \<and> fs \<noteq> [] \<and> 589824 < w \<and> r < w - r)"

lemma AddData_full:
  assumes inv: "recv_ok c" and x: "c_heap c s = Some x" and u: "u = m_SessionUID x"
    and chunk: "chunk \<noteq> []" "length chunk \<le> 655360" and full: "\<not> chunk_fits c u chunk"
  obtains b where "c_buffers c u = Some b" "buf_ok b"
    "SessionPacketBuffer_AddData (Some s) (Some chunk) (length chunk) c = AsioSession_ProcessDisconnect s c"
proof -
  obtain b where b: "c_buffers c u = Some b"
    using full chunk(2) by (cases "c_buffers c u") (simp_all add: chunk_fits_def recv_wpos_def)
  then have ok: "buf_ok b" using inv by (simp add: recv_ok_def)
  have "m_Capacity b - m_WritePos b < int (length chunk)"
    using full b ok pb_invD [of b] by (simp add: chunk_fits_def recv_wpos_def buf_ok_def)
  moreover have "pb_inv b" using ok by (simp add: buf_ok_def)
  ultimately have "PacketBuffer_OnWrite_copy chunk (int (length chunk)) b = Inr (False, b)" by (simp add: OnWrite_copy_full)
  moreover have "i32 (int (length chunk)) = int (length chunk)" using chunk(2) by (intro i32_id) auto
  moreover have "c\<lparr>c_buffers := (c_buffers c)(u \<mapsto> b)\<rparr> = c"
  proof -
    have "(c_buffers c)(u \<mapsto> b) = c_buffers c" using b by auto
    then show ?thesis by simp
  qed
  ultimately have "SessionPacketBuffer_AddData (Some s) (Some chunk) (length chunk) c = AsioSession_ProcessDisconnect s c"
    using x u b chunk(1) by (simp add: SessionPacketBuffer_AddData_def Let_def)
  with b ok show thesis by (rule that)
qed

lemma RecvData_total:
  assumes inv: "recv_ok c" and x: "c_heap c s = Some x" and u: "u = m_SessionUID x" "0 \<le> u"
    and chunk: "chunk \<noteq> []" "length chunk \<le> 655360"
  shows "chunk_stalls c u chunk \<Longrightarrow> NetworkHandler_RecvData (Some s) (Some chunk) (length chunk) c = None"
    "\<not> chunk_stalls c u chunk \<Longrightarrow> chunk_overlaps c u chunk \<Longrightarrow>
       NetworkHandler_RecvData (Some s) (Some chunk) (length chunk) c = Some (Inl Overlap)"
    "\<not> chunk_stalls c u chunk \<Longrightarrow> \<not> chunk_overlaps c u chunk \<Longrightarrow>
       \<exists>c'. NetworkHandler_RecvData (Some s) (Some chunk) (length chunk) c = Some (Inr c')
         \<and> recv_ok c' \<and> r_IsRunning (c_router c') = r_IsRunning (c_router c) \<and> disc_effect s c c' \<and> core_same c c'"
proof -
  let ?c1 = "c\<lparr>c_analyzer := IncrementRecvCnt (c_analyzer c)\<rparr>"
  have inv1: "recv_ok ?c1" "recv_inv ?c1" "c_heap ?c1 s = Some x" using inv x recv_ok_inv [OF inv] by (simp_all add: recv_ok_def)
  have ri: "router_inv (c_router c)" using inv by (simp add: recv_ok_def)
  have run: "NetworkHandler_RecvData (Some s) (Some chunk) (length chunk) c
      = bindO (Some (SessionPacketBuffer_AddData (Some s) (Some chunk) (length chunk) ?c1))
          (SessionPacketBuffer_ProcessSessionBuffer (Some s))"
    using chunk(1) by (simp add: NetworkHandler_RecvData_def)
  consider (fits) "chunk_fits c u chunk" | (full) "\<not> chunk_fits c u chunk" by blast
  then have "if chunk_stalls c u chunk then NetworkHandler_RecvData (Some s) (Some chunk) (length chunk) c = None
    else if chunk_overlaps c u chunk then NetworkHandler_RecvData (Some s) (Some chunk) (length chunk) c = Some (Inl Overlap)
    else \<exists>c'. NetworkHandler_RecvData (Some s) (Some chunk) (length chunk) c = Some (Inr c')
         \<and> recv_ok c' \<and> r_IsRunning (c_router c') = r_IsRunning (c_router c) \<and> disc_effect s c c' \<and> core_same c c'"
  proof cases
    case fits
    have room: "recv_wpos ?c1 u + int (length chunk) \<le> 655360" using fits by (simp add: chunk_fits_def recv_wpos_def)
    obtain b where b: "SessionPacketBuffer_AddData (Some s) (Some chunk) (length chunk) ?c1
         = Inr (?c1\<lparr>c_buffers := (c_buffers ?c1)(u \<mapsto> b)\<rparr>)"
      "pb_inv b" "m_BufferSize b = 65536" "pb.bb_bytes b = recv_pending ?c1 u @ chunk"
      "m_WritePos b = recv_wpos ?c1 u + int (length chunk)" "m_ReadPos b = recv_rpos ?c1 u"
      by (rule AddData_ok [OF inv1(2,3) u(1) chunk(1) room]) blast
    let ?c2 = "?c1\<lparr>c_buffers := (c_buffers c)(u \<mapsto> b)\<rparr>"
    have "length chunk \<noteq> 0" using chunk(1) by simp
    then have "m_ReadPos b < 655360"
      using pb.length_bytes [OF b(2)] b(4,5) room by (cases "length chunk") auto
    then have pre: "router_inv (c_router ?c2)" "c_heap ?c2 s = Some x" "c_buffers ?c2 u = Some b" "m_ReadPos b < 655360"
      "recv_pending c u @ chunk = pb.bb_bytes b"
      using ri x b(4) by (simp_all add: recv_pending_def)
    note P = ProcessSessionBuffer_total [OF pre(1,2) u pre(3) b(2,3) pre(4,5)]
    have cur: "m_WritePos b = recv_wpos c u + int (length chunk)" "m_ReadPos b = recv_rpos c u"
      using b(5,6) by (simp_all add: recv_wpos_def recv_rpos_def)
    let ?fs = "frames (recv_pending c u @ chunk)"
    have over: "chunk_overlaps c u chunk \<longleftrightarrow> ?fs \<noteq> [] \<and> overlaps (b\<lparr>m_ReadPos := m_ReadPos b + int (length (concat ?fs))\<rparr>)"
      using fits by (auto simp: chunk_overlaps_def overlaps_def cur Let_def)
    have st: "chunk_stalls c u chunk \<longleftrightarrow> stalls (recv_pending c u @ chunk)" using fits by (simp add: chunk_stalls_def)
    have run2: "NetworkHandler_RecvData (Some s) (Some chunk) (length chunk) c = SessionPacketBuffer_ProcessSessionBuffer (Some s) ?c2"
      unfolding run b(1) by simp
    show ?thesis
    proof (cases "stalls (recv_pending c u @ chunk) \<or> chunk_overlaps c u chunk")
      case True
      then show ?thesis using P(1,2) by (auto simp: run2 st over)
    next
      case False
      then obtain b' where b': "SessionPacketBuffer_ProcessSessionBuffer (Some s) ?c2
         = Some (Inr (?c2\<lparr>c_router := push_items u (frame_items u (u, m_ReadPos b) ?fs) (c_router ?c2),
                        c_buffers := (c_buffers ?c2)(u \<mapsto> b')\<rparr>))" "buf_ok b'"
        using P(3) over by blast
      let ?c3 = "?c2\<lparr>c_router := push_items u (frame_items u (u, m_ReadPos b) ?fs) (c_router ?c2), c_buffers := (c_buffers ?c2)(u \<mapsto> b')\<rparr>"
      have "recv_ok ?c3" using inv b'(2) by (simp add: recv_ok_def)
      moreover have "disc_effect s c ?c3" "core_same c ?c3" using x by (simp_all add: disc_effect_def core_same_def)
      ultimately show ?thesis using False b'(1) by (simp add: run2 st)
    qed
  next
    case full
    have full1: "\<not> chunk_fits ?c1 u chunk" using full by (simp add: chunk_fits_def recv_wpos_def)
    obtain b where b: "c_buffers ?c1 u = Some b" "buf_ok b"
      "SessionPacketBuffer_AddData (Some s) (Some chunk) (length chunk) ?c1 = AsioSession_ProcessDisconnect s ?c1"
      by (rule AddData_full [OF inv1(1,3) u(1) chunk full1])
    obtain c2 where c2: "AsioSession_ProcessDisconnect s ?c1 = Inr c2" "disc_effect s ?c1 c2" "core_same ?c1 c2"
      "c_router c2 = c_router ?c1" "c_buffers c2 = c_buffers ?c1"
      by (rule ProcessDisconnect_effect [OF inv1(3)])
    obtain x2 where x2: "c_heap c2 s = Some x2" "m_SessionUID x2 = m_SessionUID x"
      using c2(2) x by (auto simp: disc_effect_def)
    have nr: "\<not> frame_ready (pb.bb_bytes b)" "pb_inv b" "m_BufferSize b = 65536" "m_ReadPos b < 655360"
      using b(2) by (simp_all add: buf_ok_def)
    obtain b' where p: "SessionPacketBuffer_ProcessSessionBuffer (Some s) c2 = Some (Inr (c2\<lparr>c_router := push_items u [] (c_router c2),
        c_buffers := (c_buffers c2)(u \<mapsto> b')\<rparr>))" "buf_ok b'"
      using ProcessSessionBuffer_total(3) [of c2 s x2 u b "pb.bb_bytes b"] frames_stop [OF nr(1)] nr ri b(1) x2 u c2(4,5)
      by auto
    let ?c3 = "c2\<lparr>c_router := push_items u [] (c_router c2), c_buffers := (c_buffers c2)(u \<mapsto> b')\<rparr>"
    have "NetworkHandler_RecvData (Some s) (Some chunk) (length chunk) c = Some (Inr ?c3)" using b(3) c2(1) p(1) by (simp add: run)
    moreover have "recv_ok ?c3" using inv p(2) c2(4,5) by (simp add: recv_ok_def)
    moreover have "disc_effect s c ?c3" "core_same c ?c3" using c2(2,3) x by (simp_all add: disc_effect_def core_same_def)
    ultimately show ?thesis using full c2(4) by (auto simp: chunk_stalls_def chunk_overlaps_def Let_def)
  qed
  then show "chunk_stalls c u chunk \<Longrightarrow> NetworkHandler_RecvData (Some s) (Some chunk) (length chunk) c = None"
    "\<not> chunk_stalls c u chunk \<Longrightarrow> chunk_overlaps c u chunk \<Longrightarrow>
       NetworkHandler_RecvData (Some s) (Some chunk) (length chunk) c = Some (Inl Overlap)"
    "\<not> chunk_stalls c u chunk \<Longrightarrow> \<not> chunk_overlaps c u chunk \<Longrightarrow>
       \<exists>c'. NetworkHandler_RecvData (Some s) (Some chunk) (length chunk) c = Some (Inr c')
         \<and> recv_ok c' \<and> r_IsRunning (c_router c') = r_IsRunning (c_router c) \<and> disc_effect s c c' \<and> core_same c c'"
    by simp_all
qed

section \<open>A read of the session\<close>

text \<open>What the completion of an operation changes of its session and of the task queue.\<close>

definition session_effect :: "bool \<Rightarrow> session_ptr \<Rightarrow> ('s, 'z) Core_scheme \<Rightarrow> ('s, 'z) Core_scheme \<Rightarrow> bool" where
  "session_effect pend s c c' \<longleftrightarrow>
     (\<exists>x b st. c_heap c s = Some x
        \<and> c_heap c' = (c_heap c)(s \<mapsto> x\<lparr>m_PacketBuffer := b, m_NetState := st, m_ReadPending := pend\<rparr>)
        \<and> (pb_inv (m_PacketBuffer x) \<and> pb_empty (m_PacketBuffer x) \<longrightarrow> pb_inv b \<and> pb_empty b)
        \<and> m_BufferSize b = m_BufferSize (m_PacketBuffer x)
        \<and> (st = m_NetState x \<and> c_tasks c' = c_tasks c
          \<or> m_NetState x \<noteq> NetState_Disconnect \<and> st = NetState_Disconnect
            \<and> c_tasks c' = TaskQueue_PushTask (m_SessionUID x) NetState_Disconnect (c_tasks c)))"

lemma session_effect_disc:
  assumes "disc_effect s c c'" "c_heap c s = Some x" "m_ReadPending x = pend"
  shows "session_effect pend s c c'"
proof -
  let ?y = "\<lambda>st. x\<lparr>m_PacketBuffer := m_PacketBuffer x, m_NetState := st, m_ReadPending := pend\<rparr>"
  have y: "?y (m_NetState x) = x" "?y NetState_Disconnect = x\<lparr>m_NetState := NetState_Disconnect\<rparr>"
    using assms(3) by (cases x; simp)+
  from assms(1,2) consider "c_heap c' = c_heap c" "c_tasks c' = c_tasks c"
    | "m_NetState x \<noteq> NetState_Disconnect" "c_heap c' = (c_heap c)(s \<mapsto> x\<lparr>m_NetState := NetState_Disconnect\<rparr>)"
      "c_tasks c' = TaskQueue_PushTask (m_SessionUID x) NetState_Disconnect (c_tasks c)"
    by (auto simp: disc_effect_def)
  then show ?thesis
  proof cases
    case 1
    have "(c_heap c)(s \<mapsto> ?y (m_NetState x)) = c_heap c" unfolding y using assms(2) by (simp add: fun_upd_idem)
    with 1 assms(2) show ?thesis unfolding session_effect_def
      by (intro exI [of _ x] exI [of _ "m_PacketBuffer x"] exI [of _ "m_NetState x"] conjI) simp_all
  next
    case 2
    with assms(2) y(2) show ?thesis unfolding session_effect_def
      by (intro exI [of _ x] exI [of _ "m_PacketBuffer x"] exI [of _ NetState_Disconnect] conjI) simp_all
  qed
qed

lemma buffer_pending_swap:
  "x\<lparr>m_ReadPending := p, m_PacketBuffer := b\<rparr> = x\<lparr>m_PacketBuffer := b, m_ReadPending := p\<rparr>"
  by (cases x) simp

lemma read_total:
  assumes ready: "sess_ready c s" and inv: "recv_ok c" and u: "u = uid_of c s"
    and chunk: "chunk \<noteq> []" "length chunk \<le> 655360"
  shows "chunk_stalls c u chunk \<Longrightarrow> read_completes chunk s c = None"
    "\<not> chunk_stalls c u chunk \<Longrightarrow> chunk_overlaps c u chunk \<Longrightarrow> read_completes chunk s c = Some (Inl Overlap)"
    "\<not> chunk_stalls c u chunk \<Longrightarrow> \<not> chunk_overlaps c u chunk \<Longrightarrow>
       \<exists>c'. read_completes chunk s c = Some (Inr c') \<and> recv_ok c' \<and> r_IsRunning (c_router c') = r_IsRunning (c_router c)
         \<and> session_effect True s c c' \<and> core_same c c'"
proof -
  obtain x where x: "c_heap c s = Some x" "m_Socket x \<noteq> None" "pb_inv (m_PacketBuffer x)"
    "pb_empty (m_PacketBuffer x)" "m_BufferSize (m_PacketBuffer x) = 65536" "0 \<le> m_SessionUID x"
    "u = m_SessionUID x"
    using ready u by (auto elim: sess_readyE)
  let ?b = "m_PacketBuffer x"
  let ?n = "int (length chunk)"
  note P = own_buffer_pass [OF x(3-5) chunk(2,1)]
  let ?ca = "upd_sess s (\<lambda>y. y\<lparr>m_PacketBuffer := (m_PacketBuffer y)\<lparr>m_Buffer := overwrite (m_Buffer ?b) 0 chunk\<rparr>,
                              m_ReadPending := False\<rparr>) c"
  let ?cb = "upd_sess s (\<lambda>y. y\<lparr>m_PacketBuffer := own_filled chunk ?b\<rparr>) ?ca"
  let ?xb = "x\<lparr>m_PacketBuffer := own_filled chunk ?b, m_ReadPending := False\<rparr>"
  have heapb: "c_heap ?cb = (c_heap c)(s \<mapsto> ?xb)" using x(1) by (simp add: upd_sess_def buffer_pending_swap)
  have pre: "recv_ok ?cb" "c_heap ?cb s = Some ?xb" "u = m_SessionUID ?xb" "0 \<le> u"
    using inv x heapb by (simp_all add: recv_ok_def)
  have same: "chunk_stalls ?cb u chunk = chunk_stalls c u chunk" "chunk_overlaps ?cb u chunk = chunk_overlaps c u chunk"
    by (simp_all add: chunk_stalls_def chunk_overlaps_def chunk_fits_def)
  note R = RecvData_total [OF pre chunk, unfolded same]
  let ?post = "\<lambda>c2. bindO (Some (sess c2 s)) (\<lambda>y.
      let (_, b2) = PacketBuffer_OnRead ?n (m_PacketBuffer y)
      in bindO (Some (PacketBuffer_Clear b2)) (\<lambda>b3. Some (AsioSession_DoRead s (upd_sess s (\<lambda>z. z\<lparr>m_PacketBuffer := b3\<rparr>) c2))))"
  have run: "read_completes chunk s c = bindO (NetworkHandler_RecvData (Some s) (Some chunk) (length chunk) ?cb) ?post"
    using x(1) P(1-5) by (simp add: read_completes_def AsioSession_HandleRead_def Let_def)
  show "chunk_stalls c u chunk \<Longrightarrow> read_completes chunk s c = None"
    using R(1) by (simp add: run)
  show "\<not> chunk_stalls c u chunk \<Longrightarrow> chunk_overlaps c u chunk \<Longrightarrow> read_completes chunk s c = Some (Inl Overlap)"
    using R(2) by (simp add: run)
  assume "\<not> chunk_stalls c u chunk" "\<not> chunk_overlaps c u chunk"
  then obtain c2 where c2: "NetworkHandler_RecvData (Some s) (Some chunk) (length chunk) ?cb = Some (Inr c2)"
    "recv_ok c2" "r_IsRunning (c_router c2) = r_IsRunning (c_router c)" "disc_effect s ?cb c2" "core_same ?cb c2"
    using R(3) by auto
  obtain st where st: "c_heap c2 = (c_heap c)(s \<mapsto> ?xb\<lparr>m_NetState := st\<rparr>)"
    "st = m_NetState x \<and> c_tasks c2 = c_tasks c
      \<or> m_NetState x \<noteq> NetState_Disconnect \<and> st = NetState_Disconnect
        \<and> c_tasks c2 = TaskQueue_PushTask (m_SessionUID x) NetState_Disconnect (c_tasks c)"
  proof -
    from c2(4) consider "c_heap c2 = c_heap ?cb \<and> c_tasks c2 = c_tasks c"
      | "m_NetState x \<noteq> NetState_Disconnect \<and> c_heap c2 = (c_heap ?cb)(s \<mapsto> ?xb\<lparr>m_NetState := NetState_Disconnect\<rparr>)
          \<and> c_tasks c2 = TaskQueue_PushTask (m_SessionUID x) NetState_Disconnect (c_tasks c)"
      using heapb by (auto simp: disc_effect_def)
    then show thesis
    proof cases
      case 1
      have "?xb\<lparr>m_NetState := m_NetState x\<rparr> = ?xb" by simp
      with 1 heapb show thesis by (intro that [of "m_NetState x"]) simp_all
    next
      case 2
      with heapb show thesis by (intro that [of NetState_Disconnect]) simp_all
    qed
  qed
  let ?b3 = "(own_filled chunk ?b)\<lparr>m_WritePos := 0\<rparr>"
  let ?c3 = "upd_sess s (\<lambda>z. z\<lparr>m_PacketBuffer := ?b3\<rparr>) c2"
  let ?c4 = "upd_sess s (\<lambda>y. y\<lparr>m_ReadPending := True\<rparr>) (?c3\<lparr>c_analyzer := ResetRecvCount (c_analyzer ?c3)\<rparr>)"
  have "PacketBuffer_WritePos ?b3 = Inr 0"
    using pb_invD [OF P(8)] x(5) by (simp add: PacketBuffer_WritePos_def subscript_def in_vec_def own_filled_def)
  then have "AsioSession_DoRead s ?c3 = Inr ?c4"
    using st(1) x(2) by (auto simp: AsioSession_DoRead_def Let_def)
  then have "read_completes chunk s c = Some (Inr ?c4)"
    using c2(1) st(1) P(6,7) by (simp add: run)
  moreover have "recv_ok ?c4" using c2(2) by (simp add: recv_ok_def)
  moreover have "c_heap ?c4 = (c_heap c)(s \<mapsto> x\<lparr>m_PacketBuffer := ?b3, m_NetState := st, m_ReadPending := True\<rparr>)"
    using st(1) by (auto simp: fun_eq_iff)
  then have "session_effect True s c ?c4"
    using x(1,4) P(8) st(2) unfolding session_effect_def
    by (intro exI [of _ x] exI [of _ ?b3] exI [of _ st]) (auto simp: pb_empty_def own_filled_def)
  moreover have "core_same c ?c4" using c2(5) by (simp add: core_same_def)
  ultimately show "\<exists>c'. read_completes chunk s c = Some (Inr c') \<and> recv_ok c' \<and> r_IsRunning (c_router c') = r_IsRunning (c_router c)
         \<and> session_effect True s c c' \<and> core_same c c'"
    using c2(3) by (intro exI [of _ ?c4]) simp
qed

text \<open>A read that fails, and a write that is done.\<close>

lemma read_failed_total:
  assumes x: "c_heap c s = Some x" and inv: "recv_ok c" and r: "r \<noteq> Read_ok"
  obtains c' where "AsioSession_HandleRead r n s (upd_sess s (\<lambda>y. y\<lparr>m_ReadPending := False\<rparr>) c) = Some (Inr c')"
    "recv_ok c'" "c_router c' = c_router c" "session_effect False s c c'" "core_same c c'"
    "\<exists>y. c_heap c' s = Some y \<and> m_NetState y = NetState_Disconnect"
proof -
  let ?c1 = "upd_sess s (\<lambda>y. y\<lparr>m_ReadPending := False\<rparr>) c"
  let ?x1 = "x\<lparr>m_ReadPending := False\<rparr>"
  have x1: "c_heap ?c1 s = Some ?x1" "c_heap ?c1 = (c_heap c)(s \<mapsto> ?x1)" using x by (simp_all add: upd_sess_def)
  obtain c' where c': "AsioSession_ProcessDisconnect s ?c1 = Inr c'" "disc_effect s ?c1 c'" "core_same ?c1 c'"
    "c_router c' = c_router ?c1" "c_buffers c' = c_buffers ?c1"
    by (rule ProcessDisconnect_effect [OF x1(1)])
  have eff: "session_effect False s ?c1 c'" by (rule session_effect_disc [OF c'(2) x1(1)]) simp
  have "session_effect False s c c'"
  proof -
    obtain y b st where e: "c_heap ?c1 s = Some y"
      "c_heap c' = (c_heap ?c1)(s \<mapsto> y\<lparr>m_PacketBuffer := b, m_NetState := st, m_ReadPending := False\<rparr>)"
      "pb_inv (m_PacketBuffer y) \<and> pb_empty (m_PacketBuffer y) \<longrightarrow> pb_inv b \<and> pb_empty b"
      "m_BufferSize b = m_BufferSize (m_PacketBuffer y)"
      "st = m_NetState y \<and> c_tasks c' = c_tasks ?c1
          \<or> m_NetState y \<noteq> NetState_Disconnect \<and> st = NetState_Disconnect
            \<and> c_tasks c' = TaskQueue_PushTask (m_SessionUID y) NetState_Disconnect (c_tasks ?c1)"
      using eff unfolding session_effect_def by blast
    have y: "y = ?x1" using e(1) x1(1) by (metis option.inject)
    show ?thesis using x e(2-5) unfolding session_effect_def y x1(2)
      by (intro exI [of _ x] exI [of _ b] exI [of _ st]) simp
  qed
  moreover have "AsioSession_HandleRead r n s ?c1 = Some (Inr c')" using c'(1) by (simp add: HandleRead_error [OF r])
  moreover have "recv_ok c'" using inv c'(4,5) by (simp add: recv_ok_def)
  moreover have "core_same c c'" using c'(3) by (simp add: core_same_def)
  ultimately show thesis using c'(4) ProcessDisconnect_state [OF c'(1)] by (intro that [of c']) simp_all
qed

end
