(* ===== verification/Server_Invariant.thy ===== *)
theory Server_Invariant
  imports Server_Steps Receive_Total
begin

text \<open>
  What holds in every state that the running server can reach.
  \<open>server_inv\<close> ties the three places together in which the program keeps sessions, the service,
  the manager and the pool; every event of \<open>Server_Steps\<close> keeps it.
\<close>

section \<open>The invariant\<close>

text \<open>The buffer of a session is empty between two completions; a session that reads has a socket.\<close>

definition session_ok :: "GameSession \<Rightarrow> bool" where
  "session_ok x \<longleftrightarrow> pb_inv (m_PacketBuffer x) \<and> pb_empty (m_PacketBuffer x) \<and> m_BufferSize (m_PacketBuffer x) = 65536
     \<and> (m_ReadPending x \<longrightarrow> m_Socket x \<noteq> None \<and> 0 \<le> m_SessionUID x)"

definition registered_ok :: "Game \<Rightarrow> session_ptr \<Rightarrow> bool" where
  "registered_ok g s \<longleftrightarrow>
     (\<exists>x. c_heap g s = Some x \<and> m_Socket x = Some True \<and> m_Service x \<and> 0 \<le> m_SessionUID x
        \<and> m_SessionUID x < m_NextSessionUID (c_service g) \<and> c_manager g (m_SessionUID x) = Some s)"

lemma registered_okI:
  "c_heap g s = Some x \<Longrightarrow> m_Socket x = Some True \<Longrightarrow> m_Service x \<Longrightarrow> 0 \<le> m_SessionUID x \<Longrightarrow>
   m_SessionUID x < m_NextSessionUID (c_service g) \<Longrightarrow> c_manager g (m_SessionUID x) = Some s \<Longrightarrow> registered_ok g s"
  by (simp add: registered_ok_def)

lemma registered_okE:
  assumes "registered_ok g s"
  obtains x where "c_heap g s = Some x" "m_Socket x = Some True" "m_Service x" "0 \<le> m_SessionUID x"
    "m_SessionUID x < m_NextSessionUID (c_service g)" "c_manager g (m_SessionUID x) = Some s" "uid_of g s = m_SessionUID x"
  using assms by (auto simp: registered_ok_def uid_of_def)

definition server_inv :: "Game \<Rightarrow> bool" where
  "server_inv g \<longleftrightarrow>
     service_inv (c_service g) \<and> 0 \<le> m_NextSessionUID (c_service g)
     \<and> (\<forall>s \<in> set (m_Sessions (c_service g)). registered_ok g s)
     \<and> (\<forall>u s. c_manager g u = Some s \<longrightarrow> s \<in> set (m_Sessions (c_service g)) \<and> uid_of g s = u)
     \<and> (\<forall>s x. c_heap g s = Some x \<longrightarrow> session_ok x)
     \<and> distinct (g_pool g) \<and> (\<forall>s \<in> set (g_pool g). c_heap g s \<noteq> None \<and> \<not> referenced s g)
     \<and> (\<forall>w \<in> set (c_writes g). c_heap g (fst w) \<noteq> None)
     \<and> recv_ok g \<and> r_IsRunning (c_router g)
     \<and> tq_IsRunning (c_tasks g) \<and> (\<forall>t \<in> set (tq_TaskQueue (c_tasks g)). task_state t = NetState_Disconnect)"

lemma server_invD:
  assumes "server_inv g"
  shows "service_inv (c_service g)" "0 \<le> m_NextSessionUID (c_service g)"
    "s \<in> set (m_Sessions (c_service g)) \<Longrightarrow> registered_ok g s"
    "c_manager g u = Some s \<Longrightarrow> s \<in> set (m_Sessions (c_service g)) \<and> uid_of g s = u"
    "c_heap g s = Some x \<Longrightarrow> session_ok x"
    "distinct (g_pool g)" "s \<in> set (g_pool g) \<Longrightarrow> c_heap g s \<noteq> None \<and> \<not> referenced s g"
    "w \<in> set (c_writes g) \<Longrightarrow> c_heap g (fst w) \<noteq> None"
    "recv_ok g" "r_IsRunning (c_router g)" "tq_IsRunning (c_tasks g)"
    "t \<in> set (tq_TaskQueue (c_tasks g)) \<Longrightarrow> task_state t = NetState_Disconnect"
  using assms by (auto simp: server_inv_def)

lemma server_invI:
  assumes "service_inv (c_service g)" "0 \<le> m_NextSessionUID (c_service g)"
    "\<And>s. s \<in> set (m_Sessions (c_service g)) \<Longrightarrow> registered_ok g s"
    "\<And>u s. c_manager g u = Some s \<Longrightarrow> s \<in> set (m_Sessions (c_service g)) \<and> uid_of g s = u"
    "\<And>s x. c_heap g s = Some x \<Longrightarrow> session_ok x"
    "distinct (g_pool g)" "\<And>s. s \<in> set (g_pool g) \<Longrightarrow> c_heap g s \<noteq> None \<and> \<not> referenced s g"
    "\<And>w. w \<in> set (c_writes g) \<Longrightarrow> c_heap g (fst w) \<noteq> None"
    "recv_ok g" "r_IsRunning (c_router g)" "tq_IsRunning (c_tasks g)"
    "\<And>t. t \<in> set (tq_TaskQueue (c_tasks g)) \<Longrightarrow> task_state t = NetState_Disconnect"
  shows "server_inv g"
  unfolding server_inv_def using assms by (intro conjI allI ballI impI) (assumption | blast)+

text \<open>UIDs are not used twice, so that there are at most as many sessions as UIDs were given out.\<close>

lemma sessions_bound:
  assumes "server_inv g"
  shows "int (length (m_Sessions (c_service g))) \<le> m_NextSessionUID (c_service g)"
proof -
  let ?S = "set (m_Sessions (c_service g))"
  have u: "0 \<le> uid_of g s \<and> uid_of g s < m_NextSessionUID (c_service g) \<and> c_manager g (uid_of g s) = Some s" if "s \<in> ?S" for s
    using server_invD(3) [OF assms that] by (auto simp: registered_ok_def uid_of_def)
  have "inj_on (uid_of g) ?S" using u by (metis inj_onI option.inject)
  moreover have "uid_of g ` ?S \<subseteq> {0..<m_NextSessionUID (c_service g)}" using u by auto
  ultimately have "card ?S \<le> card {0..<m_NextSessionUID (c_service g)}" by (rule card_inj_on_le) simp
  moreover have "distinct (m_Sessions (c_service g))" using server_invD(1) [OF assms] by (simp add: service_inv_def)
  ultimately show ?thesis using server_invD(2) [OF assms] by (simp add: distinct_card)
qed

text \<open>Parts of the state that the invariant does not speak of, or of which it only speaks elementwise.\<close>

lemma registered_ok_fields [simp]:
  "registered_ok (g\<lparr>c_pool := p\<rparr>) s = registered_ok g s" "registered_ok (g\<lparr>c_writes := ws\<rparr>) s = registered_ok g s"
  "registered_ok (g\<lparr>c_tasks := q\<rparr>) s = registered_ok g s" "registered_ok (g\<lparr>c_router := r\<rparr>) s = registered_ok g s"
  "registered_ok (g\<lparr>g_pool := ss\<rparr>) s = registered_ok g s"
  by (simp_all add: registered_ok_def)

lemma uid_of_fields [simp]:
  "uid_of (g\<lparr>c_pool := p\<rparr>) s = uid_of g s" "uid_of (g\<lparr>c_writes := ws\<rparr>) s = uid_of g s"
  "uid_of (g\<lparr>c_tasks := q\<rparr>) s = uid_of g s" "uid_of (g\<lparr>c_router := r\<rparr>) s = uid_of g s"
  by (simp_all add: uid_of_def)

lemma uid_of_pool [simp]: "uid_of (g\<lparr>g_pool := ss\<rparr>) s = uid_of g s"
  by (simp add: uid_of_def)

lemma referenced_fields [simp]:
  "referenced s (g\<lparr>c_pool := p\<rparr>) = referenced s g" "referenced s (g\<lparr>c_tasks := q\<rparr>) = referenced s g"
  "referenced s (g\<lparr>c_router := r\<rparr>) = referenced s g" "referenced s (g\<lparr>g_pool := ss\<rparr>) = referenced s g"
  by (simp_all add: referenced_def)

lemma referenced_writes:
  "set ws \<subseteq> set (c_writes g) \<Longrightarrow> referenced s (g\<lparr>c_writes := ws\<rparr>) \<Longrightarrow> referenced s g"
  by (auto simp: referenced_def)

lemma recv_ok_fields [simp]:
  "recv_ok (g\<lparr>c_pool := p\<rparr>) = recv_ok g" "recv_ok (g\<lparr>c_writes := ws\<rparr>) = recv_ok g" "recv_ok (g\<lparr>c_tasks := q\<rparr>) = recv_ok g"
  by (simp_all add: recv_ok_def)

lemma recv_ok_pool [simp]: "recv_ok (g\<lparr>g_pool := ss\<rparr>) = recv_ok g"
  by (simp add: recv_ok_def)

lemma server_inv_pool [simp]: "server_inv (g\<lparr>c_pool := p\<rparr>) = server_inv g"
  by (simp add: server_inv_def)

lemma server_inv_writes:
  assumes "server_inv g" "set ws \<subseteq> set (c_writes g)"
  shows "server_inv (g\<lparr>c_writes := ws\<rparr>)"
proof -
  note I = server_invD [OF assms(1)]
  show ?thesis
    by (rule server_invI)
      (use I(1-6,9-12) I(7) referenced_writes [OF assms(2)] I(8) assms(2) in \<open>simp_all, blast+\<close>)
qed

lemma server_inv_tasks:
  assumes "server_inv g" "set (tq_TaskQueue q) \<subseteq> set (tq_TaskQueue (c_tasks g))" "tq_IsRunning q"
  shows "server_inv (g\<lparr>c_tasks := q\<rparr>)"
proof -
  note I = server_invD [OF assms(1)]
  show ?thesis by (rule server_invI) (use I(1-11) I(12) assms(2,3) in \<open>simp_all, blast+\<close>)
qed

section \<open>Completions\<close>

text \<open>The effect of a completion on its session, on a state in which the session reads or writes.\<close>

lemma server_inv_effect:
  assumes inv: "server_inv g" and eff: "session_effect pend s g g'" and same: "core_same g g'" and ok: "recv_ok g'"
    and run: "r_IsRunning (c_router g') = r_IsRunning (c_router g)"
    and x: "c_heap g s = Some x" and sp: "s \<notin> set (g_pool g)" and pend: "pend \<Longrightarrow> m_ReadPending x"
  shows "server_inv g'"
proof -
  obtain b st where e: "c_heap g' = (c_heap g)(s \<mapsto> x\<lparr>m_PacketBuffer := b, m_NetState := st, m_ReadPending := pend\<rparr>)"
    "pb_inv (m_PacketBuffer x) \<and> pb_empty (m_PacketBuffer x) \<longrightarrow> pb_inv b \<and> pb_empty b"
    "m_BufferSize b = m_BufferSize (m_PacketBuffer x)"
    "c_tasks g' = c_tasks g \<or> c_tasks g' = TaskQueue_PushTask (m_SessionUID x) NetState_Disconnect (c_tasks g)"
    using eff x by (auto simp: session_effect_def)
  note I = server_invD [OF inv]
  have c: "c_manager g' = c_manager g" "c_service g' = c_service g" "c_writes g' = c_writes g" "g_pool g' = g_pool g" "g_players g' = g_players g"
    using same by (simp_all add: core_same_def) (cases g; cases g'; simp)+
  have uid: "uid_of g' t = uid_of g t" for t using x by (simp add: uid_of_def e(1))
  have reg: "registered_ok g t \<Longrightarrow> registered_ok g' t" for t using x by (auto simp: registered_ok_def e(1) c)
  have refs: "t \<noteq> s \<Longrightarrow> referenced t g' = referenced t g" for t by (simp add: referenced_def c uid e(1))
  have "session_ok (x\<lparr>m_PacketBuffer := b, m_NetState := st, m_ReadPending := pend\<rparr>)"
    using I(5) [OF x] e(2,3) pend by (simp add: session_ok_def)
  moreover have "tq_IsRunning (c_tasks g')" "\<forall>t \<in> set (tq_TaskQueue (c_tasks g')). task_state t = NetState_Disconnect"
    using e(4) I(11,12) by (auto simp: TaskQueue_PushTask_def cq_push_def IoTask_of_def)
  moreover have pool: "t \<in> set (g_pool g) \<Longrightarrow> c_heap g' t \<noteq> None \<and> \<not> referenced t g'" for t
    using I(7) [of t] refs [of t] sp by (auto simp: e(1))
  moreover have "w \<in> set (c_writes g) \<Longrightarrow> c_heap g' (fst w) \<noteq> None" for w using I(8) [of w] by (simp add: e(1))
  ultimately show ?thesis
    using I(1,2,6,10) I(3) reg I(4) I(5) run ok
    by (intro server_invI) (simp_all add: c uid e(1) split: if_splits)
qed

lemma received_ready:
  assumes "server_inv g" "event_enabled (Received s chunk) g"
  obtains x where "c_heap g s = Some x" "m_ReadPending x" "sess_ready g s" "chunk \<noteq> []" "length chunk \<le> 655360" "referenced s g"
proof -
  obtain x where x: "c_heap g s = Some x" "m_ReadPending x" "chunk \<noteq> []"
    "int (length chunk) \<le> PacketBuffer_FreeSize (m_PacketBuffer x)"
    using assms(2) by (auto split: option.splits)
  have ok: "session_ok x" by (rule server_invD(5) [OF assms(1) x(1)])
  then have "PacketBuffer_FreeSize (m_PacketBuffer x) = 655360"
    using pb_invD [of "m_PacketBuffer x"] by (simp add: session_ok_def pb_empty_def)
  then show thesis using x ok by (intro that) (simp_all add: sess_ready_def session_ok_def referenced_def)
qed

text \<open>The three outcomes of a read.\<close>

lemma Received_outcome:
  assumes inv: "server_inv g" and en: "event_enabled (Received s chunk) g"
  shows "server_event env (Received s chunk) g =
      (if chunk_stalls g (uid_of g s) chunk then None
       else if chunk_overlaps g (uid_of g s) chunk then Some (Inl Overlap)
       else server_event env (Received s chunk) g)"
    "\<not> chunk_stalls g (uid_of g s) chunk \<Longrightarrow> \<not> chunk_overlaps g (uid_of g s) chunk \<Longrightarrow>
       \<exists>g'. server_event env (Received s chunk) g = Some (Inr g') \<and> recv_ok g'
         \<and> r_IsRunning (c_router g') = r_IsRunning (c_router g) \<and> session_effect True s g g' \<and> core_same g g'"
proof -
  obtain x where x: "c_heap g s = Some x" "sess_ready g s" "chunk \<noteq> []" "length chunk \<le> 655360"
    by (rule received_ready [OF assms])
  note R = read_total [OF x(2) server_invD(9) [OF inv] refl x(3,4)]
  show "server_event env (Received s chunk) g =
      (if chunk_stalls g (uid_of g s) chunk then None
       else if chunk_overlaps g (uid_of g s) chunk then Some (Inl Overlap)
       else server_event env (Received s chunk) g)"
    using R(1,2) by simp
  show "\<not> chunk_stalls g (uid_of g s) chunk \<Longrightarrow> \<not> chunk_overlaps g (uid_of g s) chunk \<Longrightarrow>
       \<exists>g'. server_event env (Received s chunk) g = Some (Inr g') \<and> recv_ok g'
         \<and> r_IsRunning (c_router g') = r_IsRunning (c_router g) \<and> session_effect True s g g' \<and> core_same g g'"
    using R(3) by simp
qed

lemma Received_step:
  assumes inv: "server_inv g" and en: "event_enabled (Received s chunk) g" and ev: "server_event env (Received s chunk) g = Some (Inr g')"
  shows "server_inv g'" "session_effect True s g g'" "core_same g g'" "referenced s g"
proof -
  obtain x where x: "c_heap g s = Some x" "m_ReadPending x" "referenced s g" by (rule received_ready [OF inv en])
  have "\<not> chunk_stalls g (uid_of g s) chunk \<and> \<not> chunk_overlaps g (uid_of g s) chunk"
    using Received_outcome(1) [OF inv en, of env] ev by (auto split: if_splits)
  then have e: "recv_ok g'" "r_IsRunning (c_router g') = r_IsRunning (c_router g)" "session_effect True s g g'" "core_same g g'"
    using Received_outcome(2) [OF inv en, of env] ev by auto
  have "s \<notin> set (g_pool g)" using server_invD(7) [OF inv] x(3) by blast
  then show "server_inv g'" by (rule server_inv_effect [OF inv e(3,4,1,2) x(1)]) (rule x(2))
  show "session_effect True s g g'" "core_same g g'" "referenced s g" using e x(3) by simp_all
qed

lemma Receive_failed_step:
  assumes inv: "server_inv g" and en: "event_enabled (Receive_failed s r) g"
  obtains g' where "server_event env (Receive_failed s r) g = Some (Inr g')" "server_inv g'" "session_effect False s g g'"
    "core_same g g'" "referenced s g" "\<exists>y. c_heap g' s = Some y \<and> m_NetState y = NetState_Disconnect"
proof -
  obtain x where x: "c_heap g s = Some x" "m_ReadPending x" "r \<noteq> Read_ok" using en by (auto split: option.splits)
  have ref: "referenced s g" using x by (simp add: referenced_def)
  obtain g' where g': "AsioSession_HandleRead r 0 s (upd_sess s (\<lambda>y. y\<lparr>m_ReadPending := False\<rparr>) g) = Some (Inr g')"
    "recv_ok g'" "c_router g' = c_router g" "session_effect False s g g'" "core_same g g'"
    "\<exists>y. c_heap g' s = Some y \<and> m_NetState y = NetState_Disconnect"
    by (rule read_failed_total [OF x(1) server_invD(9) [OF inv] x(3)])
  have "s \<notin> set (g_pool g)" using server_invD(7) [OF inv] ref by blast
  then have "server_inv g'" using g'(3) by (intro server_inv_effect [OF inv g'(4,5,2) _ x(1)]) simp_all
  then show thesis using that [of g'] g' ref by simp
qed

text \<open>A completed write: first the write is gone, then its session may be disconnected.\<close>

lemma Written_step:
  assumes inv: "server_inv g" and en: "event_enabled (Written i ec len) g"
  defines "g0 \<equiv> g\<lparr>c_writes := take i (c_writes g) @ drop (Suc i) (c_writes g)\<rparr>"
  obtains s x g1 p where "server_event env (Written i ec len) g = Some (Inr (g1\<lparr>c_pool := p\<rparr>))" "server_inv g1" "server_inv g0"
    "c_heap g s = Some x" "session_effect (m_ReadPending x) s g0 g1" "core_same g0 g1" "referenced s g"
proof -
  obtain s packet where w: "c_writes g ! i = (s, packet)" by (cases "c_writes g ! i")
  have mem: "(s, packet) \<in> set (c_writes g)" using en w by (metis event_enabled.simps(4) nth_mem)
  then obtain x where x: "c_heap g s = Some x" using server_invD(8) [OF inv mem] by auto
  have ref: "referenced s g" using mem by (force simp: referenced_def)
  have inv0: "server_inv g0" unfolding g0_def by (rule server_inv_writes [OF inv]) (auto dest: in_set_takeD in_set_dropD)
  have x0: "c_heap g0 s = Some x" using x by (simp add: g0_def)
  have sp: "s \<notin> set (g_pool g0)" using server_invD(7) [OF inv] ref by (auto simp: g0_def)
  obtain g1 where g1: "(if ec then AsioSession_ProcessDisconnect s g0 else Inr (GameSession_OnSend s len g0)) = Inr g1"
    "disc_effect s g0 g1" "core_same g0 g1" "c_router g1 = c_router g0" "c_buffers g1 = c_buffers g0"
  proof (cases ec)
    case True
    then show thesis using ProcessDisconnect_effect [OF x0] that by metis
  next
    case False
    then show thesis using x0 by (intro that [of g0]) (simp_all add: GameSession_OnSend_def disc_effect_def core_same_def)
  qed
  have eff: "session_effect (m_ReadPending x) s g0 g1" by (rule session_effect_disc [OF g1(2) x0 refl])
  have ok: "recv_ok g1" using server_invD(9) [OF inv0] g1(4,5) by (simp add: recv_ok_def)
  have "server_inv g1" using g1(4) by (intro server_inv_effect [OF inv0 eff g1(3) ok _ x0 sp]) simp_all
  moreover have "server_event env (Written i ec len) g
      = Some (Inr (g1\<lparr>c_pool := PacketPool_Push (Some packet) (c_pool g1)\<rparr>))"
    using g1(1) by (simp add: w AsioSession_HandleWrite_def flip: g0_def)
  ultimately show thesis using inv0 x eff g1(3) ref by (intro that)
qed

section \<open>Accepting, closing, releasing\<close>

lemma Accepted_empty:
  "g_pool g = [] \<Longrightarrow> server_event env (Accepted False mem) g = Some (Inl SelfDeadlock)"
  by (simp add: AsioAcceptor_HandleAccept_def AsioService_CreateSession_def game_maker_def ObjectPool_Pop_empty Let_def)

lemma Accepted_error: "server_event env (Accepted True mem) g = Some (Inr g)"
  by (simp add: AsioAcceptor_HandleAccept_def)

lemma Accepted_step:
  assumes inv: "server_inv g" and pool: "g_pool g = s # pool" and bound: "m_NextSessionUID (c_service g) < 2147483646"
  obtains g' x x' where "server_event env (Accepted False mem) g = Some (Inr g')" "server_inv g'" "c_heap g s = Some x"
    "c_heap g' = (c_heap g)(s \<mapsto> x')" "m_ReadPending x'" "m_NetState x' = m_NetState x" "g_pool g' = pool" "c_tasks g' = c_tasks g"
    "set (m_Sessions (c_service g')) = insert s (set (m_Sessions (c_service g)))" "s \<notin> set (m_Sessions (c_service g))"
    "m_NextSessionUID (c_service g') = m_NextSessionUID (c_service g) + 1" "g_players g' = g_players g"
    "g_rooms g' = g_rooms g" "g_manager g' = g_manager g" "m_Player x' = m_Player x" "m_Socket x' = Some True"
proof -
  note I = server_invD [OF inv]
  let ?u = "m_NextSessionUID (c_service g)"
  obtain x where x: "c_heap g s = Some x" "\<not> referenced s g" using I(7) [of s] pool by auto
  have ok: "session_ok x" by (rule I(5) [OF x(1)])
  have fresh: "s \<notin> set (m_Sessions (c_service g))" using x(2) by (simp add: referenced_def)
  have len: "Suc (length (m_Sessions (c_service g))) < 2147483647" using sessions_bound [OF inv] bound by simp
  have un: "c_manager g ?u = None"
  proof (rule ccontr)
    assume "c_manager g ?u \<noteq> None"
    then obtain t where t: "c_manager g ?u = Some t" by auto
    then have "t \<in> set (m_Sessions (c_service g))" "uid_of g t = ?u" using I(4) by auto
    with I(3) show False by (fastforce simp: registered_ok_def uid_of_def)
  qed
  have b: "pb_empty (m_PacketBuffer x)" using ok by (simp add: session_ok_def)
  obtain g' x' where g': "AsioAcceptor_HandleAccept GameSession_OnConnected (game_maker True mem) False g = Inr (Some s, g')"
    "c_heap g' = (c_heap g)(s \<mapsto> x')" "m_SessionUID x' = ?u" "m_Socket x' = Some True" "m_Service x'"
    "m_ReadPending x'" "m_NetState x' = m_NetState x" "pb_empty (m_PacketBuffer x')"
    "m_BufferSize (m_PacketBuffer x') = 65536" "pb_inv (m_PacketBuffer x')"
    "c_manager g' = (c_manager g)(?u \<mapsto> s)" "set (m_Sessions (c_service g')) = insert s (set (m_Sessions (c_service g)))"
    "service_inv (c_service g')" "g_pool g' = pool" "c_tasks g' = c_tasks g" "c_router g' = c_router g" "c_buffers g' = c_buffers g"
    "c_writes g' = c_writes g" "g_players g' = g_players g" "m_NextSessionUID (c_service g') = i32 (?u + 1)" "m_Player x' = m_Player x"
    "g_rooms g' = g_rooms g" "g_manager g' = g_manager g"
    by (rule accept_pooled [OF pool x(1) b fresh I(1) len refl un, of True mem]) blast
  have nu: "m_NextSessionUID (c_service g') = ?u + 1" using g'(20) bound I(2) by (simp add: i32_id)
  have uid: "uid_of g' t = (if t = s then ?u else uid_of g t)" for t using g'(2,3) by (simp add: uid_of_def)
  have other: "t \<noteq> s \<Longrightarrow> referenced t g' \<longleftrightarrow> referenced t g" for t
    using un by (auto simp: referenced_def g'(2,11,12,18,19) uid)
  have d: "s \<notin> set pool" "distinct pool" using I(6) pool by simp_all
  have reg: "registered_ok g' t" if "t \<in> set (m_Sessions (c_service g'))" for t
  proof (cases "t = s")
    case True
    then show ?thesis using g' I(2) nu by (simp add: registered_ok_def)
  next
    case False
    then have "registered_ok g t" using that I(3) g'(12) by simp
    then show ?thesis
    proof (rule registered_okE)
      fix y assume "c_heap g t = Some y" "m_Socket y = Some True" "m_Service y" "0 \<le> m_SessionUID y"
        "m_SessionUID y < ?u" "c_manager g (m_SessionUID y) = Some t"
      then show ?thesis using False g'(2,11) nu by (intro registered_okI [of _ _ y]) simp_all
    qed
  qed
  have "server_inv g'"
  proof (rule server_invI)
    fix u t assume m: "c_manager g' u = Some t"
    show "t \<in> set (m_Sessions (c_service g')) \<and> uid_of g' t = u"
    proof (cases "u = ?u")
      case True
      then show ?thesis using m g'(11,12) by (simp add: uid)
    next
      case False
      then have "t \<in> set (m_Sessions (c_service g)) \<and> uid_of g t = u" using m g'(11) I(4) by simp
      then show ?thesis using fresh g'(12) by (auto simp: uid)
    qed
  next
    fix t y assume "c_heap g' t = Some y"
    then show "session_ok y" using g' I(2,5) by (auto simp: session_ok_def split: if_splits)
  next
    fix t assume t: "t \<in> set (g_pool g')"
    then have "t \<noteq> s" "t \<in> set (g_pool g)" using d pool g'(14) by auto
    then show "c_heap g' t \<noteq> None \<and> \<not> referenced t g'" using I(7) [of t] other [of t] by (simp add: g'(2))
  next
    fix w assume "w \<in> set (c_writes g')"
    then show "c_heap g' (fst w) \<noteq> None" using I(8) [of w] g'(2,18) by simp
  next
    show "recv_ok g'" using I(9) g'(16,17) by (simp add: recv_ok_def)
  qed (use I(2,10-12) g' reg nu d in simp_all)
  moreover have "server_event env (Accepted False mem) g = Some (Inr g')" using g'(1) by simp
  ultimately show thesis using g' x(1) nu fresh by (intro that)
qed

lemma Released_step:
  assumes inv: "server_inv g" and en: "event_enabled (Released s) g"
  shows "server_inv (game_recycle s g)"
  using server_invD [OF inv] en
  by (intro server_invI) (auto simp: game_recycle_def ObjectPool_Push_def)

text \<open>A round of the task queue: nothing to do, a task of a session that is gone, or a session that is closed.\<close>

lemma Close_step:
  assumes inv: "server_inv g" and s: "c_manager g u = Some s"
  obtains g' x where "AsioSession_CloseSession GameSession_OnDisconnected False s g = Inr g'" "server_inv g'"
    "set (m_Sessions (c_service g')) = set (m_Sessions (c_service g)) - {s}" "c_tasks g' = c_tasks g" "g_pool g' = g_pool g"
    "c_heap g s = Some x" "c_heap g' = (c_heap g)(s \<mapsto> x\<lparr>m_Socket := Some False\<rparr>)" "m_NextSessionUID (c_service g') = m_NextSessionUID (c_service g)"
    "g_players g' = g_players g" "g_rooms g' = g_rooms g" "g_manager g' = g_manager g"
proof -
  note I = server_invD [OF inv]
  have su: "s \<in> set (m_Sessions (c_service g))" "uid_of g s = u" using I(4) [OF s] by simp_all
  obtain x where x: "c_heap g s = Some x" "m_Socket x = Some True" "m_Service x" "c_manager g (m_SessionUID x) = Some s"
    "m_SessionUID x = u"
    by (rule registered_okE [OF I(3) [OF su(1)]]) (use su(2) in simp)
  obtain sv where sv: "AsioService_ReleaseSession False s (c_service g) = Inr sv" by (simp add: AsioService_ReleaseSession_def)
  have sinv: "service_inv sv" "set (m_Sessions sv) = set (m_Sessions (c_service g)) - {s}"
    using service_inv_Release [OF I(1) su(1) sv] by simp_all
  have nu: "m_NextSessionUID sv = m_NextSessionUID (c_service g)" using sv by (auto simp: AsioService_ReleaseSession_def)
  let ?x' = "x\<lparr>m_Socket := Some False\<rparr>"
  define g' where "g' = (upd_sess s (\<lambda>y. y\<lparr>m_Socket := Some False\<rparr>) (g\<lparr>c_manager := (c_manager g)(u := None)\<rparr>))\<lparr>c_service := sv\<rparr>"
  have run: "AsioSession_CloseSession GameSession_OnDisconnected False s g = Inr g'"
    using x sv by (simp add: AsioSession_CloseSession_def GameSession_OnDisconnected_def SessionManager_RemoveSession_def
        uid_of_def Let_def g'_def)
  have heap: "c_heap g' = (c_heap g)(s \<mapsto> ?x')" using x(1) by (simp add: upd_sess_def g'_def)
  have f: "c_service g' = sv" "c_manager g' = (c_manager g)(u := None)" "c_writes g' = c_writes g" "g_pool g' = g_pool g"
    "g_players g' = g_players g" "c_tasks g' = c_tasks g" "c_router g' = c_router g" "c_buffers g' = c_buffers g"
    by (simp_all add: g'_def)
  have uid: "uid_of g' t = uid_of g t" for t using x(1) by (simp add: uid_of_def heap)
  have sp: "s \<notin> set (g_pool g)" using I(7) su(1) by (auto simp: referenced_def)
  have other: "t \<noteq> s \<Longrightarrow> referenced t g' \<Longrightarrow> referenced t g" for t
    using sinv(2) by (auto simp: referenced_def f uid heap split: if_splits)
  have inj: "t = s" if "t \<in> set (m_Sessions (c_service g))" "uid_of g t = u" for t
    using I(3) [OF that(1)] that(2) s by (auto elim!: registered_okE)
  have "server_inv g'"
  proof (rule server_invI)
    fix t assume "t \<in> set (m_Sessions (c_service g'))"
    then have t: "t \<in> set (m_Sessions (c_service g))" "t \<noteq> s" using sinv(2) f by simp_all
    show "registered_ok g' t"
    proof (rule registered_okE [OF I(3) [OF t(1)]])
      fix y assume y: "c_heap g t = Some y" "m_Socket y = Some True" "m_Service y" "0 \<le> m_SessionUID y"
        "m_SessionUID y < m_NextSessionUID (c_service g)" "c_manager g (m_SessionUID y) = Some t" "uid_of g t = m_SessionUID y"
      then have "m_SessionUID y \<noteq> u" using inj [OF t(1)] t(2) by auto
      then show "registered_ok g' t" using y t(2) nu by (intro registered_okI [of _ _ y]) (simp_all add: f heap)
    qed
  next
    fix v t assume m: "c_manager g' v = Some t"
    then have v: "v \<noteq> u" "c_manager g v = Some t" by (auto simp: f split: if_splits)
    have "t \<in> set (m_Sessions (c_service g))" "uid_of g t = v" using I(4) [OF v(2)] by simp_all
    then show "t \<in> set (m_Sessions (c_service g')) \<and> uid_of g' t = v"
      using su(2) sinv(2) v(1) by (auto simp: uid f)
  next
    fix t y assume "c_heap g' t = Some y"
    then show "session_ok y" using I(5) [of t] I(5) [OF x(1)] by (auto simp: heap session_ok_def split: if_splits)
  next
    fix t assume "t \<in> set (g_pool g')"
    then have t: "t \<in> set (g_pool g)" "t \<noteq> s" using sp by (auto simp: f)
    then show "c_heap g' t \<noteq> None \<and> \<not> referenced t g'" using I(7) [OF t(1)] other [OF t(2)] by (auto simp: heap)
  next
    fix w assume "w \<in> set (c_writes g')"
    then show "c_heap g' (fst w) \<noteq> None" using I(8) [of w] by (simp add: heap f)
  next
    show "recv_ok g'" using I(9) by (simp add: recv_ok_def f)
  qed (use I(2,6,10-12) sinv nu in \<open>simp_all add: f\<close>)
  moreover have "g_rooms g' = g_rooms g" "g_manager g' = g_manager g" by (simp_all add: g'_def)
  ultimately show thesis using run sinv nu heap x(1) by (intro that [of g' x]) (simp_all add: f)
qed

lemma Task_round_step:
  assumes inv: "server_inv g"
  obtains (idle) g' where "server_event env Task_round g = Some (Inr g')" "server_inv g'" "g' = g\<lparr>c_tasks := c_tasks g\<rparr>"
    | (stale) t q g' where "server_event env Task_round g = Some (Inr g')" "server_inv g'" "g' = g\<lparr>c_tasks := q\<rparr>"
        "tq_TaskQueue (c_tasks g) = t # tq_TaskQueue q" "c_manager g (task_sessionUID t) = None"
    | (closed) t q s g' x where "server_event env Task_round g = Some (Inr g')" "server_inv g'"
        "tq_TaskQueue (c_tasks g) = t # tq_TaskQueue q" "c_tasks g' = q" "c_manager g (task_sessionUID t) = Some s"
        "set (m_Sessions (c_service g')) = set (m_Sessions (c_service g)) - {s}" "g_pool g' = g_pool g"
        "c_heap g s = Some x" "c_heap g' = (c_heap g)(s \<mapsto> x\<lparr>m_Socket := Some False\<rparr>)"
        "m_NextSessionUID (c_service g') = m_NextSessionUID (c_service g)"
        "g_players g' = g_players g" "g_rooms g' = g_rooms g" "g_manager g' = g_manager g"
proof (cases "tq_TaskQueue (c_tasks g)")
  case Nil
  then have "server_event env Task_round g = Some (Inr (g\<lparr>c_tasks := c_tasks g\<rparr>))"
    using server_invD(11) [OF inv] by (simp add: TaskQueue_WorkerThread_def)
  then show thesis by (rule idle) (use inv in simp_all)
next
  case (Cons t rest)
  let ?q = "(c_tasks g)\<lparr>tq_TaskQueue := rest\<rparr>"
  have run: "server_event env Task_round g = Some (TaskQueue_ProcessIoTask GameSession_OnDisconnected t (g\<lparr>c_tasks := ?q\<rparr>))"
    using Cons server_invD(11) [OF inv] by (simp add: TaskQueue_WorkerThread_def)
  have inv1: "server_inv (g\<lparr>c_tasks := ?q\<rparr>)" by (rule server_inv_tasks [OF inv]) (use Cons server_invD(11) [OF inv] in auto)
  have st: "task_state t = NetState_Disconnect" using server_invD(12) [OF inv] Cons by simp
  show thesis
  proof (cases "c_manager g (task_sessionUID t)")
    case None
    then show thesis using run inv1 Cons
      by (intro stale [of "g\<lparr>c_tasks := ?q\<rparr>" ?q t]) (simp_all add: TaskQueue_ProcessIoTask_def SessionManager_GetSession_def)
  next
    case (Some s)
    then have m: "c_manager (g\<lparr>c_tasks := ?q\<rparr>) (task_sessionUID t) = Some s" by simp
    obtain g' x where g': "AsioSession_CloseSession GameSession_OnDisconnected False s (g\<lparr>c_tasks := ?q\<rparr>) = Inr g'" "server_inv g'"
      "set (m_Sessions (c_service g')) = set (m_Sessions (c_service (g\<lparr>c_tasks := ?q\<rparr>))) - {s}"
      "c_tasks g' = c_tasks (g\<lparr>c_tasks := ?q\<rparr>)" "g_pool g' = g_pool (g\<lparr>c_tasks := ?q\<rparr>)"
      "c_heap (g\<lparr>c_tasks := ?q\<rparr>) s = Some x" "c_heap g' = (c_heap (g\<lparr>c_tasks := ?q\<rparr>))(s \<mapsto> x\<lparr>m_Socket := Some False\<rparr>)"
      "m_NextSessionUID (c_service g') = m_NextSessionUID (c_service (g\<lparr>c_tasks := ?q\<rparr>))"
      "g_players g' = g_players (g\<lparr>c_tasks := ?q\<rparr>)" "g_rooms g' = g_rooms (g\<lparr>c_tasks := ?q\<rparr>)"
      "g_manager g' = g_manager (g\<lparr>c_tasks := ?q\<rparr>)"
      by (rule Close_step [OF inv1 m])
    have "server_event env Task_round g = Some (Inr g')"
      using run m st g'(1) by (simp add: TaskQueue_ProcessIoTask_def SessionManager_GetSession_def)
    then show thesis by (rule closed [of g' t ?q s x]) (use g' Cons Some in simp_all)
  qed
qed

section \<open>Handlers\<close>

lemma bareD:
  assumes "bare (h' :: GameSession option) = bare (Some x)"
  obtains ps where "h' = Some (x\<lparr>m_Player := ps\<rparr>)"
proof -
  obtain y where y: "h' = Some y" "y\<lparr>m_Player := []\<rparr> = x\<lparr>m_Player := []\<rparr>" using assms by (auto simp: bare_def)
  then have "y = x\<lparr>m_Player := m_Player y\<rparr>" by (cases x; cases y; simp)
  with y(1) show thesis by (intro that [of "m_Player y"]) simp
qed

lemma server_inv_handler:
  assumes inv: "server_inv g" and fr: "handler_frame s g g'" and s: "s \<in> set (m_Sessions (c_service g))"
  shows "server_inv g'"
proof -
  note I = server_invD [OF inv]
  have f: "c_service g' = c_service g" "c_manager g' = c_manager g" "g_pool g' = g_pool g"
    "c_tasks g' = c_tasks g" "c_router g' = c_router g" "c_buffers g' = c_buffers g"
    using fr by (simp_all add: handler_frame_def)
  have b: "bare (c_heap g' t) = bare (c_heap g t)" for t using fr by (simp add: handler_frame_def)
  have some: "\<exists>ps. c_heap g' t = Some (x\<lparr>m_Player := ps\<rparr>)" if "c_heap g t = Some x" for t x
    using b [of t] that by (auto elim: bareD)
  have orig: "\<exists>x ps. c_heap g t = Some x \<and> y = x\<lparr>m_Player := ps\<rparr>" if "c_heap g' t = Some y" for t y
    using b [of t] some [of t] that by (cases "c_heap g t") (auto simp: bare_def)
  have alive: "c_heap g' t = None \<longleftrightarrow> c_heap g t = None" for t by (metis b bare_None(1))
  have uid: "uid_of g' t = uid_of g t" for t
    using some [of t] alive [of t] by (cases "c_heap g t") (auto simp: uid_of_def)
  have rp: "(case c_heap g' t of None \<Rightarrow> False | Some x \<Rightarrow> m_ReadPending x) = (case c_heap g t of None \<Rightarrow> False | Some x \<Rightarrow> m_ReadPending x)" for t
    using some [of t] alive [of t] by (cases "c_heap g t") auto
  obtain ws where ws: "c_writes g' = c_writes g @ ws" "\<forall>w \<in> set ws. c_heap g (fst w) \<noteq> None \<and> may_write s g (fst w)"
    using fr unfolding handler_frame_def by blast
  have own: "ownerSession p = Some s \<or> (\<exists>q \<in> set (g_players g). ownerSession q = ownerSession p)" if "p \<in> set (g_players g')" for p
    using fr that unfolding handler_frame_def by blast
  show ?thesis
  proof (rule server_invI)
    fix t assume "t \<in> set (m_Sessions (c_service g'))"
    then have "registered_ok g t" using I(3) by (simp add: f)
    then show "registered_ok g' t"
    proof (rule registered_okE)
      fix x assume x: "c_heap g t = Some x" "m_Socket x = Some True" "m_Service x" "0 \<le> m_SessionUID x"
        "m_SessionUID x < m_NextSessionUID (c_service g)" "c_manager g (m_SessionUID x) = Some t"
      obtain ps where "c_heap g' t = Some (x\<lparr>m_Player := ps\<rparr>)" using some [OF x(1)] by blast
      then show ?thesis using x by (intro registered_okI [of g' t "x\<lparr>m_Player := ps\<rparr>"]) (simp_all add: f)
    qed
  next
    fix t x assume "c_heap g' t = Some x"
    then show "session_ok x" using orig I(5) by (fastforce simp: session_ok_def)
  next
    fix t assume t: "t \<in> set (g_pool g')"
    then have t': "c_heap g t \<noteq> None" "\<not> referenced t g" "t \<noteq> s" using I(7) [of t] s by (auto simp: f referenced_def)
    have "t \<notin> fst ` set ws" using ws(2) t' by (auto simp: may_write_def referenced_def)
    moreover have "\<forall>p \<in> set (g_players g'). ownerSession p \<noteq> Some t"
    proof
      fix p assume p: "p \<in> set (g_players g')"
      have "\<forall>q \<in> set (g_players g). ownerSession q \<noteq> Some t" using t'(2) by (auto simp: referenced_def)
      moreover have "ownerSession p = Some s \<or> (\<exists>q \<in> set (g_players g). ownerSession q = ownerSession p)" by (rule own [OF p])
      ultimately show "ownerSession p \<noteq> Some t" using t'(3) by (elim disjE bexE) auto
    qed
    ultimately show "c_heap g' t \<noteq> None \<and> \<not> referenced t g'" using t'(1,2) alive by (simp add: referenced_def f uid rp ws(1) image_Un)
  next
    fix w assume "w \<in> set (c_writes g')"
    then show "c_heap g' (fst w) \<noteq> None" using I(8) [of w] ws alive by auto
  next
    show "recv_ok g'" using I(9) by (simp add: recv_ok_def f)
  qed (use I in \<open>simp_all add: f uid\<close>)
qed

lemma Run_running:
  assumes "PacketProcessor_Run proc r = Inr (out, r')"
  shows "r_IsRunning r' = r_IsRunning r"
proof (cases "r_IsRunning r")
  case True
  with assms obtain q where
    "(case cq_try_pop q of None \<Rightarrow> Inr (Run_sleeps, r)
      | Some (item, rest) \<Rightarrow>
          Inr (Run_item item, r\<lparr>r_PacketQueue := (r_PacketQueue r)[pp_ProcessQueue proc := rest]\<rparr>))
     = (Inr (out, r') :: (run_round \<times> PacketRouter) res)"
    by (auto simp: PacketProcessor_Run_def bindR_Inr_iff)
  then show ?thesis by (cases q) auto
qed (use assms in \<open>simp add: PacketProcessor_Run_def\<close>)

lemma worker_round_cases:
  assumes "PacketWorker_round h proc c = Inr (out, c')"
  obtains (none) r out1 where "PacketProcessor_Run proc (c_router c) = Inr (out1, r)" "c' = c\<lparr>c_router := r\<rparr>"
    | (item) r item s a where "PacketProcessor_Run proc (c_router c) = Inr (Run_item item, r)"
        "c_manager c (item_sessionId item) = Some s"
        "h (Some s) (memory_at (c\<lparr>c_router := r\<rparr>) (item_buffer item)) (item_len item) (c\<lparr>c_router := r\<rparr>) = Inr (a, c')"
proof -
  obtain out1 r where r: "PacketProcessor_Run proc (c_router c) = Inr (out1, r)"
    using assms by (auto simp: PacketWorker_round_def bindR_Inr_iff)
  show thesis
  proof (cases "\<exists>item s. out1 = Run_item item \<and> c_manager c (item_sessionId item) = Some s")
    case True
    then obtain item s where i: "out1 = Run_item item" "c_manager c (item_sessionId item) = Some s" by blast
    then have "\<exists>a. h (Some s) (memory_at (c\<lparr>c_router := r\<rparr>) (item_buffer item)) (item_len item) (c\<lparr>c_router := r\<rparr>) = Inr (a, c')"
      using assms r by (auto simp: PacketWorker_round_def bindR_Inr_iff SessionManager_GetSession_def Let_def)
    then show thesis using r i item by auto
  next
    case False
    then have "c' = c\<lparr>c_router := r\<rparr>"
      using assms r by (cases out1) (auto simp: PacketWorker_round_def SessionManager_GetSession_def)
    then show thesis by (rule none [OF r])
  qed
qed

lemma Worker_round_step:
  assumes inv: "server_inv g" and ev: "server_event env (Worker_round w) g = Some (Inr g')"
  obtains (idle) r where "g' = g\<lparr>c_router := r\<rparr>" "server_inv g'"
    | (handled) r s where "handler_frame s (g\<lparr>c_router := r\<rparr>) g'" "s \<in> set (m_Sessions (c_service g))" "server_inv g'"
proof -
  let ?proc = "\<lparr>pp_Id = int w, pp_ProcessQueue = w\<rparr>"
  have inv1: "server_inv (g\<lparr>c_router := r\<rparr>)" if r: "PacketProcessor_Run ?proc (c_router g) = Inr (out, r)" for out r
  proof -
    have "router_inv r" using router_inv_Run [OF _ r] server_invD(9) [OF inv] by (simp add: recv_ok_def)
    then show ?thesis
      using server_invD [OF inv] Run_running [OF r] by (intro server_invI) (simp_all add: recv_ok_def)
  qed
  obtain out where "PacketWorker_round (PacketHandler_HandlePacket env) ?proc g = Inr (out, g')"
    using ev by (auto simp: bindR_Inr_iff)
  then show thesis
  proof (cases rule: worker_round_cases)
    case (none r out1)
    then show thesis using idle inv1 by blast
  next
    case (item r it s a)
    have s: "s \<in> set (m_Sessions (c_service g))" using server_invD(4) [OF inv item(2)] by simp
    have fr: "handler_frame s (g\<lparr>c_router := r\<rparr>) g'" by (rule HandlePacket_frame [OF item(3)])
    have "server_inv g'" by (rule server_inv_handler [OF inv1 [OF item(1)] fr]) (use s in simp)
    with fr s show thesis by (rule handled)
  qed
qed

section \<open>Runs\<close>

lemma server_event_inv:
  assumes inv: "server_inv g" and en: "event_enabled e g" and ev: "server_event env e g = Some (Inr g')"
    and bound: "m_NextSessionUID (c_service g) < 2147483646"
  shows "server_inv g' \<and> m_NextSessionUID (c_service g') \<le> m_NextSessionUID (c_service g) + 1"
proof (cases e)
  case (Accepted ec mem)
  show ?thesis
  proof (cases "ec \<or> g_pool g = []")
    case True
    then show ?thesis using ev inv Accepted Accepted_error [of env mem g] Accepted_empty [of g env mem] by (cases ec) auto
  next
    case False
    then obtain s pool where pool: "g_pool g = s # pool" by (cases "g_pool g") auto
    obtain g1 where "server_event env (Accepted False mem) g = Some (Inr g1)" "server_inv g1"
      "m_NextSessionUID (c_service g1) = m_NextSessionUID (c_service g) + 1"
      by (rule Accepted_step [OF inv pool bound, of env mem])
    then show ?thesis using ev Accepted False by auto
  qed
next
  case (Received s chunk)
  have R: "server_inv g'" "core_same g g'" using Received_step [OF inv, of s chunk env g'] en ev Received by auto
  then show ?thesis by (simp add: core_same_def)
next
  case (Receive_failed s r)
  then have en': "event_enabled (Receive_failed s r) g" using en by simp
  obtain g1 where "server_event env (Receive_failed s r) g = Some (Inr g1)" "server_inv g1" "core_same g g1"
    by (rule Receive_failed_step [OF inv en', of env])
  then show ?thesis using ev Receive_failed by (auto simp: core_same_def)
next
  case (Written i ec len)
  then have en': "event_enabled (Written i ec len) g" using en by simp
  obtain s x g1 p where "server_event env (Written i ec len) g = Some (Inr (g1\<lparr>c_pool := p\<rparr>))" "server_inv g1"
    "core_same (g\<lparr>c_writes := take i (c_writes g) @ drop (Suc i) (c_writes g)\<rparr>) g1"
    by (rule Written_step [OF inv en', of env])
  then show ?thesis using ev Written by (auto simp: core_same_def)
next
  case Task_round
  show ?thesis
  proof (rule Task_round_step [OF inv, of env])
  qed (use ev Task_round in auto)
next
  case (Worker_round w)
  then have "server_event env (Worker_round w) g = Some (Inr g')" using ev by simp
  then show ?thesis by (rule Worker_round_step [OF inv]) (auto simp: handler_frame_def)
next
  case (Released s)
  then show ?thesis using Released_step [OF inv, of s] en ev by (auto simp: game_recycle_def)
qed

end
