(* ===== verification/Chat_Faults.thy ===== *)
theory Chat_Faults
  imports Chat_Service
begin

text \<open>
  Which packets end the server: for any bytes that a worker finds in the receive buffer, and for
  any state of the chat, the fault in which the handler ends, or that it ends in none and keeps
  the invariant of the chat. \<open>Chat_Service\<close> says what happens where the specification has a
  meaning; this theory covers the rest.
\<close>

section \<open>Answers of any length\<close>

text \<open>
  Answers of 65524 to 65535 bytes are the ones that \<^verbatim>\<open>MakePacket\<close> writes outside its array for;
  a longer one is sent as an empty packet.
\<close>

definition wraps :: "byte list \<Rightarrow> fault option" where
  "wraps body = (if 65523 < length body \<and> length body < 65536 then Some OutOfBounds else None)"

lemma copy_empty: "Packet_copy Packet_empty = Inr Packet_empty"
  by (simp add: Packet_copy_def Packet_empty_def)

lemma with_packet_outcome:
  assumes "n = length bytes"
  obtains (fault) e where "wraps bytes = Some e" "with_packet env ty n bytes k g = Inl e"
    | (packet) p pool where "wraps bytes = None" "with_packet env ty n bytes k g = k p (g\<lparr>c_pool := pool\<rparr>)" "Packet_copy p = Inr p"
proof -
  consider "length bytes \<le> 65523" | "65523 < length bytes" "length bytes < 65536" | "65535 < length bytes" by linarith
  then show thesis
  proof cases
    case 1
    then show thesis using packet [OF _ with_packet_ok [OF assms 1] copy_made_packet [OF 1]] by (simp add: wraps_def)
  next
    case 2
    then show thesis using fault assms by (simp add: wraps_def with_packet_def MakePacket_wraps)
  next
    case 3
    then have k: "with_packet env ty n bytes k g = k Packet_empty (g\<lparr>c_pool := c_pool g\<rparr>)"
      using assms by (simp add: with_packet_def MakePacket_too_long)
    show thesis by (rule packet [OF _ k copy_empty]) (use 3 in \<open>simp add: wraps_def\<close>)
  qed
qed

text \<open>What can come of a handler: the fault that is foreseen, or a state that satisfies the invariant.\<close>

definition ends :: "fault option \<Rightarrow> Game answer \<Rightarrow> bool" where
  "ends e h = (case e of Some e' \<Rightarrow> h = Inl e' | None \<Rightarrow> (\<exists>a g'. h = Inr (a, g') \<and> chat_inv g'))"

lemma ends_simps [simp]:
  "ends (Some e) h \<longleftrightarrow> h = Inl e" "chat_inv g \<Longrightarrow> ends None (Inr (a, g))"
  by (auto simp: ends_def)

lemma reply_ends:
  assumes "h = with_packet env ty n bytes (send_then s a) g1" "n = length bytes" "chat_inv g1" "can_send g1 s"
  shows "ends (wraps bytes) h"
proof (rule with_packet_outcome [OF assms(2), of env ty "send_then s a" g1])
  fix e assume "wraps bytes = Some e" "with_packet env ty n bytes (send_then s a) g1 = Inl e"
  then show ?thesis by (simp add: assms(1))
next
  fix p pool assume "wraps bytes = None" "with_packet env ty n bytes (send_then s a) g1 = send_then s a p (g1\<lparr>c_pool := pool\<rparr>)"
  then show ?thesis using assms(3,4) by (simp add: assms(1) send_then_ok)
qed

section \<open>Every request\<close>

fun fault_of :: "Env \<Rightarrow> session_ptr \<Rightarrow> request \<Rightarrow> ChatSpec \<Rightarrow> fault option" where
  "fault_of env s (Req_login m) st =
     wraps (LoginAck_Serialize \<lparr>login_ack_success = True, login_ack_userid = login_req_id m\<rparr>)"
| "fault_of env s (Req_list m) st = wraps (ChatRoomListAck_Serialize (spec_list st))"
| "fault_of env s (Req_create m) st =
     (case sp_users st s of
        None \<Rightarrow> Some OutOfBounds
      | Some _ \<Rightarrow>
          (case StringToUTF8 (env_win env) (create_req_roomname m) of
             Inl e \<Rightarrow> Some e
           | Inr _ \<Rightarrow> wraps (EnterChatRoomAck_Serialize
               \<lparr>enter_ack_roomid = ucast (sp_next st + 1), enter_ack_roomname = create_req_roomname m\<rparr>)))"
| "fault_of env s (Req_enter m) st =
     (let i = ucast (enter_req_roomid m) :: uint16
      in case (sp_users st s, sp_rooms st i) of
           (None, _) \<Rightarrow> Some OutOfBounds
         | (Some _, None) \<Rightarrow> Some NullDeref
         | (Some _, Some (name, _)) \<Rightarrow> wraps (EnterChatRoomAck_Serialize \<lparr>enter_ack_roomid = ucast i, enter_ack_roomname = name\<rparr>))"
| "fault_of env s (Req_chat m) st =
     (case sp_users st s of
        None \<Rightarrow> Some OutOfBounds
      | Some (name, i) \<Rightarrow>
          (case wraps (ChatAck_Serialize \<lparr>chat_ack_sender = name, chat_ack_message = chat_req_message m\<rparr>) of
             Some e \<Rightarrow> Some e
           | None \<Rightarrow> if sp_rooms st i = None then Some NullDeref else None))"
| "fault_of env s (Req_refresh m) st = None"
| "fault_of env s (Req_dummy m) st = wraps (DummyPacketAck_Serialize \<lparr>dummy_ack_message = dummy_req_message m\<rparr>)"

lemma no_user:
  assumes "can_send g s" "abs_users g s = None"
  obtains x where "c_heap g s = Some x" "m_Player x = []"
proof -
  obtain x where "c_heap g s = Some x" using assms(1) by (auto simp: can_send_def)
  then show thesis using assms(2) that by (cases "m_Player x") (auto simp: abs_users_def user_entry_def)
qed

lemma list_ends:
  assumes inv: "chat_inv g" and s: "can_send g s"
  shows "ends (wraps (ChatRoomListAck_Serialize (spec_list (abs_chat g)))) (HandleChatRoomListReq env (Some s) m g)"
proof (rule reply_ends [OF _ _ inv s])
  have v: "\<forall>(i, r) \<in> set (rm_ChatRoom (g_manager g)). r < length (g_rooms g)"
    using table_valid [OF chat_invD(1) [OF inv]] by blast
  have "collect_rooms (ChatRoomManager_GetAllRoom (g_manager g)) (g_rooms g) ChatRoomListAck_new = Inr (room_list g)"
    using collect_rooms_ok [OF v, of ChatRoomListAck_new]
    by (simp add: ChatRoomManager_GetAllRoom_def room_list_def ChatRoomListAck_new_def)
  then show "HandleChatRoomListReq env (Some s) m g = with_packet env ChatRoomListAck_t
      (ChatRoomListAck_ByteSizeLong (spec_list (abs_chat g))) (ChatRoomListAck_Serialize (spec_list (abs_chat g))) (send_then s (Some True)) g"
    by (simp add: HandleChatRoomListReq_def room_list_spec [OF inv])
qed (rule list_ack.size_ser)

lemma create_ends:
  assumes inv: "chat_inv g" and s: "can_send g s"
  shows "ends (fault_of env s (Req_create m) (abs_chat g)) (HandleCreateChatRoomReq env (Some s) m g)"
proof (cases "abs_users g s")
  case None
  then obtain x where "c_heap g s = Some x" "m_Player x = []" by (rule no_user [OF s])
  then show ?thesis using None no_player(2) by simp
next
  case (Some nj)
  then obtain name j where u: "abs_users g s = Some (name, j)" by (cases nj) auto
  show ?thesis
  proof (cases "StringToUTF8 (env_win env) (create_req_roomname m)")
    case (Inl e)
    obtain p where "first_player s g = Inr p" by (rule logged_in [OF inv u])
    then have "HandleCreateChatRoomReq env (Some s) m g = Inl e"
      using Inl by (simp add: HandleCreateChatRoomReq_def ChatRoomManager_CreateRoom_def ChatRoom_SetRoomInfo_def Let_def)
    then show ?thesis using u Inl by simp
  next
    case (Inr utf8)
    let ?ack = "\<lparr>enter_ack_roomid = ucast (roomNumber (g_manager g) + 1), enter_ack_roomname = create_req_roomname m\<rparr>"
    obtain g1 where "HandleCreateChatRoomReq env (Some s) m g =
        with_packet env EnterChatRoomAck_t (EnterChatRoomAck_ByteSizeLong ?ack) (EnterChatRoomAck_Serialize ?ack) (send_then s None) g1"
      "chat_inv g1" "can_send g1 s"
      by (rule create_shape [OF inv u Inr refl refl])
    then show ?thesis using u Inr reply_ends enter_ack.size_ser [of ?ack] by simp
  qed
qed

lemma enter_ends:
  assumes inv: "chat_inv g" and s: "can_send g s"
  shows "ends (fault_of env s (Req_enter m) (abs_chat g)) (HandleEnterChatRoomReq env (Some s) m g)"
proof (cases "abs_users g s")
  case None
  then obtain x where "c_heap g s = Some x" "m_Player x = []" by (rule no_user [OF s])
  then show ?thesis using None no_player(1) by (simp add: Let_def)
next
  case (Some nj)
  then obtain name j where u: "abs_users g s = Some (name, j)" by (cases nj) auto
  show ?thesis
  proof (cases "abs_rooms g (ucast (enter_req_roomid m))")
    case None
    then show ?thesis using u no_room(1) [OF inv u] by (simp add: Let_def)
  next
    case (Some nms)
    then obtain rname ms where r: "abs_rooms g (ucast (enter_req_roomid m)) = Some (rname, ms)" by (cases nms) auto
    let ?ack = "\<lparr>enter_ack_roomid = ucast (ucast (enter_req_roomid m) :: uint16), enter_ack_roomname = rname\<rparr>"
    obtain g1 where "HandleEnterChatRoomReq env (Some s) m g =
        with_packet env EnterChatRoomAck_t (EnterChatRoomAck_ByteSizeLong ?ack) (EnterChatRoomAck_Serialize ?ack) (send_then s None) g1"
      "chat_inv g1" "can_send g1 s"
      by (rule enter_shape [OF inv u r refl])
    then show ?thesis using u r reply_ends enter_ack.size_ser [of ?ack] by (simp add: Let_def)
  qed
qed

lemma chat_ends:
  assumes inv: "chat_inv g" and s: "can_send g s"
  shows "ends (fault_of env s (Req_chat m) (abs_chat g)) (HandleChatReq env (Some s) m g)"
proof (cases "abs_users g s")
  case None
  then obtain x where "c_heap g s = Some x" "m_Player x = []" by (rule no_user [OF s])
  then show ?thesis using None no_player(3) by simp
next
  case (Some nj)
  then obtain name i where u: "abs_users g s = Some (name, i)" by (cases nj) auto
  let ?ack = "\<lparr>chat_ack_sender = name, chat_ack_message = chat_req_message m\<rparr>"
  let ?k = "\<lambda>sel sendPacket g1. bindR (the_or NullDeref sel) (\<lambda>r. bindR (deref (g_rooms g1) r) (\<lambda>room.
      bindR (Packet_copy sendPacket) (\<lambda>argument. bindR (ChatRoom_BroadCast argument room g1) (\<lambda>g2. Inr (None, g2)))))"
  obtain p where p: "first_player s g = Inr p" "p < length (g_players g)"
    "m_Name (g_players g ! p) = name" "m_ChatRoomID (g_players g ! p) = i"
    by (rule logged_in [OF inv u]) blast
  let ?sel = "ChatRoomManager_GetRoom i (g_manager g)"
  have run: "HandleChatReq env (Some s) m g =
      with_packet env ChatAck_t (ChatAck_ByteSizeLong ?ack) (ChatAck_Serialize ?ack) (?k ?sel) g"
    using p by (simp add: HandleChatReq_def Let_def)
  show ?thesis
  proof (rule with_packet_outcome [OF chat_ack.size_ser, of ?ack env ChatAck_t "?k ?sel" g])
    fix e assume "wraps (ChatAck_Serialize ?ack) = Some e"
      "with_packet env ChatAck_t (ChatAck_ByteSizeLong ?ack) (ChatAck_Serialize ?ack) (?k ?sel) g = Inl e"
    then show ?thesis using u run by simp
  next
    fix pk pool assume o: "wraps (ChatAck_Serialize ?ack) = None" "Packet_copy pk = Inr pk"
      "with_packet env ChatAck_t (ChatAck_ByteSizeLong ?ack) (ChatAck_Serialize ?ack) (?k ?sel) g = ?k ?sel pk (g\<lparr>c_pool := pool\<rparr>)"
    show ?thesis
    proof (cases ?sel)
      case None
      then show ?thesis using u run o by (simp add: abs_rooms_def)
    next
      case (Some r)
      let ?g1 = "g\<lparr>c_pool := pool\<rparr>"
      have rv: "r < length (g_rooms g)" using GetRoom_valid [OF inv Some] by simp
      have "\<forall>(k, q) \<in> set (cr_ChatRoom (g_rooms g ! r)). q < length (g_players ?g1) \<and> ownerSession (g_players ?g1 ! q) \<noteq> None
          \<and> can_send ?g1 (owner_of (g_players ?g1) q)"
      proof clarify
        fix k q assume "(k, q) \<in> set (cr_ChatRoom (g_rooms g ! r))"
        then have "q \<in> set (members (g_rooms g ! r))" by (force simp: members_def)
        then have "q < length (g_players g)" using chat_invD(3) [OF inv rv] by simp
        with chat_invD(2) [OF inv this] show "q < length (g_players ?g1) \<and> ownerSession (g_players ?g1 ! q) \<noteq> None
          \<and> can_send ?g1 (owner_of (g_players ?g1) q)" by simp
      qed
      then obtain pool' ws where "broadcast_to pk (cr_ChatRoom (g_rooms g ! r)) ?g1 = Inr (?g1\<lparr>c_pool := pool', c_writes := ws\<rparr>)"
        using broadcast_copies [OF o(2)] by blast
      then have "HandleChatReq env (Some s) m g = Inr (None, ?g1\<lparr>c_pool := pool', c_writes := ws\<rparr>)"
        using run o rv Some by (simp add: ChatRoom_BroadCast_def)
      then show ?thesis using u o(1) Some inv by (simp add: abs_rooms_def)
    qed
  qed
qed

lemma request_ends:
  assumes inv: "chat_inv g" and s: "can_send g s"
  shows "ends (fault_of env s r (abs_chat g)) (handle_request env (Some s) r g)"
proof (cases r)
  case (Req_login m)
  let ?ack = "\<lparr>login_ack_success = True, login_ack_userid = login_req_id m\<rparr>"
  obtain g1 where "HandleLoginReq env (Some s) m g =
      with_packet env LoginAck_t (LoginAck_ByteSizeLong ?ack) (LoginAck_Serialize ?ack) (send_then s (Some True)) g1"
    "chat_inv g1" "can_send g1 s"
    by (rule login_shape [OF inv s refl])
  then show ?thesis using Req_login reply_ends login_ack.size_ser [of ?ack] by simp
next
  case (Req_dummy m)
  let ?ack = "\<lparr>dummy_ack_message = dummy_req_message m\<rparr>"
  have "HandleDummyPacketReq env (Some s) m g =
      with_packet env DummyPacketAck_t (DummyPacketAck_ByteSizeLong ?ack) (DummyPacketAck_Serialize ?ack) (send_then s (Some False)) g"
    by (simp add: HandleDummyPacketReq_def Let_def)
  then show ?thesis using Req_dummy reply_ends [OF _ _ inv s] dummy_ack.size_ser [of ?ack] by simp
next
  case (Req_refresh m)
  then show ?thesis using inv by (simp add: HandleRefreshChatRoomReq_def)
qed (use list_ends [OF inv s] create_ends [OF inv s] enter_ends [OF inv s] chat_ends [OF inv s] in simp_all)

section \<open>Every packet\<close>

text \<open>
  What a worker makes of the bytes at a queue item: no request can be read, the bytes do not
  parse, or a request.
\<close>

definition request_of :: "Env \<Rightarrow> uint16 \<Rightarrow> byte list \<Rightarrow> request option" where
  "request_of env ty body =
     (let utf8 = env_utf8 env
      in if ty = 1000 then map_option Req_enter (EnterChatRoomReq_Parse body)
         else if ty = 1002 then map_option Req_login (LoginReq_Parse utf8 body)
         else if ty = 1004 then map_option Req_list (ChatRoomListReq_Parse body)
         else if ty = 1006 then map_option Req_create (CreateChatRoomReq_Parse utf8 body)
         else if ty = 1008 then map_option Req_refresh (RefreshChatRoomReq_Parse body)
         else if ty = 1010 then map_option Req_chat (ChatReq_Parse utf8 body)
         else map_option Req_dummy (DummyPacketReq_Parse utf8 body))"

definition packet_request :: "Env \<Rightarrow> byte list \<Rightarrow> int \<Rightarrow> request option res" where
  "packet_request env buffer len =
     bindR (packet_type_of buffer) (\<lambda>ty.
       if ty \<notin> {1000, 1002, 1004, 1006, 1008, 1010, 1012} then Inl (if ty = 65535 then OutOfBounds else BadFunctionCall)
       else if len < 12 then Inl LengthError
       else if int (length buffer) < len then Inl OutOfBounds
       else Inr (request_of env ty (take (nat (len - 12)) (drop 12 buffer))))"

definition packet_fault :: "Env \<Rightarrow> session_ptr \<Rightarrow> byte list \<Rightarrow> int \<Rightarrow> ChatSpec \<Rightarrow> fault option" where
  "packet_fault env s buffer len st =
     (case packet_request env buffer len of
        Inl e \<Rightarrow> Some e
      | Inr None \<Rightarrow> None
      | Inr (Some r) \<Rightarrow> fault_of env s r st)"

lemma dispatch_as:
  assumes "packet_type_of buffer = Inr ty" "ty \<in> {1000, 1002, 1004, 1006, 1008, 1010, 1012}"
    "GPacketHadler env ty = Some (\<lambda>s. HandlePacket_parse parse (func s))"
    "\<And>body. request_of env ty body = map_option C (parse body)" "\<And>s m. handle_request env s (C m) = func s m"
  shows "PacketHandler_HandlePacket env s buffer len g =
     bindR (packet_request env buffer len) (\<lambda>r.
       case r of None \<Rightarrow> Inr (Some False, g) | Some q \<Rightarrow> handle_request env s q g)"
proof -
  have "ty \<noteq> 65535" using assms(2) by auto
  then have "PacketHandler_HandlePacket env s buffer len g = HandlePacket_parse parse (func s) buffer len g"
    using assms(1,3) by (simp add: PacketHandler_HandlePacket_def HandlePacket_by_def call_table_def)
  moreover have "packet_request env buffer len = (if len < 12 then Inl LengthError else if int (length buffer) < len then Inl OutOfBounds
      else Inr (request_of env ty (take (nat (len - 12)) (drop 12 buffer))))"
    using assms(1,2) by (simp add: packet_request_def del: insert_iff)
  ultimately show ?thesis
    using assms(4,5) by (cases "parse (take (nat (len - 12)) (drop 12 buffer))") (simp_all add: HandlePacket_parse_def)
qed

lemma packet_decoded:
  "PacketHandler_HandlePacket env s buffer len g =
     bindR (packet_request env buffer len) (\<lambda>r.
       case r of None \<Rightarrow> Inr (Some False, g) | Some q \<Rightarrow> handle_request env s q g)"
proof (cases "packet_type_of buffer")
  case (Inl e)
  then show ?thesis by (simp add: PacketHandler_HandlePacket_def HandlePacket_by_def packet_request_def)
next
  case (Inr ty)
  show ?thesis
  proof (cases "ty \<in> {1000, 1002, 1004, 1006, 1008, 1010, 1012}")
    case False
    then show ?thesis using unregistered_type [OF Inr False] by (simp add: packet_request_def Inr)
  next
    case True
    then consider "ty = 1000" | "ty = 1002" | "ty = 1004" | "ty = 1006" | "ty = 1008" | "ty = 1010" | "ty = 1012" by auto
    then show ?thesis
    proof cases
      case 1
      show ?thesis
        by (rule dispatch_as [OF Inr True, where C = Req_enter and parse = "EnterChatRoomReq_Parse" and func = "HandleEnterChatRoomReq env"])
          (simp_all add: GPacketHadler_def request_of_def 1 Let_def)
    next
      case 2
      show ?thesis
        by (rule dispatch_as [OF Inr True, where C = Req_login and parse = "LoginReq_Parse (env_utf8 env)" and func = "HandleLoginReq env"])
          (simp_all add: GPacketHadler_def request_of_def 2 Let_def)
    next
      case 3
      show ?thesis
        by (rule dispatch_as [OF Inr True, where C = Req_list and parse = "ChatRoomListReq_Parse" and func = "HandleChatRoomListReq env"])
          (simp_all add: GPacketHadler_def request_of_def 3 Let_def)
    next
      case 4
      show ?thesis
        by (rule dispatch_as [OF Inr True, where C = Req_create and parse = "CreateChatRoomReq_Parse (env_utf8 env)" and func = "HandleCreateChatRoomReq env"])
          (simp_all add: GPacketHadler_def request_of_def 4 Let_def)
    next
      case 5
      show ?thesis
        by (rule dispatch_as [OF Inr True, where C = Req_refresh and parse = "RefreshChatRoomReq_Parse" and func = "HandleRefreshChatRoomReq env"])
          (simp_all add: GPacketHadler_def request_of_def 5 Let_def)
    next
      case 6
      show ?thesis
        by (rule dispatch_as [OF Inr True, where C = Req_chat and parse = "ChatReq_Parse (env_utf8 env)" and func = "HandleChatReq env"])
          (simp_all add: GPacketHadler_def request_of_def 6 Let_def)
    next
      case 7
      show ?thesis
        by (rule dispatch_as [OF Inr True, where C = Req_dummy and parse = "DummyPacketReq_Parse (env_utf8 env)" and func = "HandleDummyPacketReq env"])
          (simp_all add: GPacketHadler_def request_of_def 7 Let_def)
    qed
  qed
qed

text \<open>Whatever bytes a worker finds.\<close>

lemma packet_ends:
  assumes "chat_inv g" "can_send g s"
  shows "ends (packet_fault env s buffer len (abs_chat g)) (PacketHandler_HandlePacket env (Some s) buffer len g)"
proof (cases "packet_request env buffer len")
  case (Inl e)
  then show ?thesis by (simp add: packet_decoded packet_fault_def)
next
  case (Inr r)
  then show ?thesis using assms request_ends [OF assms]
    by (cases r) (simp_all add: packet_decoded packet_fault_def)
qed

text \<open>
  C5. For any bytes that a worker finds at a queue item, of a session that is connected, and in
  any consistent state of the chat, it is decided what the handler does: it ends in exactly the
  fault that \<open>packet_fault\<close> names, which depends on the bytes and on the abstract state of the
  chat alone, or it returns and leaves a consistent state. No other bytes harm the server.
\<close>

theorem packet_outcome:
  assumes "chat_inv g" "can_send g s"
  shows "case packet_fault env s buffer len (abs_chat g) of
      Some e \<Rightarrow> PacketHandler_HandlePacket env (Some s) buffer len g = Inl e
    | None \<Rightarrow> \<exists>answer g'. PacketHandler_HandlePacket env (Some s) buffer len g = Inr (answer, g') \<and> chat_inv g'"
  using packet_ends [OF assms] by (simp add: ends_def split: option.splits)

theorem packet_outcome_witness:
  "PacketHandler_HandlePacket ex_env (Some (SessionPtr 10)) (packet_bytes (0, 0) 999 []) 12 ex_game = Inl BadFunctionCall
   \<and> (\<exists>answer g'. PacketHandler_HandlePacket ex_env (Some (SessionPtr 10)) (packet_bytes (0, 0) 1008 [] @ [1, 2]) 12 ex_game
        = Inr (answer, g') \<and> chat_inv g')"
proof
  have "packet_fault ex_env (SessionPtr 10) (packet_bytes (0, 0) 999 [] @ []) 12 (abs_chat ex_game) = Some BadFunctionCall"
    by (simp add: packet_fault_def packet_request_def del: append_Nil2)
  then show "PacketHandler_HandlePacket ex_env (Some (SessionPtr 10)) (packet_bytes (0, 0) 999 []) 12 ex_game = Inl BadFunctionCall"
    using packet_outcome [OF ex_chat_inv ex_can_send(1), of ex_env "packet_bytes (0, 0) 999 [] @ []" 12] by simp
  have "RefreshChatRoomReq_Parse [] \<noteq> None" using refresh_req.parse_ser by (simp add: RefreshChatRoomReq_Serialize_def)
  then have "packet_fault ex_env (SessionPtr 10) (packet_bytes (0, 0) 1008 [] @ [1, 2]) 12 (abs_chat ex_game) = None"
    by (auto simp: packet_fault_def packet_request_def request_of_def Let_def)
  then show "\<exists>answer g'. PacketHandler_HandlePacket ex_env (Some (SessionPtr 10)) (packet_bytes (0, 0) 1008 [] @ [1, 2]) 12 ex_game
        = Inr (answer, g') \<and> chat_inv g'"
    using packet_outcome [OF ex_chat_inv ex_can_send(1), of ex_env "packet_bytes (0, 0) 1008 [] @ [1, 2]" 12] by simp
qed

end
