(* ===== verification/Server_Run.thy ===== *)
theory Server_Run
  imports Server_Invariant Chat_Faults
begin

text \<open>
  The runs of the server from its start: \<open>main\<close> leaves a state that satisfies the invariant of
  \<open>Server_Invariant\<close>, every run keeps it, and so what it says holds of every reachable state. Then
  what is not lost on the way (\<open>watched\<close>), the consistency of the chat (\<open>chat_inv\<close>), what is never
  given back (\<open>later\<close>), and the failures that remain.
\<close>

section \<open>The state after the start\<close>

text \<open>The sessions that are put into the pool: nothing pending, never connected.\<close>

definition fresh_sessions :: "Game \<Rightarrow> bool" where
  "fresh_sessions g \<longleftrightarrow>
     distinct (g_pool g) \<and> (\<forall>s \<in> set (g_pool g). address s < g_next g \<and> c_heap g s \<noteq> None)
     \<and> (\<forall>s x. c_heap g s = Some x \<longrightarrow> session_ok x \<and> \<not> m_ReadPending x \<and> m_NetState x = NetState_None
          \<and> m_Player x = [])"

lemma GameSession_new_fresh:
  "GameSession_new uid = Inr x \<Longrightarrow> session_ok x \<and> \<not> m_ReadPending x \<and> m_NetState x = NetState_None \<and> m_Player x = []"
  by (auto simp: GameSession_new_def AsioSession_new_def PacketBuffer_new_def PacketBuffer_Init_def PacketBuffer_blank_def i32_id
      AsioSession.defs GameSession.defs session_ok_def pb_inv_def pb_empty_def)

lemma new_sessions_fresh:
  "new_sessions mem n g = Inr g' \<Longrightarrow> fresh_sessions g \<Longrightarrow>
   fresh_sessions g' \<and> c_manager g' = c_manager g \<and> c_service g' = c_service g \<and> c_writes g' = c_writes g
   \<and> g_players g' = g_players g \<and> c_tasks g' = c_tasks g \<and> c_router g' = c_router g \<and> c_buffers g' = c_buffers g
   \<and> g_rooms g' = g_rooms g \<and> g_manager g' = g_manager g"
proof (induction n arbitrary: g)
  case (Suc n)
  let ?s = "SessionPtr (g_next g)"
  obtain x where x: "GameSession_new (mem (g_next g)) = Inr x" "new_sessions mem n
      (g\<lparr>c_heap := (c_heap g)(?s \<mapsto> x), g_next := Suc (g_next g), g_pool := ObjectPool_Push ?s (g_pool g)\<rparr>) = Inr g'"
    using Suc.prems(1) by (auto simp: bindR_Inr_iff Let_def)
  have "fresh_sessions (g\<lparr>c_heap := (c_heap g)(?s \<mapsto> x), g_next := Suc (g_next g), g_pool := ObjectPool_Push ?s (g_pool g)\<rparr>)"
    using Suc.prems(2) GameSession_new_fresh [OF x(1)]
    by (fastforce simp: fresh_sessions_def ObjectPool_Push_def)
  then show ?case using Suc.IH [OF x(2)] by simp
qed simp

lemma started_inv:
  assumes "GameServer_main hw mem listens ec cfg = Inr (True, g)"
  shows "server_inv g" "m_NextSessionUID (c_service g) = 0" "m_Sessions (c_service g) = []"
    "\<And>s x. c_heap g s = Some x \<Longrightarrow> m_NetState x = NetState_None" "g_players g = []" "chat_inv g"
proof -
  obtain r where r: "PacketRouter_Init hw 0 True PacketRouter_new = Inr r" "router_inv r" "r_IsRunning r"
    using router_inv_Init router_inv_new by blast
  define g1 where "g1 = Game_blank\<lparr>c_router := r,
      c_pool := snd (PacketPool_Init (word_of_int (cfg_PacketPoolSize cfg)) (c_pool Game_blank))\<rparr>"
  have blank: "c_router Game_blank = PacketRouter_new" by (simp add: Game_blank_def)
  obtain g2 a where g2: "new_sessions mem (nat (cfg_SessionPoolSize cfg)) g1 = Inr g2"
    and g: "g = g2\<lparr>c_service := (c_service g2)\<lparr>m_Acceptor := True\<rparr>, c_acceptor := a, c_tasks := TaskQueue_Initialize hw 0 (c_tasks g2)\<rparr>"
    using assms unfolding GameServer_main_def Let_def blank r(1)
    by (auto simp: bindR_Inr_iff AsioServerService_Start_def simp flip: g1_def split: if_splits)
  have "fresh_sessions g1" by (simp add: fresh_sessions_def g1_def Game_blank_def)
  note N = new_sessions_fresh [OF g2 this]
  have f: "fresh_sessions g2" "c_manager g2 = Map.empty" "c_service g2 = AsioService_new ServiceType_Server True 1"
    "c_writes g2 = []" "g_players g2 = []" "c_tasks g2 = TaskQueue_new" "c_router g2 = r" "c_buffers g2 = Map.empty"
    "g_rooms g2 = []" "g_manager g2 = ChatRoomManager_new"
    using N by (simp_all add: g1_def Game_blank_def)
  have s: "m_Sessions (c_service g2) = []" "m_NextSessionUID (c_service g2) = 0" using f(3) by (simp_all add: AsioService_new_def)
  show "m_NextSessionUID (c_service g) = 0" "m_Sessions (c_service g) = []" "g_players g = []"
    using s f(5) by (simp_all add: g)
  show "\<And>s x. c_heap g s = Some x \<Longrightarrow> m_NetState x = NetState_None" using f(1) by (auto simp: g fresh_sessions_def)
  show "chat_inv g" using f(1,5,9,10) by (auto simp: g chat_inv_def fresh_sessions_def)
  show "server_inv g"
  proof (rule server_invI)
    show "service_inv (c_service g)" using service_inv_new [of ServiceType_Server True 1] by (simp add: g f(3) service_inv_def)
    fix t assume "t \<in> set (g_pool g)"
    then show "c_heap g t \<noteq> None \<and> \<not> referenced t g"
      using f s by (auto simp: g referenced_def fresh_sessions_def split: option.splits)
  qed (use f s r in \<open>auto simp: g fresh_sessions_def recv_ok_def TaskQueue_Initialize_def TaskQueue_new_def\<close>)
qed

section \<open>The invariant of every run\<close>

lemma server_run_inv:
  "server_run env g es g' \<Longrightarrow> server_inv g \<Longrightarrow> m_NextSessionUID (c_service g) + int (length es) < 2147483647 \<Longrightarrow>
   server_inv g' \<and> m_NextSessionUID (c_service g') \<le> m_NextSessionUID (c_service g) + int (length es)"
proof (induction rule: server_run.induct)
  case (event es g1 e g2)
  then have "server_inv g1 \<and> m_NextSessionUID (c_service g1) \<le> m_NextSessionUID (c_service g) + int (length es)" by simp
  with event show ?case using server_event_inv [of g1 e env g2] by fastforce
qed simp

lemma started_run_inv:
  assumes "GameServer_main hw mem listens ec cfg = Inr (True, g0)" "server_run env g0 es g" "length es < 2147483646"
  shows "server_inv g \<and> m_NextSessionUID (c_service g) < 2147483646"
  using server_run_inv [OF assms(2)] started_inv [OF assms(1)] assms(3) by simp

section \<open>No session is forgotten\<close>

text \<open>
  A registered session reads, or has been disconnected and its task is in the queue. What lies in
  the pool has not been disconnected yet.
\<close>

definition watched :: "Game \<Rightarrow> session_ptr \<Rightarrow> bool" where
  "watched g s \<longleftrightarrow>
     (case c_heap g s of
        None \<Rightarrow> False
      | Some x \<Rightarrow> if m_NetState x = NetState_Disconnect
                   then IoTask_of (m_SessionUID x) NetState_Disconnect \<in> set (tq_TaskQueue (c_tasks g))
                   else m_ReadPending x)"

definition all_watched :: "Game \<Rightarrow> bool" where
  "all_watched g \<longleftrightarrow> (\<forall>s \<in> set (m_Sessions (c_service g)). watched g s)
     \<and> (\<forall>s \<in> set (g_pool g). \<forall>x. c_heap g s = Some x \<longrightarrow> m_NetState x \<noteq> NetState_Disconnect)"

lemma all_watchedI:
  assumes "\<And>s. s \<in> set (m_Sessions (c_service g)) \<Longrightarrow> watched g s"
    "\<And>s x. s \<in> set (g_pool g) \<Longrightarrow> c_heap g s = Some x \<Longrightarrow> m_NetState x \<noteq> NetState_Disconnect"
  shows "all_watched g"
  using assms by (auto simp: all_watched_def)

lemma all_watchedD:
  assumes "all_watched g"
  shows "s \<in> set (m_Sessions (c_service g)) \<Longrightarrow> watched g s"
    "s \<in> set (g_pool g) \<Longrightarrow> c_heap g s = Some x \<Longrightarrow> m_NetState x \<noteq> NetState_Disconnect"
  using assms by (auto simp: all_watched_def)

lemma all_watched_fields [simp]:
  "all_watched (g\<lparr>c_pool := p\<rparr>) = all_watched g" "all_watched (g\<lparr>c_writes := ws\<rparr>) = all_watched g"
  "all_watched (g\<lparr>c_router := r\<rparr>) = all_watched g"
  by (simp_all add: all_watched_def watched_def cong: option.case_cong)

text \<open>A completion: the session goes on reading, or is disconnected from here on.\<close>

lemma watched_effect:
  assumes inv: "server_inv g" and w: "all_watched g" and eff: "session_effect pend s g g'" and same: "core_same g g'"
    and ref: "s \<notin> set (g_pool g)"
    and pend: "\<And>x y. c_heap g s = Some x \<Longrightarrow> c_heap g' s = Some y \<Longrightarrow> m_NetState y \<noteq> NetState_Disconnect \<Longrightarrow> m_ReadPending x \<Longrightarrow> pend"
  shows "all_watched g'"
proof -
  obtain x b st where e: "c_heap g s = Some x" "c_heap g' = (c_heap g)(s \<mapsto> x\<lparr>m_PacketBuffer := b, m_NetState := st, m_ReadPending := pend\<rparr>)"
    "st = m_NetState x \<and> c_tasks g' = c_tasks g \<or> m_NetState x \<noteq> NetState_Disconnect \<and> st = NetState_Disconnect
      \<and> c_tasks g' = TaskQueue_PushTask (m_SessionUID x) NetState_Disconnect (c_tasks g)"
    using eff by (auto simp: session_effect_def)
  have c: "c_service g' = c_service g" "g_pool g' = g_pool g"
    using same by (simp_all add: core_same_def) (cases g; cases g'; simp)
  have q: "set (tq_TaskQueue (c_tasks g)) \<subseteq> set (tq_TaskQueue (c_tasks g'))"
    "m_NetState x \<noteq> NetState_Disconnect \<Longrightarrow> st = NetState_Disconnect \<Longrightarrow>
     IoTask_of (m_SessionUID x) NetState_Disconnect \<in> set (tq_TaskQueue (c_tasks g'))"
    using e(3) server_invD(11) [OF inv] by (auto simp: TaskQueue_PushTask_def cq_push_def)
  show ?thesis
  proof (rule all_watchedI)
    fix t assume "t \<in> set (m_Sessions (c_service g'))"
    then have t: "watched g t" using all_watchedD(1) [OF w] c by simp
    show "watched g' t"
    proof (cases "t = s")
      case True
      show ?thesis
      proof (cases "st = NetState_Disconnect")
        case dis: True
        then show ?thesis using t True e(1,2) q by (cases "m_NetState x = NetState_Disconnect") (auto simp: watched_def)
      next
        case False
        then have "m_ReadPending x" using t True e(1,3) by (auto simp: watched_def split: if_splits)
        then have pend using pend [of x] e(1,2) False by simp
        then show ?thesis using False True e(2) by (simp add: watched_def)
      qed
    next
      case False
      then show ?thesis using t e(2) q(1) by (auto simp: watched_def split: option.splits if_splits)
    qed
  next
    fix t y assume "t \<in> set (g_pool g')" "c_heap g' t = Some y"
    then show "m_NetState y \<noteq> NetState_Disconnect" using all_watchedD(2) [OF w] ref e(2) c by (auto split: if_splits)
  qed
qed

text \<open>Every event but the return of a session to the pool keeps this.\<close>

lemma server_event_watched:
  assumes inv: "server_inv g" and wat: "all_watched g" and en: "event_enabled e g" and ev: "server_event env e g = Some (Inr g')"
    and bound: "m_NextSessionUID (c_service g) < 2147483646" and no: "\<forall>s. e \<noteq> Released s"
  shows "all_watched g'"
proof (cases e)
  case (Accepted ec mem)
  show ?thesis
  proof (cases "ec \<or> g_pool g = []")
    case True
    then show ?thesis using ev wat Accepted Accepted_error [of env mem g] Accepted_empty [of g env mem] by (cases ec) auto
  next
    case False
    then obtain s pool where pool: "g_pool g = s # pool" by (cases "g_pool g") auto
    obtain g1 x x' where s: "server_event env (Accepted False mem) g = Some (Inr g1)" "c_heap g s = Some x"
      "c_heap g1 = (c_heap g)(s \<mapsto> x')" "m_ReadPending x'" "m_NetState x' = m_NetState x" "g_pool g1 = pool" "c_tasks g1 = c_tasks g"
      "set (m_Sessions (c_service g1)) = insert s (set (m_Sessions (c_service g)))" "s \<notin> set (m_Sessions (c_service g))"
      by (rule Accepted_step [OF inv pool bound, of env mem])
    have g1: "g' = g1" using s(1) ev Accepted False by simp
    have st: "m_NetState x' \<noteq> NetState_Disconnect" using all_watchedD(2) [OF wat _ s(2)] pool s(5) by simp
    have dis: "s \<notin> set pool" using server_invD(6) [OF inv] pool by simp
    show ?thesis unfolding g1
    proof (rule all_watchedI)
      fix t assume "t \<in> set (m_Sessions (c_service g1))"
      then show "watched g1 t" using all_watchedD(1) [OF wat, of t] s st by (auto simp: watched_def split: option.splits)
    next
      fix t y assume t: "t \<in> set (g_pool g1)" "c_heap g1 t = Some y"
      then have "t \<noteq> s" using s(6) dis by auto
      with t show "m_NetState y \<noteq> NetState_Disconnect" using all_watchedD(2) [OF wat, of t y] s(3,6) pool by simp
    qed
  qed
next
  case (Received s chunk)
  have R: "session_effect True s g g'" "core_same g g'" "referenced s g" using Received_step [OF inv, of s chunk env g'] en ev Received by auto
  have "s \<notin> set (g_pool g)" using server_invD(7) [OF inv] R(3) by blast
  then show ?thesis by (rule watched_effect [OF inv wat R(1,2)]) simp
next
  case (Receive_failed s r)
  then have en': "event_enabled (Receive_failed s r) g" using en by simp
  obtain g1 where g1: "server_event env (Receive_failed s r) g = Some (Inr g1)" "session_effect False s g g1" "core_same g g1" "referenced s g"
    "\<exists>y. c_heap g1 s = Some y \<and> m_NetState y = NetState_Disconnect"
    by (rule Receive_failed_step [OF inv en', of env])
  have "g' = g1" using ev g1(1) Receive_failed by simp
  moreover have "s \<notin> set (g_pool g)" using server_invD(7) [OF inv] g1(4) by blast
  then have "all_watched g1" by (rule watched_effect [OF inv wat g1(2,3)]) (use g1(5) in auto)
  ultimately show ?thesis by simp
next
  case (Written i ec len)
  let ?g0 = "g\<lparr>c_writes := take i (c_writes g) @ drop (Suc i) (c_writes g)\<rparr>"
  have en': "event_enabled (Written i ec len) g" using en Written by simp
  obtain s x g1 p where g1: "server_event env (Written i ec len) g = Some (Inr (g1\<lparr>c_pool := p\<rparr>))" "server_inv ?g0"
    "c_heap g s = Some x" "session_effect (m_ReadPending x) s ?g0 g1" "core_same ?g0 g1" "referenced s g"
    by (rule Written_step [OF inv en', of env])
  have w0: "all_watched ?g0" using wat by simp
  have "s \<notin> set (g_pool ?g0)" using server_invD(7) [OF inv] g1(6) by auto
  then have "all_watched g1" by (rule watched_effect [OF g1(2) w0 g1(4,5)]) (use g1(3) in simp)
  moreover have "g' = g1\<lparr>c_pool := p\<rparr>" using ev g1(1) Written by simp
  ultimately show ?thesis by simp
next
  case Task_round
  show ?thesis
  proof (rule Task_round_step [OF inv, of env])
    fix g1 assume "server_event env Task_round g = Some (Inr g1)" "g1 = g\<lparr>c_tasks := c_tasks g\<rparr>"
    then show ?thesis using ev wat Task_round by simp
  next
    fix t q g1 assume s: "server_event env Task_round g = Some (Inr g1)" "g1 = g\<lparr>c_tasks := q\<rparr>"
      "tq_TaskQueue (c_tasks g) = t # tq_TaskQueue q" "c_manager g (task_sessionUID t) = None"
    have g1: "g' = g\<lparr>c_tasks := q\<rparr>" using ev s(1,2) Task_round by simp
    show ?thesis unfolding g1
    proof (rule all_watchedI)
      fix s' assume "s' \<in> set (m_Sessions (c_service (g\<lparr>c_tasks := q\<rparr>)))"
      then have "watched g s'" "registered_ok g s'" using all_watchedD(1) [OF wat] server_invD(3) [OF inv] by auto
      then show "watched (g\<lparr>c_tasks := q\<rparr>) s'" using s(3,4)
        by (auto simp: watched_def registered_ok_def IoTask_of_def split: if_splits)
    qed (use all_watchedD(2) [OF wat] in auto)
  next
    fix t q s g1 x assume s: "server_event env Task_round g = Some (Inr g1)"
      "tq_TaskQueue (c_tasks g) = t # tq_TaskQueue q" "c_tasks g1 = q" "c_manager g (task_sessionUID t) = Some s"
      "set (m_Sessions (c_service g1)) = set (m_Sessions (c_service g)) - {s}" "g_pool g1 = g_pool g"
      "c_heap g1 = (c_heap g)(s \<mapsto> x\<lparr>m_Socket := Some False\<rparr>)"
    have g1: "g' = g1" using ev s(1) Task_round by simp
    have sp: "s \<notin> set (g_pool g)" using server_invD(7) [OF inv] server_invD(4) [OF inv s(4)] by (auto simp: referenced_def)
    show ?thesis unfolding g1
    proof (rule all_watchedI)
      fix s' assume "s' \<in> set (m_Sessions (c_service g1))"
      then have s': "s' \<in> set (m_Sessions (c_service g))" "s' \<noteq> s" using s(5) by simp_all
      have "watched g s'" "registered_ok g s'" using s'(1) all_watchedD(1) [OF wat] server_invD(3) [OF inv] by auto
      then show "watched g1 s'" using s(2-4,7) s'(2)
        by (auto simp: watched_def registered_ok_def IoTask_of_def split: if_splits)
    next
      fix u y assume "u \<in> set (g_pool g1)" "c_heap g1 u = Some y"
      then show "m_NetState y \<noteq> NetState_Disconnect" using all_watchedD(2) [OF wat, of u y] s(6,7) sp by (cases "u = s") auto
    qed
  qed
next
  case (Worker_round w)
  then have ev': "server_event env (Worker_round w) g = Some (Inr g')" using ev by simp
  have keep: "all_watched g'" if fr: "handler_frame s (g\<lparr>c_router := r\<rparr>) g'" for r s
  proof -
    have f: "c_service g' = c_service g" "g_pool g' = g_pool g" "c_tasks g' = c_tasks g" and b: "\<And>t. bare (c_heap g' t) = bare (c_heap g t)"
      using fr by (simp_all add: handler_frame_def)
    have state: "map_option (\<lambda>x. (m_NetState x, m_ReadPending x, m_SessionUID x)) (c_heap g' t)
      = map_option (\<lambda>x. (m_NetState x, m_ReadPending x, m_SessionUID x)) (c_heap g t)" for t
    proof (cases "c_heap g t")
      case None
      then show ?thesis using b [of t] by (simp add: bare_def)
    next
      case (Some x)
      then obtain ps where "c_heap g' t = Some (x\<lparr>m_Player := ps\<rparr>)" using b [of t] by (auto elim: bareD)
      with Some show ?thesis by simp
    qed
    have "watched g' t = watched g t" for t
      using state [of t] by (auto simp: watched_def f split: option.splits)
    moreover have "m_NetState y \<noteq> NetState_Disconnect" if "t \<in> set (g_pool g)" "c_heap g' t = Some y" for t y
      using state [of t] all_watchedD(2) [OF wat that(1)] that(2) by (cases "c_heap g t") auto
    ultimately show ?thesis using all_watchedD(1) [OF wat] by (intro all_watchedI) (simp_all add: f)
  qed
  show ?thesis
  proof (rule Worker_round_step [OF inv ev'])
    fix r assume "g' = g\<lparr>c_router := r\<rparr>"
    then show ?thesis using wat by simp
  qed (rule keep)
next
  case (Released s)
  then show ?thesis using no by simp
qed

section \<open>The chat\<close>

text \<open>The state of the chat is consistent in every reachable state, whatever the clients send.\<close>

lemma chat_inv_frame:
  assumes inv: "chat_inv g" and same: "g_players g' = g_players g" "g_rooms g' = g_rooms g" "g_manager g' = g_manager g"
    and heap: "\<And>t y. c_heap g' t = Some y \<Longrightarrow> \<exists>x. c_heap g t = Some x \<and> m_Player y = m_Player x"
      "\<And>t x. c_heap g t = Some x \<Longrightarrow> m_Socket x \<noteq> None \<Longrightarrow> \<exists>y. c_heap g' t = Some y \<and> m_Socket y \<noteq> None"
  shows "chat_inv g'"
proof -
  have send: "can_send g t \<Longrightarrow> can_send g' t" for t using heap(2) by (auto simp: can_send_def)
  have "\<exists>s. ownerSession (g_players g ! p) = Some s \<and> can_send g' s" if "p < length (g_players g)" for p
    using chat_invD(2) [OF inv that] send by blast
  moreover have "p < length (g_players g) \<and> ownerSession (g_players g ! p) = Some t"
    if "c_heap g' t = Some y" "p \<in> set (m_Player y)" for t y p
    using heap(1) [OF that(1)] that(2) inv by (auto simp: chat_inv_def)
  ultimately show ?thesis using inv by (simp add: chat_inv_def same)
qed

lemma chat_inv_effect:
  assumes inv: "chat_inv g" and eff: "session_effect pend s g g'" and same: "core_same g g'"
  shows "chat_inv g'"
proof -
  obtain x b st where e: "c_heap g s = Some x" "c_heap g' = (c_heap g)(s \<mapsto> x\<lparr>m_PacketBuffer := b, m_NetState := st, m_ReadPending := pend\<rparr>)"
    using eff by (auto simp: session_effect_def)
  have c: "g_players g' = g_players g" "g_rooms g' = g_rooms g" "g_manager g' = g_manager g"
    using same by (simp_all add: core_same_def) (cases g; cases g'; simp)+
  show ?thesis by (rule chat_inv_frame [OF inv c]) (use e in \<open>auto split: if_splits\<close>)
qed

text \<open>The fault that a worker is about to run into.\<close>

definition worker_fault :: "Env \<Rightarrow> nat \<Rightarrow> Game \<Rightarrow> fault option" where
  "worker_fault env w g =
     (case PacketProcessor_Run \<lparr>pp_Id = int w, pp_ProcessQueue = w\<rparr> (c_router g) of
        Inr (Run_item item, _) \<Rightarrow>
          (case c_manager g (item_sessionId item) of
             None \<Rightarrow> None
           | Some s \<Rightarrow> packet_fault env s (memory_at g (item_buffer item)) (item_len item) (abs_chat g))
      | _ \<Rightarrow> None)"

lemma Worker_round_exact:
  assumes inv: "server_inv g" and chat: "chat_inv g" and en: "event_enabled (Worker_round w) g"
  shows "case worker_fault env w g of
      Some e \<Rightarrow> server_event env (Worker_round w) g = Some (Inl e)
    | None \<Rightarrow> \<exists>g'. server_event env (Worker_round w) g = Some (Inr g') \<and> chat_inv g'"
proof -
  let ?proc = "\<lparr>pp_Id = int w, pp_ProcessQueue = w\<rparr>"
  have r: "router_inv (c_router g)" "r_IsRunning (c_router g)" using server_invD(9,10) [OF inv] by (simp_all add: recv_ok_def)
  then have "int w < int (length (r_PacketQueue (c_router g)))" using en by (auto simp: router_inv_def)
  then have q: "subscript (r_PacketQueue (c_router g)) (int w) = Inr (r_PacketQueue (c_router g) ! w)"
    by (simp add: subscript_def in_vec_def)
  then obtain out r' where run: "PacketProcessor_Run ?proc (c_router g) = Inr (out, r')"
    using r(2) by (cases "cq_try_pop (r_PacketQueue (c_router g) ! w)") (auto simp: PacketProcessor_Run_def)
  show ?thesis
  proof (cases "\<exists>item s. out = Run_item item \<and> c_manager g (item_sessionId item) = Some s")
    case False
    then have "worker_fault env w g = None"
      using run by (cases out) (auto simp: worker_fault_def split: option.splits)
    moreover have "server_event env (Worker_round w) g = Some (Inr (g\<lparr>c_router := r'\<rparr>))"
      using False run by (cases out) (auto simp: PacketWorker_round_def SessionManager_GetSession_def Let_def)
    ultimately show ?thesis using chat by simp
  next
    case True
    then obtain item s where i: "out = Run_item item" "c_manager g (item_sessionId item) = Some s" by blast
    let ?g1 = "g\<lparr>c_router := r'\<rparr>"
    have mem: "memory_at ?g1 p = memory_at g p" for p by (simp add: memory_at_def)
    have f: "worker_fault env w g = packet_fault env s (memory_at g (item_buffer item)) (item_len item) (abs_chat ?g1)"
      using run i by (simp add: worker_fault_def)
    have "registered_ok g s" using server_invD(4) [OF inv i(2)] server_invD(3) [OF inv] by simp
    then have "can_send ?g1 s" by (auto simp: registered_ok_def can_send_def)
    then have "ends (worker_fault env w g) (PacketHandler_HandlePacket env (Some s) (memory_at ?g1 (item_buffer item)) (item_len item) ?g1)"
      using packet_ends [of ?g1 s] chat unfolding f mem by simp
    then show ?thesis
      using run i by (auto simp: ends_def PacketWorker_round_def SessionManager_GetSession_def Let_def split: option.splits)
  qed
qed

lemma server_event_chat:
  assumes inv: "server_inv g" and chat: "chat_inv g" and en: "event_enabled e g" and ev: "server_event env e g = Some (Inr g')"
    and bound: "m_NextSessionUID (c_service g) < 2147483646"
  shows "chat_inv g'"
proof (cases e)
  case (Accepted ec mem)
  show ?thesis
  proof (cases "ec \<or> g_pool g = []")
    case True
    then show ?thesis using ev chat Accepted Accepted_error [of env mem g] Accepted_empty [of g env mem] by (cases ec) auto
  next
    case False
    then obtain s pool where pool: "g_pool g = s # pool" by (cases "g_pool g") auto
    obtain g1 x x' where a: "server_event env (Accepted False mem) g = Some (Inr g1)" "c_heap g s = Some x"
      "c_heap g1 = (c_heap g)(s \<mapsto> x')" "g_players g1 = g_players g" "g_rooms g1 = g_rooms g" "g_manager g1 = g_manager g"
      "m_Player x' = m_Player x" "m_Socket x' = Some True"
      by (rule Accepted_step [OF inv pool bound, of env mem])
    have "chat_inv g1" by (rule chat_inv_frame [OF chat a(4-6)]) (use a in \<open>auto split: if_splits\<close>)
    then show ?thesis using ev a(1) Accepted False by simp
  qed
next
  case (Received s chunk)
  then show ?thesis using Received_step [OF inv, of s chunk env g'] en ev chat_inv_effect [OF chat] by auto
next
  case (Receive_failed s r)
  then have en': "event_enabled (Receive_failed s r) g" using en by simp
  obtain g1 where "server_event env (Receive_failed s r) g = Some (Inr g1)" "session_effect False s g g1" "core_same g g1"
    by (rule Receive_failed_step [OF inv en', of env])
  then show ?thesis using ev Receive_failed chat_inv_effect [OF chat] by auto
next
  case (Written i ec len)
  let ?g0 = "g\<lparr>c_writes := take i (c_writes g) @ drop (Suc i) (c_writes g)\<rparr>"
  have en': "event_enabled (Written i ec len) g" using en Written by simp
  obtain s x g1 p where g1: "server_event env (Written i ec len) g = Some (Inr (g1\<lparr>c_pool := p\<rparr>))" "c_heap g s = Some x"
    "session_effect (m_ReadPending x) s ?g0 g1" "core_same ?g0 g1"
    by (rule Written_step [OF inv en', of env])
  have "chat_inv g1" by (rule chat_inv_effect [OF _ g1(3,4)]) (use chat in simp)
  moreover have "g' = g1\<lparr>c_pool := p\<rparr>" using ev g1(1) Written by simp
  ultimately show ?thesis by simp
next
  case Task_round
  show ?thesis
  proof (rule Task_round_step [OF inv, of env])
    fix s g1 x assume s: "server_event env Task_round g = Some (Inr g1)" "c_heap g s = Some x"
      "c_heap g1 = (c_heap g)(s \<mapsto> x\<lparr>m_Socket := Some False\<rparr>)" "g_players g1 = g_players g" "g_rooms g1 = g_rooms g"
      "g_manager g1 = g_manager g"
    have "chat_inv g1" by (rule chat_inv_frame [OF chat s(4-6)]) (use s in \<open>auto split: if_splits\<close>)
    then show ?thesis using ev s(1) Task_round by simp
  qed (use ev Task_round chat in \<open>auto intro: chat_inv_frame [OF chat]\<close>)
next
  case (Worker_round w)
  then show ?thesis using Worker_round_exact [OF inv chat, of w env] en ev by (auto split: option.splits)
next
  case (Released s)
  have "chat_inv (game_recycle s g)" by (rule chat_inv_frame [OF chat]) (simp_all add: game_recycle_def)
  then show ?thesis using ev Released by simp
qed

lemma server_run_chat:
  "server_run env g es g' \<Longrightarrow> server_inv g \<Longrightarrow> chat_inv g \<Longrightarrow>
   m_NextSessionUID (c_service g) + int (length es) < 2147483647 \<Longrightarrow> chat_inv g'"
proof (induction rule: server_run.induct)
  case (event es g1 e g2)
  have "server_inv g1 \<and> m_NextSessionUID (c_service g1) < 2147483646"
    using server_run_inv [OF event.hyps(1) event.prems(1)] event.prems(3) by simp
  moreover have "chat_inv g1" using event by simp
  ultimately show ?case using server_event_chat [OF _ _ event.hyps(2,3)] by simp
qed

section \<open>What is never given back\<close>

text \<open>
  Later states have no session objects that the earlier one did not have, and whoever owned a
  player owns one still.
\<close>

definition later :: "Game \<Rightarrow> Game \<Rightarrow> bool" where
  "later g g' \<longleftrightarrow> (\<forall>t. c_heap g' t \<noteq> None \<longrightarrow> c_heap g t \<noteq> None)
     \<and> (\<forall>q \<in> set (g_players g). \<exists>p \<in> set (g_players g'). ownerSession p = ownerSession q)"

lemma later_refl [simp]: "later g g"
  by (auto simp: later_def)

lemma later_trans: "later g1 g2 \<Longrightarrow> later g2 g3 \<Longrightarrow> later g1 g3"
  unfolding later_def by metis

lemma later_same: "\<forall>t. c_heap g' t \<noteq> None \<longrightarrow> c_heap g t \<noteq> None \<Longrightarrow> g_players g' = g_players g \<Longrightarrow> later g g'"
  by (auto simp: later_def)

lemma later_effect: "session_effect pend s g g' \<Longrightarrow> core_same g g' \<Longrightarrow> later g g'"
proof (rule later_same)
  assume "core_same g g'"
  then show "g_players g' = g_players g" by (simp add: core_same_def) (cases g; cases g'; simp)
next
  assume "session_effect pend s g g'"
  then obtain x y where "c_heap g s = Some x" "c_heap g' = (c_heap g)(s \<mapsto> y)" by (auto simp: session_effect_def)
  then show "\<forall>t. c_heap g' t \<noteq> None \<longrightarrow> c_heap g t \<noteq> None" by simp
qed

lemma server_event_later:
  assumes inv: "server_inv g" and en: "event_enabled e g" and ev: "server_event env e g = Some (Inr g')"
    and bound: "m_NextSessionUID (c_service g) < 2147483646"
  shows "later g g'"
proof (cases e)
  case (Accepted ec mem)
  show ?thesis
  proof (cases "ec \<or> g_pool g = []")
    case True
    then show ?thesis using ev Accepted Accepted_error [of env mem g] Accepted_empty [of g env mem] by (cases ec) auto
  next
    case False
    then obtain s pool where pool: "g_pool g = s # pool" by (cases "g_pool g") auto
    obtain g1 x x' where "server_event env (Accepted False mem) g = Some (Inr g1)" "c_heap g s = Some x"
      "c_heap g1 = (c_heap g)(s \<mapsto> x')" "g_players g1 = g_players g"
      by (rule Accepted_step [OF inv pool bound, of env mem])
    then show ?thesis using ev Accepted False by (intro later_same) auto
  qed
next
  case (Received s chunk)
  then show ?thesis using Received_step [OF inv, of s chunk env g'] en ev later_effect by auto
next
  case (Receive_failed s r)
  then have en': "event_enabled (Receive_failed s r) g" using en by simp
  obtain g1 where "server_event env (Receive_failed s r) g = Some (Inr g1)" "session_effect False s g g1" "core_same g g1"
    by (rule Receive_failed_step [OF inv en', of env])
  then show ?thesis using ev Receive_failed later_effect by auto
next
  case (Written i ec len)
  let ?g0 = "g\<lparr>c_writes := take i (c_writes g) @ drop (Suc i) (c_writes g)\<rparr>"
  have en': "event_enabled (Written i ec len) g" using en Written by simp
  obtain s x g1 p where g1: "server_event env (Written i ec len) g = Some (Inr (g1\<lparr>c_pool := p\<rparr>))"
    "c_heap g s = Some x" "session_effect (m_ReadPending x) s ?g0 g1" "core_same ?g0 g1"
    by (rule Written_step [OF inv en', of env])
  have "later ?g0 g1" by (rule later_effect [OF g1(3,4)])
  moreover have "g' = g1\<lparr>c_pool := p\<rparr>" using ev g1(1) Written by simp
  ultimately show ?thesis by (simp add: later_def)
next
  case Task_round
  show ?thesis
  proof (rule Task_round_step [OF inv, of env])
    fix s g1 x assume s: "server_event env Task_round g = Some (Inr g1)" "c_heap g s = Some x"
      "c_heap g1 = (c_heap g)(s \<mapsto> x\<lparr>m_Socket := Some False\<rparr>)" "g_players g1 = g_players g"
    then show ?thesis using ev Task_round by (intro later_same) auto
  qed (use ev Task_round in \<open>auto simp: later_def\<close>)
next
  case (Worker_round w)
  then have ev': "server_event env (Worker_round w) g = Some (Inr g')" using ev by simp
  show ?thesis
  proof (rule Worker_round_step [OF inv ev'])
    fix r s assume "handler_frame s (g\<lparr>c_router := r\<rparr>) g'"
    then have "\<forall>t. bare (c_heap g' t) = bare (c_heap g t)"
      "\<forall>q \<in> set (g_players g). \<exists>p \<in> set (g_players g'). ownerSession p = ownerSession q"
      by (simp_all add: handler_frame_def)
    then show ?thesis unfolding later_def by (metis bare_None(1))
  qed (auto simp: later_def)
next
  case (Released s)
  then show ?thesis using ev by (auto simp: game_recycle_def later_def)
qed

lemma server_run_later:
  "server_run env g es g' \<Longrightarrow> server_inv g \<Longrightarrow> m_NextSessionUID (c_service g) + int (length es) < 2147483647 \<Longrightarrow> later g g'"
proof (induction rule: server_run.induct)
  case (event es g1 e g2)
  have "server_inv g1 \<and> m_NextSessionUID (c_service g1) < 2147483646"
    using server_run_inv [OF event.hyps(1) event.prems(1)] event.prems(2) by simp
  then have "later g1 g2" using server_event_later [OF _ event.hyps(2,3)] by simp
  with event show ?case using later_trans by simp
qed simp

lemma server_run_watched:
  "server_run env g es g' \<Longrightarrow> server_inv g \<Longrightarrow> all_watched g \<Longrightarrow>
   m_NextSessionUID (c_service g) + int (length es) < 2147483647 \<Longrightarrow> \<forall>s. Released s \<notin> set es \<Longrightarrow> all_watched g'"
proof (induction rule: server_run.induct)
  case (event es g1 e g2)
  have "server_inv g1 \<and> m_NextSessionUID (c_service g1) < 2147483646"
    using server_run_inv [OF event.hyps(1) event.prems(1)] event.prems(3) by simp
  moreover have "all_watched g1" using event by simp
  ultimately show ?case using server_event_watched [OF _ _ event.hyps(2,3)] event.prems(4) by auto
qed simp

text \<open>
  With a port that is a number, and system calls that succeed, \<^verbatim>\<open>main\<close> behind its reading of
  the configuration ends with everything running and the invariants in force.
\<close>

lemma server_main_ready:
  assumes "cfg_Port cfg = Some port" "0 \<le> cfg_SessionPoolSize cfg"
  shows "\<exists>g. GameServer_main hw mem True no_listen_errors cfg = Inr (True, g)
    \<and> recv_inv g \<and> service_inv (c_service g) \<and> chat_inv g \<and> tq_inv (c_tasks g)
    \<and> r_IsRunning (c_router g) \<and> tq_IsRunning (c_tasks g)
    \<and> ac_open (c_acceptor g) \<and> ac_accepts (c_acceptor g) = 1 \<and> ac_port (c_acceptor g) = 7777
    \<and> length (g_pool g) = nat (cfg_SessionPoolSize cfg)"
proof -
  obtain r where r: "PacketRouter_Init hw 0 True PacketRouter_new = Inr r" "router_inv r" "r_IsRunning r"
    using router_inv_Init router_inv_new by blast
  let ?g1 = "Game_blank\<lparr>c_router := r,
      c_pool := snd (PacketPool_Init (word_of_int (cfg_PacketPoolSize cfg)) (c_pool Game_blank))\<rparr>"
  have "\<forall>s x. c_heap ?g1 s = Some x \<longrightarrow> m_Player x = []" by (simp add: Game_blank_def)
  then obtain g2 where g2: "new_sessions mem (nat (cfg_SessionPoolSize cfg)) ?g1 = Inr g2"
    "\<forall>s x. c_heap g2 s = Some x \<longrightarrow> m_Player x = []" "g_players g2 = []" "g_rooms g2 = []" "g_manager g2 = ChatRoomManager_new"
    "c_router g2 = r" "c_buffers g2 = Map.empty" "c_service g2 = AsioService_new ServiceType_Server True 1"
    "c_tasks g2 = TaskQueue_new" "length (g_pool g2) = nat (cfg_SessionPoolSize cfg)"
    by (rule new_sessions_ok [where mem = mem and n = "nat (cfg_SessionPoolSize cfg)"]) (simp_all add: Game_blank_def)
  let ?a = "AsioAcceptor_Start no_listen_errors \<lparr>ac_open = True, ac_port = port, ac_accepts = 0\<rparr>"
  let ?g = "g2\<lparr>c_service := (c_service g2)\<lparr>m_Acceptor := True\<rparr>, c_acceptor := ?a, c_tasks := TaskQueue_Initialize hw 0 (c_tasks g2)\<rparr>"
  have start: "AsioServerService_Start (cfg_Port cfg) True no_listen_errors g2
      = Inr (True, g2\<lparr>c_service := (c_service g2)\<lparr>m_Acceptor := True\<rparr>, c_acceptor := ?a\<rparr>)"
    using g2(8) assms(1)
    by (simp add: AsioServerService_Start_def AsioService_CanStart_def AsioService_new_def AsioAcceptor_new_def)
  have blank: "c_router Game_blank = PacketRouter_new" by (simp add: Game_blank_def)
  have "GameServer_main hw mem True no_listen_errors cfg = Inr (True, ?g)"
    using assms(2) by (simp add: GameServer_main_def Let_def blank r(1) g2(1) start)
  moreover have "recv_inv ?g" "r_IsRunning (c_router ?g)" using r(2,3) g2(6,7) by (simp_all add: recv_inv_def)
  moreover have "service_inv (c_service ?g)" using g2(8) by (simp add: service_inv_def AsioService_new_def)
  moreover have "chat_inv ?g" using g2(2-5) by (simp add: chat_inv_def rooms_inv_def ChatRoomManager_new_def omap_inv_def)
  moreover have "tq_inv (c_tasks ?g)" "tq_IsRunning (c_tasks ?g)"
    using g2(9) tq_inv_Initialize [of TaskQueue_new hw 0] by (simp_all add: TaskQueue_Initialize_def TaskQueue_new_def tq_inv_def)
  moreover have "ac_open (c_acceptor ?g)" "ac_accepts (c_acceptor ?g) = 1" "ac_port (c_acceptor ?g) = 7777"
    by (simp_all add: AsioAcceptor_Start_def AsioAcceptor_DoAccept_def no_listen_errors_def Let_def)
  ultimately show ?thesis using g2(10) by (intro exI [of _ ?g]) simp
qed

section \<open>What every run of the server keeps\<close>

text \<open>An example: one session in the pool, one connection.\<close>

definition ex_config :: "int \<Rightarrow> ServerConfig" where
  "ex_config n = \<lparr>cfg_Port = Some 7777, cfg_PacketPoolSize = 100, cfg_SessionPoolSize = n\<rparr>"

lemma ex_run:
  obtains g0 g s where "GameServer_main 8 (\<lambda>_. 0) True no_listen_errors (ex_config 1) = Inr (True, g0)"
    "server_run env g0 [Accepted False 0] g" "m_Sessions (c_service g) = [s]"
proof -
  obtain g0 where g0: "GameServer_main 8 (\<lambda>_. 0) True no_listen_errors (ex_config 1) = Inr (True, g0)"
    "ac_open (c_acceptor g0)" "length (g_pool g0) = 1"
    using server_main_ready [of "ex_config 1" 7777 8 "\<lambda>_. 0"] by (auto simp: ex_config_def)
  obtain s where s: "g_pool g0 = [s]" using g0(3) by (auto simp: length_Suc_conv)
  note I = started_inv [OF g0(1)]
  have b: "m_NextSessionUID (c_service g0) < 2147483646" using I(2) by simp
  obtain g where g: "server_event env (Accepted False 0) g0 = Some (Inr g)" "server_inv g"
    "set (m_Sessions (c_service g)) = insert s (set (m_Sessions (c_service g0)))"
    by (rule Accepted_step [OF I(1) s b, of env 0])
  have "distinct (m_Sessions (c_service g))" using server_invD(1) [OF g(2)] by (simp add: service_inv_def)
  moreover have set: "set (m_Sessions (c_service g)) = {s}" using g(3) I(3) by simp
  ultimately have "length (m_Sessions (c_service g)) = 1" by (metis card.empty card.insert distinct_card empty_iff finite.emptyI One_nat_def)
  then have "m_Sessions (c_service g) = [s]" using set by (auto simp: length_Suc_conv)
  moreover have "server_run env g0 ([] @ [Accepted False 0]) g"
    by (rule server_run.event [OF server_run.started]) (use g0(2) g(1) in simp_all)
  ultimately show thesis using that g0(1) by simp
qed

text \<open>
  C4. Service, manager and pool agree, in every state that the running server reaches, as long as
  the 32-bit UIDs last. The manager finds exactly the sessions of the service, each under its own
  UID; the count is their number; each has an open socket. What lies in the pool is not
  registered, does not read or write, and owns no player. The state of the chat is consistent,
  whatever the clients send: the implementation of the chat service is correct from here on.
\<close>

theorem server_registry:
  assumes "GameServer_main hw mem listens ec cfg = Inr (True, g0)" "server_run env g0 es g" "length es < 2147483646"
  shows "(\<forall>u s. c_manager g u = Some s \<longleftrightarrow> s \<in> set (m_Sessions (c_service g)) \<and> uid_of g s = u)
    \<and> distinct (m_Sessions (c_service g)) \<and> m_SessionCount (c_service g) = int (length (m_Sessions (c_service g)))
    \<and> (\<forall>s \<in> set (m_Sessions (c_service g)). \<exists>x. c_heap g s = Some x \<and> m_Socket x = Some True \<and> m_Service x)
    \<and> distinct (g_pool g) \<and> (\<forall>s \<in> set (g_pool g). \<not> referenced s g) \<and> chat_inv g"
proof -
  have I: "server_inv g" using started_run_inv [OF assms] by simp
  have "chat_inv g"
    using server_run_chat [OF assms(2)] started_inv [OF assms(1)] assms(3) by simp
  moreover have "c_manager g (uid_of g s) = Some s" if "s \<in> set (m_Sessions (c_service g))" for s
    using server_invD(3) [OF I that] by (auto elim: registered_okE)
  moreover have "\<exists>x. c_heap g s = Some x \<and> m_Socket x = Some True \<and> m_Service x" if "s \<in> set (m_Sessions (c_service g))" for s
    using server_invD(3) [OF I that] by (auto elim: registered_okE)
  ultimately show ?thesis
    using server_invD(1,4,6,7) [OF I] by (intro conjI allI ballI iffI) (auto simp: service_inv_def)
qed

theorem server_registry_witness:
  "\<exists>g0 g s. GameServer_main 8 (\<lambda>_. 0) True no_listen_errors (ex_config 1) = Inr (True, g0)
     \<and> server_run ex_env g0 [Accepted False 0] g \<and> m_Sessions (c_service g) = [s]
     \<and> c_manager g (uid_of g s) = Some s \<and> m_SessionCount (c_service g) = 1"
proof (rule ex_run [of ex_env])
  fix g0 g s
  assume r: "GameServer_main 8 (\<lambda>_. 0) True no_listen_errors (ex_config 1) = Inr (True, g0)"
    "server_run ex_env g0 [Accepted False 0] g" "m_Sessions (c_service g) = [s]"
  with server_registry [OF r(1,2)] show ?thesis by (intro exI [of _ g0] exI [of _ g] exI [of _ s]) simp
qed

text \<open>
  C7. No session is forgotten: as long as no session object is used a second time, every
  registered session of every reachable state either has a read outstanding, so that its end
  will be noticed, or has been disconnected and the task that closes it is in the task queue.
\<close>

theorem sessions_watched:
  assumes "GameServer_main hw mem listens ec cfg = Inr (True, g0)" "server_run env g0 es g" "length es < 2147483646"
    "\<forall>s. Released s \<notin> set es"
  shows "\<forall>s \<in> set (m_Sessions (c_service g)). \<exists>x. c_heap g s = Some x
    \<and> (m_NetState x \<noteq> NetState_Disconnect \<and> m_ReadPending x
      \<or> m_NetState x = NetState_Disconnect
        \<and> IoTask_of (m_SessionUID x) NetState_Disconnect \<in> set (tq_TaskQueue (c_tasks g)))"
proof
  note S = started_inv [OF assms(1)]
  have "all_watched g0" by (rule all_watchedI) (use S(3,4) in auto)
  then have "all_watched g" using server_run_watched [OF assms(2) S(1)] S(2) assms(3,4) by simp
  fix s assume "s \<in> set (m_Sessions (c_service g))"
  then have "watched g s" by (rule all_watchedD(1) [OF \<open>all_watched g\<close>])
  then show "\<exists>x. c_heap g s = Some x \<and> (m_NetState x \<noteq> NetState_Disconnect \<and> m_ReadPending x
      \<or> m_NetState x = NetState_Disconnect \<and> IoTask_of (m_SessionUID x) NetState_Disconnect \<in> set (tq_TaskQueue (c_tasks g)))"
    by (auto simp: watched_def split: option.splits if_splits)
qed

theorem sessions_watched_witness:
  "\<exists>g0 g s x. GameServer_main 8 (\<lambda>_. 0) True no_listen_errors (ex_config 1) = Inr (True, g0)
     \<and> server_run ex_env g0 [Accepted False 0] g \<and> s \<in> set (m_Sessions (c_service g)) \<and> c_heap g s = Some x
     \<and> (m_ReadPending x \<or> IoTask_of (m_SessionUID x) NetState_Disconnect \<in> set (tq_TaskQueue (c_tasks g)))"
proof (rule ex_run [of ex_env])
  fix g0 g s
  assume r: "GameServer_main 8 (\<lambda>_. 0) True no_listen_errors (ex_config 1) = Inr (True, g0)"
    "server_run ex_env g0 [Accepted False 0] g" "m_Sessions (c_service g) = [s]"
  with sessions_watched [OF r(1,2)] show ?thesis by (intro exI [of _ g0] exI [of _ g] exI [of _ s]) auto
qed

text \<open>What an event does to the process: it goes on, ends with a fault, or hangs.\<close>

definition event_returns :: "Env \<Rightarrow> event \<Rightarrow> Game \<Rightarrow> bool" where
  "event_returns env e g = (case server_event env e g of Some (Inr _) \<Rightarrow> True | _ \<Rightarrow> False)"

lemma event_returnsI: "server_event env e g = Some (Inr g') \<Longrightarrow> event_returns env e g"
  by (simp add: event_returns_def)

text \<open>
  C3. The ways in which the running server can fail, in any reachable state: an accept on an
  empty session pool locks the mutex of the pool twice; received bytes hang the io thread exactly
  when the buffer holds a packet of size 0 in front, and copy memory onto itself exactly when
  what is left after the complete packets reaches back over the read position; a worker fails
  exactly on the packets that \<open>packet_fault\<close> lists (bytes that are no packet, an unknown type, a
  request without a login or for a room that is not there, a name that Windows cannot convert,
  an answer of 65524 to 65535 bytes). Failed reads, completed writes, tasks and returned sessions
  never fail.
\<close>

theorem server_failures:
  assumes "GameServer_main hw mem listens ec cfg = Inr (True, g0)" "server_run env g0 es g" "length es < 2147483646"
    "event_enabled e g"
  shows "case e of
      Accepted err mem' \<Rightarrow> if \<not> err \<and> g_pool g = [] then server_event env e g = Some (Inl SelfDeadlock) else event_returns env e g
    | Received s chunk \<Rightarrow>
        if chunk_stalls g (uid_of g s) chunk then server_event env e g = None
        else if chunk_overlaps g (uid_of g s) chunk then server_event env e g = Some (Inl Overlap)
        else event_returns env e g
    | Worker_round w \<Rightarrow>
        (case worker_fault env w g of
           Some fault \<Rightarrow> server_event env e g = Some (Inl fault)
         | None \<Rightarrow> event_returns env e g)
    | _ \<Rightarrow> event_returns env e g"
proof -
  have I: "server_inv g" "m_NextSessionUID (c_service g) < 2147483646" using started_run_inv [OF assms(1-3)] by simp_all
  have chat: "chat_inv g" using server_run_chat [OF assms(2)] started_inv [OF assms(1)] assms(3) by simp
  show ?thesis
  proof (cases e)
    case (Accepted err mem')
    show ?thesis
    proof (cases "err \<or> g_pool g = []")
      case True
      then show ?thesis using Accepted Accepted_error [of env mem' g] Accepted_empty [of g env mem']
        by (cases err) (auto simp: event_returns_def)
    next
      case False
      then obtain s pool where pool: "g_pool g = s # pool" by (cases "g_pool g") auto
      obtain g' where r: "server_event env (Accepted False mem') g = Some (Inr g')" by (rule Accepted_step [OF I(1) pool I(2), of env mem'])
      show ?thesis using Accepted False event_returnsI [OF r] by auto
    qed
  next
    case (Received s chunk)
    then have en: "event_enabled (Received s chunk) g" using assms(4) by simp
    consider (stall) "chunk_stalls g (uid_of g s) chunk"
      | (overlap) "\<not> chunk_stalls g (uid_of g s) chunk" "chunk_overlaps g (uid_of g s) chunk"
      | (fine) "\<not> chunk_stalls g (uid_of g s) chunk" "\<not> chunk_overlaps g (uid_of g s) chunk" by blast
    then show ?thesis
    proof cases
      case stall
      have "server_event env (Received s chunk) g = None" by (subst Received_outcome(1) [OF I(1) en]) (simp add: stall)
      then show ?thesis using Received stall by simp
    next
      case overlap
      have "server_event env (Received s chunk) g = Some (Inl Overlap)" by (subst Received_outcome(1) [OF I(1) en]) (simp add: overlap)
      then show ?thesis using Received overlap by simp
    next
      case fine
      then obtain g' where r: "server_event env (Received s chunk) g = Some (Inr g')" using Received_outcome(2) [OF I(1) en, of env] by blast
      show ?thesis using Received fine event_returnsI [OF r] by simp
    qed
  next
    case (Receive_failed s r)
    then have en: "event_enabled (Receive_failed s r) g" using assms(4) by simp
    obtain g' where r': "server_event env (Receive_failed s r) g = Some (Inr g')" by (rule Receive_failed_step [OF I(1) en, of env])
    show ?thesis using Receive_failed event_returnsI [OF r'] by simp
  next
    case (Written i err len)
    then have en: "event_enabled (Written i err len) g" using assms(4) by simp
    obtain g1 p where r: "server_event env (Written i err len) g = Some (Inr (g1\<lparr>c_pool := p\<rparr>))" by (rule Written_step [OF I(1) en, of env])
    show ?thesis using Written event_returnsI [OF r] by simp
  next
    case Task_round
    have "event_returns env Task_round g" by (rule Task_round_step [OF I(1), of env]) (rule event_returnsI, assumption)+
    then show ?thesis using Task_round by simp
  next
    case (Worker_round w)
    then have en: "event_enabled (Worker_round w) g" using assms(4) by simp
    show ?thesis using Worker_round_exact [OF I(1) chat en, of env] Worker_round
      by (auto dest: event_returnsI simp del: server_event.simps split: option.splits)
  next
    case (Released s)
    then show ?thesis by (simp add: event_returns_def)
  qed
qed

theorem server_failures_witness:
  "\<exists>g. GameServer_main 8 (\<lambda>_. 0) True no_listen_errors (ex_config 0) = Inr (True, g)
     \<and> event_enabled (Accepted False 0) g \<and> server_event ex_env (Accepted False 0) g = Some (Inl SelfDeadlock)"
proof -
  obtain g where g: "GameServer_main 8 (\<lambda>_. 0) True no_listen_errors (ex_config 0) = Inr (True, g)"
    "ac_open (c_acceptor g)" "length (g_pool g) = 0"
    using server_main_ready [of "ex_config 0" 7777 8 "\<lambda>_. 0"] by (auto simp: ex_config_def)
  then have "event_enabled (Accepted False 0) g" "g_pool g = []" by simp_all
  with server_failures [OF g(1) server_run.started, of "Accepted False 0" ex_env] g(1) show ?thesis by auto
qed

text \<open>The example of \<open>Game_Examples\<close> is such a state: Alice and Bob are connected and own players.\<close>

lemma ex_game_inv: "server_inv ex_game"
proof (rule server_invI)
  show "service_inv (c_service ex_game)" by (rule ex_service_inv)
  fix s assume "s \<in> set (m_Sessions (c_service ex_game))"
  then show "registered_ok ex_game s" by (auto simp: registered_ok_def ex_game_def)
next
  fix s x assume "c_heap ex_game s = Some x"
  then show "session_ok x" by (auto simp: session_ok_def ex_session_def split: if_splits)
next
  show "recv_ok ex_game" by (simp add: recv_ok_def example_router_inv)
qed (auto simp: ex_game_def Game_blank_def ex_uid uid_of_def example_router_def example_queue_def TaskQueue_Initialize_def
    TaskQueue_new_def split: if_splits)



end
