(* ===== verification/Socket_Util.thy ===== *)
theory Socket_Util
  imports YJ_Prelude
begin

text \<open>
  \<^verbatim>\<open>SocketUtil.h\<close> and \<^verbatim>\<open>AsioIoContext.cpp\<close> of \<^verbatim>\<open>ServerCore\<close>: the options of a socket, and an io
  context with its threads. Nothing in the program uses the two classes any more.
\<close>

section \<open>Socket options\<close>

datatype socket_option = Reuse_address | Keep_alive | No_delay | Linger | Send_buffer | Receive_buffer

datatype option_value = Flag (flag: bool) | Linger_time bool int | Bytes (bytes: int)

text \<open>
  The socket of the library: \<open>api_set\<close> and \<open>api_get\<close> are \<^verbatim>\<open>set_option\<close> and \<^verbatim>\<open>get_option\<close>, whose first
  result says that the error code is set.
\<close>

record 's SocketApi =
  api_set :: "socket_option \<Rightarrow> option_value \<Rightarrow> 's \<Rightarrow> bool \<times> 's"
  api_get :: "socket_option \<Rightarrow> 's \<Rightarrow> bool \<times> option_value"

definition SocketUtil_new :: "'s option \<Rightarrow> 's res" where
  "SocketUtil_new socket = the_or Thrown socket"

definition SetReuseAddress :: "'s SocketApi \<Rightarrow> bool \<Rightarrow> 's \<Rightarrow> bool \<times> 's" where
  "SetReuseAddress api enable s =
     (let (ec, s') = api_set api Reuse_address (Flag enable) s in if ec then (False, s') else (True, s'))"

definition GetReuseAddress :: "'s SocketApi \<Rightarrow> 's \<Rightarrow> bool" where
  "GetReuseAddress api s =
     (let (ec, opt) = api_get api Reuse_address s in if ec then False else flag opt)"

definition SetKeepAlive :: "'s SocketApi \<Rightarrow> bool \<Rightarrow> 's \<Rightarrow> bool \<times> 's" where
  "SetKeepAlive api enable s =
     (let (ec, s') = api_set api Keep_alive (Flag enable) s in if ec then (False, s') else (True, s'))"

text \<open>Ends without \<^verbatim>\<open>return\<close> when the option could be read: \<open>None\<close>.\<close>

definition GetKeepAlive :: "'s SocketApi \<Rightarrow> 's \<Rightarrow> bool option" where
  "GetKeepAlive api s = (let (ec, opt) = api_get api Keep_alive s in if ec then Some False else None)"

text \<open>\<open>is_tcp\<close>: the template parameter is \<^verbatim>\<open>tcp\<close>.\<close>

definition SetNodelay :: "bool \<Rightarrow> 's SocketApi \<Rightarrow> bool \<Rightarrow> 's \<Rightarrow> bool \<times> 's" where
  "SetNodelay is_tcp api enable s =
     (if \<not> is_tcp then (False, s)
      else let (ec, s') = api_set api No_delay (Flag enable) s in if ec then (False, s') else (True, s'))"

definition GetNodelay :: "bool \<Rightarrow> 's SocketApi \<Rightarrow> 's \<Rightarrow> bool option" where
  "GetNodelay is_tcp api s =
     (if \<not> is_tcp then Some False
      else let (ec, opt) = api_get api No_delay s in if ec then Some False else None)"

text \<open>The constructor of \<^verbatim>\<open>linger\<close> takes an \<^verbatim>\<open>int\<close>: times from \<open>2^31\<close> on become negative.\<close>

definition SetLinger :: "'s SocketApi \<Rightarrow> bool \<Rightarrow> uint32 \<Rightarrow> 's \<Rightarrow> bool \<times> 's" where
  "SetLinger api enable timeout s =
     (let (ec, s') = api_set api Linger (Linger_time enable (sint timeout)) s in if ec then (False, s') else (True, s'))"

text \<open>The call that would read the option is commented out: what is returned is a fresh option.\<close>

definition GetLigner :: "'s \<Rightarrow> bool \<times> uint32" where
  "GetLigner s = (False, 0)"

definition SetSendBufferSizeOpt :: "'s SocketApi \<Rightarrow> uint32 \<Rightarrow> 's \<Rightarrow> bool \<times> 's" where
  "SetSendBufferSizeOpt api n s =
     (let (ec, s') = api_set api Send_buffer (Bytes (sint n)) s in if ec then (False, s') else (True, s'))"

text \<open>Calls \<^verbatim>\<open>set_option\<close> with a fresh option, whose value is 0, and returns that value.\<close>

definition GetSendBufferSizeOpt :: "'s SocketApi \<Rightarrow> 's \<Rightarrow> uint32 \<times> 's" where
  "GetSendBufferSizeOpt api s =
     (let opt = Bytes 0; (ec, s') = api_set api Send_buffer opt s
      in if ec then (0, s') else (word_of_int (bytes opt), s'))"

definition SetReceiveBufferSize :: "'s SocketApi \<Rightarrow> int \<Rightarrow> 's \<Rightarrow> bool \<times> 's" where
  "SetReceiveBufferSize api n s =
     (let (ec, s') = api_set api Receive_buffer (Bytes n) s in if ec then (False, s') else (True, s'))"

definition GetReceiveBufferSize :: "'s SocketApi \<Rightarrow> 's \<Rightarrow> int" where
  "GetReceiveBufferSize api s =
     (let (ec, opt) = api_get api Receive_buffer s in if ec then -1 else bytes opt)"

text \<open>
  A socket that keeps what it is told, option by option. On it the setters and getters of
  \<^verbatim>\<open>SO_REUSEADDR\<close> and \<^verbatim>\<open>SO_RCVBUF\<close> fit together; the getter of \<^verbatim>\<open>SO_SNDBUF\<close> does not read the size
  that was set, it sets the size 0.
\<close>

definition keeps_options :: "'s SocketApi \<Rightarrow> bool" where
  "keeps_options api \<longleftrightarrow> (\<forall>opt v s. case api_set api opt v s of
      (True, s') \<Rightarrow> s' = s
    | (False, s') \<Rightarrow> api_get api opt s' = (False, v) \<and> (\<forall>opt'. opt' \<noteq> opt \<longrightarrow> api_get api opt' s' = api_get api opt' s))"

lemma keeps_set:
  assumes "keeps_options api" "api_set api opt v s = (False, s')"
  shows "api_get api opt s' = (False, v)" "opt' \<noteq> opt \<Longrightarrow> api_get api opt' s' = api_get api opt' s"
  using assms(1) [unfolded keeps_options_def, THEN spec [of _ opt], THEN spec [of _ v], THEN spec [of _ s]] assms(2)
  by auto

lemma reuse_address_roundtrip:
  assumes "keeps_options api" "SetReuseAddress api b s = (True, s')"
  shows "GetReuseAddress api s' = b"
  using assms keeps_set(1) [OF assms(1), of Reuse_address "Flag b" s]
  by (auto simp: SetReuseAddress_def GetReuseAddress_def split: prod.splits if_splits)

lemma receive_buffer_roundtrip:
  assumes "keeps_options api" "SetReceiveBufferSize api n s = (True, s')"
  shows "GetReceiveBufferSize api s' = n"
  using assms keeps_set(1) [OF assms(1), of Receive_buffer "Bytes n" s]
  by (auto simp: SetReceiveBufferSize_def GetReceiveBufferSize_def split: prod.splits if_splits)

lemma send_buffer_lost:
  assumes "keeps_options api" "SetSendBufferSizeOpt api n s = (True, s1)" "GetSendBufferSizeOpt api s1 = (k, s2)"
    "\<not> fst (api_set api Send_buffer (Bytes 0) s1)"
  shows "k = 0 \<and> api_get api Send_buffer s1 = (False, Bytes (sint n)) \<and> api_get api Send_buffer s2 = (False, Bytes 0)"
  using assms keeps_set(1) [OF assms(1), of Send_buffer]
  by (auto simp: SetSendBufferSizeOpt_def GetSendBufferSizeOpt_def Let_def split: prod.splits if_splits)

section \<open>An io context with its threads\<close>

text \<open>
  Contexts are named by addresses; \<open>ioc_live\<close> holds those that exist. A work guard refers to the
  context it was made for, and tells it when it goes.
\<close>

record AsioIoContext =
  ioc_context :: "nat option"
  ioc_work :: "nat option"
  ioc_threads :: "nat option list"
  ioc_live :: "nat set"

definition AsioIoContext_new :: AsioIoContext where
  "AsioIoContext_new = \<lparr>ioc_context = None, ioc_work = None, ioc_threads = [], ioc_live = {}\<rparr>"

definition AsioIoContext_Init :: "nat \<Rightarrow> AsioIoContext \<Rightarrow> bool \<times> AsioIoContext" where
  "AsioIoContext_Init address c =
     (True, c\<lparr>ioc_live := insert address (ioc_live c), ioc_context := Some address, ioc_work := Some address\<rparr>)"

text \<open>The number of threads is kept in a \<^verbatim>\<open>uint8\<close>; each runs the context that the pointer names.\<close>

definition AsioIoContext_Run :: "nat \<Rightarrow> AsioIoContext \<Rightarrow> bool \<times> AsioIoContext" where
  "AsioIoContext_Run hw c =
     (let iCnt = word_of_nat (hw div 2) :: 8 word
      in (True, c\<lparr>ioc_threads := ioc_threads c @ replicate (unat iCnt) (ioc_context c)\<rparr>))"

definition delete_context :: "AsioIoContext \<Rightarrow> AsioIoContext" where
  "delete_context c = (case ioc_context c of None \<Rightarrow> c | Some p \<Rightarrow> c\<lparr>ioc_live := ioc_live c - {p}\<rparr>)"

definition delete_work :: "AsioIoContext \<Rightarrow> AsioIoContext res" where
  "delete_work c =
     (case ioc_work c of
        None \<Rightarrow> Inr c
      | Some p \<Rightarrow> if p \<in> ioc_live c then Inr c else Inl Dangling)"

definition AsioIoContext_Stop :: "AsioIoContext \<Rightarrow> (bool \<times> AsioIoContext) res" where
  "AsioIoContext_Stop c =
     (let c1 = (delete_context c)\<lparr>ioc_context := None\<rparr>
      in bindR (delete_work c1) (\<lambda>c2. Inr (True, c2\<lparr>ioc_work := None\<rparr>)))"

definition AsioIoContext_delete :: "AsioIoContext \<Rightarrow> AsioIoContext res" where
  "AsioIoContext_delete c =
     (let c1 = (if ioc_context c \<noteq> None then delete_context c else c)
      in if ioc_work c1 \<noteq> None then delete_work c1 else Inr c1)"

text \<open>
  Stopping a context that was started uses it after it was deleted, and so does the destructor:
  both delete the context before the guard. With 512 hardware threads no thread is started.
\<close>

lemma Stop_dangles:
  "AsioIoContext_Stop (snd (AsioIoContext_Run hw (snd (AsioIoContext_Init p c)))) = Inl Dangling"
  "AsioIoContext_delete (snd (AsioIoContext_Run hw (snd (AsioIoContext_Init p c)))) = Inl Dangling"
  by (simp_all add: AsioIoContext_Stop_def AsioIoContext_delete_def AsioIoContext_Run_def AsioIoContext_Init_def
      delete_context_def delete_work_def Let_def)

lemma Stop_unused: "AsioIoContext_Stop AsioIoContext_new = Inr (True, AsioIoContext_new)"
  by (simp add: AsioIoContext_Stop_def AsioIoContext_new_def delete_context_def delete_work_def)

lemma Run_threads:
  "length (ioc_threads (snd (AsioIoContext_Run hw c))) = length (ioc_threads c) + (hw div 2) mod 256"
  by (simp add: AsioIoContext_Run_def unat_of_nat)

end
