(* ===== verification/Spec2Isabelle.thy ===== *)
theory Spec2Isabelle
  imports Client_Conversation Program_Config Utf8_Valid Proto_Varint Server_Run Socket_Util
begin

text \<open>
  A verification development for ProjectYJ, a chat service in C++: an asynchronous network
  core (\<^verbatim>\<open>src/ServerCore\<close>), a chat server on top of it (\<^verbatim>\<open>src/GameServer\<close>), a Windows client
  (\<^verbatim>\<open>src/Client\<close>) and generated protobuf messages.

  \<^bold>\<open>How the program works.\<close> The acceptor creates a session per connection through the service,
  which takes it from an object pool. Bytes that arrive go into the session's own
  \<^verbatim>\<open>PacketBuffer\<close>, from there through \<^verbatim>\<open>NetworkHandler\<close> into a second buffer per session
  (\<^verbatim>\<open>SessionPacketBuffer\<close>), are cut into packets by \<^verbatim>\<open>AsioSession::ProcessPacket\<close> and queued by
  \<^verbatim>\<open>PacketRouter\<close> for the worker of the session. A worker looks the session up in the
  \<^verbatim>\<open>SessionManager\<close> and calls the handler table of the program, which parses the message and
  changes players and rooms or, in the client, posts a window message. Answers are made by
  \<^verbatim>\<open>MakePacket\<close> and written with \<^verbatim>\<open>AsioSession::Send\<close>. Errors on a connection go through the
  \<^verbatim>\<open>TaskQueue\<close>, whose workers close sessions.

  \<^bold>\<open>Theories.\<close>
  \<^item> \<open>YJ_Prelude\<close>: faults, the result type, bounds-checked memory, 32-bit integers, lemma
    collections. \<open>Containers\<close>: the containers of the standard library, with the contracts of a
    dictionary and of a work queue as locales; the one of a byte buffer is in \<open>Packet_Buffer\<close>.
  \<^item> \<open>Packet_Buffer\<close>, \<open>Packet_Object\<close>, \<open>Packet_Pool\<close>, \<open>Packet_Router\<close>, \<open>Task_Queue\<close>,
    \<open>Session_Manager\<close>, \<open>Core_Types\<close>, \<open>Asio_Service\<close>, \<open>Asio_Acceptor\<close>: one class of
    \<^verbatim>\<open>ServerCore\<close> each, its members as a record and a function per method.
  \<^item> \<open>Packet_Framing\<close>: the loop of \<^verbatim>\<open>ProcessPacket\<close>. \<open>Server_Core\<close>: the record of all singletons and
    the heap of sessions, and every operation that works on more than one class.
    \<open>Receive_Path\<close> and \<open>Receive_Stream\<close>: the path of the bytes, for one and for many reads.
    \<open>Session_Hooks\<close>: what closing does for any derived session class (locale \<open>session_hook\<close>).
    \<open>Packet_Worker\<close>: the worker's round and the dispatch of packets. \<open>Socket_Util\<close>: socket options
    and io contexts, two classes that nothing uses.
  \<^item> \<open>Proto_Wire\<close>: the part of the protobuf runtime that the generated code uses.
    \<open>Proto_Varint\<close>: its varint decoders as they are written, in wrapping arithmetic, and their
    agreement with those over the natural numbers that the parsers use. \<open>Utf8_Check\<close>, \<open>Utf8_Valid\<close>:
    the UTF-8 check of the runtime (\<^verbatim>\<open>stubs/structurally_valid.cc\<close>), its state tables included, and
    the set of strings it accepts.
    \<open>Proto_Messages\<close>, \<open>Proto_Structs\<close>: the generated classes of \<^verbatim>\<open>Protocol.pb.cc\<close> and \<^verbatim>\<open>Struct.pb.cc\<close>,
    each an instance of the locale \<open>message_codec\<close>. \<open>Packet_Handler\<close>: packet types, \<^verbatim>\<open>MakePacket\<close>.
  \<^item> \<open>Chat_Room\<close>, \<open>Game_Session\<close>, \<open>Session_Lifecycle\<close>, \<open>Game_Handlers\<close>: rooms, players, the session
    class, start and stop of the server, and its seven handlers. \<open>Chat_Refinement\<close>,
    \<open>Chat_Requests\<close>, \<open>Chat_Service\<close>: the abstract chat service, the simulation for each handler, and
    the refinement over runs. \<open>Chat_Faults\<close>: for any bytes, the fault in which their handler ends, if
    any. \<open>Game_Examples\<close>: a concrete server.
  \<^item> \<open>Server_Steps\<close>, \<open>Receive_Total\<close>, \<open>Server_Invariant\<close>, \<open>Server_Run\<close>: the running server as a
    transition system of completions, worker rounds and returned sessions; what a handler leaves
    alone; the outcome of every read; the invariant of all reachable states and what follows.
  \<^item> \<open>Client_Session\<close>, \<open>Client_Handlers\<close>, \<open>Client_Windows\<close>: sessions, manager and stress test,
    answer handlers and windows of the client. \<open>Client_Life\<close>: its start, its notices, its end.
    \<open>Request_Path\<close>: a request from the socket to its handler. \<open>Client_Conversation\<close>: client and
    server together.
  \<^item> \<open>Ini_File\<close>, \<open>Ini_Reader\<close>: the parser of configuration files (\<^verbatim>\<open>src/include/INIReader/ini.c\<close>) and
    the class on top of it, with \<^verbatim>\<open>strtol\<close> and its relatives. \<open>Ini_Numbers\<close>: files that hold printed
    numbers. \<open>Log_File\<close>, \<open>Log_Rolling\<close>: the logger of \<^verbatim>\<open>src/include/plog\<close> with its rolling files, and
    what the files hold after any records. \<open>Program_Config\<close>: how \<^verbatim>\<open>main\<close> and \<^verbatim>\<open>WinMain\<close> use both.
  \<^item> This theory: the properties that span the server.

  \<^bold>\<open>State.\<close> Objects behind shared pointers live in explicit heaps (\<open>c_heap\<close>, \<open>g_players\<close>,
  \<open>g_rooms\<close>) and are named by addresses, so that aliasing is part of the model; singletons are
  fields of \<open>Core\<close>, \<open>Game\<close> and \<open>Client\<close>, records that extend each other as the programs extend the
  core. Members of type \<^verbatim>\<open>int32\<close> are integers with the wrap-around written out (\<open>i32\<close>), the unsigned
  ones are words. What C++ leaves undefined or ends with an exception is a value of type \<open>fault\<close>
  (reads and writes out of bounds, null pointers, a mutex locked twice, exceptions); a
  function that ends without \<^verbatim>\<open>return\<close> answers \<open>None\<close>. Asynchronous operations are recorded in
  the state when they start; each completion is an operation with its outcome as an
  argument, so that an order of steps is an order of completions.

  \<^bold>\<open>Loops.\<close> \<^verbatim>\<open>ProcessPacket\<close> can run forever and is a partial function with \<open>None\<close> for that;
  that it returns is proved where it does. The worker loops are modelled by their rounds. Parsing
  recurses on the input; messages nest to depth 100, the default of the runtime, and those
  of this program have depth two at most. There is no other fuel: the loop of the parser of
  configuration files and those of the UTF-8 check are partial functions
  as well, proved to return on every input.

  \<^bold>\<open>What is proved.\<close>
  \<^item> Receiving: framing is the inverse of sending packets back to back; it does not depend on
    how the network splits the stream; when it ends; the buffer is a queue of bytes; when
    queued packets are overwritten; one worker per session, in order.
  \<^item> Messages: parsing inverts serialisation for every message and structure,
    concatenation merges, unknown fields are skipped, sizes are exact, packets are made right
    up to the size that wraps around.
  \<^item> Sessions: accepting registers, disconnecting unregisters everywhere once; which sessions
    never leave; when closing a service deadlocks, on the server and in the client; pools and
    their counters.
  \<^item> Runs: in every state that the server reaches from its start, for any sequence of fewer than
    \<open>2^31 - 2\<close> events, service, manager and pool agree and the chat is consistent; the failures
    that can happen are listed exactly; no session is forgotten before one is used again; and
    sessions with a login are never used again.
  \<^item> Chat: the handlers implement the abstract service over whole runs; a worker's round is
    the handler on the message that was sent; exactly which packets end the server; ids of rooms.
  \<^item> Client: logging in and chatting from one window to the other; the stress test waits for
    all its sessions; lost notices; the bounded history.
  \<^item> Start: whatever the configuration file holds, the state in which the server comes up
    satisfies the invariants that the other properties assume; what is printed into such a
    file is read back, in any case of the letters; the reader is well formed for any file.
  \<^item> Runtime: the decoders of varints are exact in wrapping arithmetic; the UTF-8 check accepts the
    encodings of sequences of scalar values and nothing else, wherever the buffer lies.
  \<^item> Logging: the log files hold the most recent records, complete and in order.

  \<^bold>\<open>Hypotheses on other code.\<close> The Win32 conversions of text, the check for UTF-8 in the parsers of
  messages (any predicate; \<open>Utf8_Check\<close> models the one that is linked), the file system, the padding
  bytes of a header, time stamps and uninitialised memory are parameters (\<open>Env\<close>, \<open>ClientEnv\<close>,
  \<open>WinEnv\<close>, arguments); results of system calls are arguments. No law is assumed of them except that a
  text that is sent passes the check for UTF-8 and, for the log, that files open and take what is
  written (\<open>os_ok\<close>), and for socket options that a socket keeps them (\<open>keeps_options\<close>).

  \<^bold>\<open>Not modelled.\<close> In the runs of the server, its shutdown from the console, which is a property
  of its own, and UIDs behind the 32-bit wrap-around. Interleavings inside one operation: the
  handlers and the completions run as if one after the other, although two workers may run at a
  time; the manager of the rooms locks each of its operations, but not a handler as a whole. The
  console appender, the streaming operators and the other formatters of the logger; \<^verbatim>\<open>GetReal\<close> of
  the reader, which nothing calls; the folder of the program; reflection, descriptors, arenas and
  unknown fields kept by the generated code; the rest of the vendored protobuf library; the
  creation and layout of windows; the Python packet generator.
\<close>

section \<open>The receive path\<close>

text \<open>
  C2. The server sees the same packets however the network splits the byte stream of a
  session: the read completions of any chunks, one after the other, queue exactly the
  complete packets of the concatenated stream, each once and in order, and keep the
  incomplete rest; no read faults and reading goes on. This holds as long as no header
  announces length 0 and the session's receive buffer is not filled beyond nine tenths.
\<close>

theorem receive_any_chunking:
  assumes "sess_ready c s" "recv_inv c" "u = uid_of c s" "r_IsRunning (c_router c)"
    "\<forall>ch \<in> set chunks. ch \<noteq> []" "\<not> frame_ready (recv_pending c u)"
    "recv_wpos c u + int (length (concat chunks)) \<le> 589824"
    "\<not> stalls (recv_pending c u @ concat chunks)"
  shows "\<exists>c'. reads s chunks c = Some (Inr (frames (recv_pending c u @ concat chunks), c'))
    \<and> sess_ready c' s \<and> recv_inv c' \<and> recv_pending c' u = leftover (recv_pending c u @ concat chunks)"
  using reads_ok [OF assms] by blast

theorem receive_any_chunking_witness:
  "\<exists>c'. reads (SessionPtr 11) [take 5 example_frame, drop 5 example_frame @ [9, 9]] ex_game
     = Some (Inr ([example_frame], c')) \<and> recv_pending c' 1 = [9, 9]"
proof -
  have cc: "take 5 example_frame @ drop 5 example_frame @ [9, 9] = example_frame @ [9, 9]"
    by (metis append.assoc append_take_drop_id)
  have p: "is_packet example_frame" using example_frame_size [of "[]"] by (simp add: is_packet_def example_frame_def)
  have rest: "\<not> frame_ready [9, 9]" by (simp add: frame_ready_def)
  have l: "length example_frame = 13" by (simp add: example_frame_def)
  have "drop 5 example_frame \<noteq> []" "take 5 example_frame \<noteq> []" by (simp_all add: example_frame_def)
  then show ?thesis
    using receive_any_chunking [OF ex_ready(1,2) refl, of "[take 5 example_frame, drop 5 example_frame @ [9, 9]]"]
      frames_packet [OF p, of "[9, 9]"] frames_stop [OF rest] l cc
    by (simp add: ex_uid ex_ready ex_running frame_ready_def del: reads.simps) blast
qed



section \<open>The life of a session\<close>

text \<open>
  C13. Accepting a connection with a pooled session that was never disconnected registers it:
  it gets the next UID of the service, the manager finds it under that UID, the service has
  it in its set with the count in step, its socket is open, a read is pending, the next
  accept is started, and it is live.
\<close>

theorem accept_registers:
  assumes "g_pool g = s # pool" "c_heap g s = Some x" "pb_empty (m_PacketBuffer x)"
    "m_NetState x \<noteq> NetState_Disconnect"
    "s \<notin> set (m_Sessions (c_service g))" "service_inv (c_service g)"
    "Suc (length (m_Sessions (c_service g))) < 2147483647"
    "c_manager g (m_NextSessionUID (c_service g)) = None"
  shows "\<exists>g'. AsioAcceptor_HandleAccept GameSession_OnConnected (game_maker dbg mem) False g = Inr (Some s, g')
    \<and> uid_of g' s = m_NextSessionUID (c_service g)
    \<and> SessionManager_GetSession (uid_of g' s) (c_manager g') = Some s
    \<and> live g' s \<and> sess_ready g' s = (0 \<le> uid_of g' s) \<and> service_inv (c_service g')
    \<and> ac_accepts (c_acceptor g') = Suc (ac_accepts (c_acceptor g)) \<and> g_pool g' = pool"
proof -
  obtain g' x' where g':
    "AsioAcceptor_HandleAccept GameSession_OnConnected (game_maker dbg mem) False g = Inr (Some s, g')"
    "c_heap g' = (c_heap g)(s \<mapsto> x')" "m_SessionUID x' = m_NextSessionUID (c_service g)" "m_Socket x' = Some True"
    "m_Service x'" "m_NetState x' = m_NetState x" "pb_empty (m_PacketBuffer x')"
    "m_BufferSize (m_PacketBuffer x') = 65536" "pb_inv (m_PacketBuffer x')"
    "c_manager g' = (c_manager g)(m_NextSessionUID (c_service g) \<mapsto> s)"
    "set (m_Sessions (c_service g')) = insert s (set (m_Sessions (c_service g)))"
    "service_inv (c_service g')" "g_pool g' = pool" "ac_accepts (c_acceptor g') = Suc (ac_accepts (c_acceptor g))"
    by (rule accept_pooled [OF assms(1-3,5-7) refl assms(8), of dbg mem]) blast
  have "uid_of g' s = m_NextSessionUID (c_service g)" using g'(2,3) by (simp add: uid_of_def)
  moreover have "live g' s" using g'(2-6,10,11) assms(4) by (simp add: live_def)
  moreover have "sess_ready g' s = (0 \<le> uid_of g' s)" using g'(2-9) by (simp add: sess_ready_def uid_of_def)
  ultimately show ?thesis using g'(1,10,12-14) by (intro exI [of _ g']) (simp add: SessionManager_GetSession_def)
qed

definition ex_pooled :: "NetState \<Rightarrow> Game" where
  "ex_pooled st = ex_game\<lparr>c_heap := (c_heap ex_game)(SessionPtr 12 \<mapsto> ex_session 77 st []), g_pool := [SessionPtr 12]\<rparr>"

lemma ex_pooled_fields [simp]:
  "g_pool (ex_pooled st) = [SessionPtr 12]" "c_heap (ex_pooled st) (SessionPtr 12) = Some (ex_session 77 st [])"
  "c_service (ex_pooled st) = c_service ex_game" "c_manager (ex_pooled st) = c_manager ex_game"
  "m_NextSessionUID (c_service ex_game) = 2" "c_tasks (ex_pooled st) = example_queue"
  by (simp_all add: ex_pooled_def ex_game_def)

theorem accept_registers_witness:
  "\<exists>g'. AsioAcceptor_HandleAccept GameSession_OnConnected (game_maker True 0) False (ex_pooled NetState_None)
      = Inr (Some (SessionPtr 12), g') \<and> uid_of g' (SessionPtr 12) = 2 \<and> live g' (SessionPtr 12)"
  using accept_registers [of "ex_pooled NetState_None" "SessionPtr 12" "[]" "ex_session 77 NetState_None []" True 0]
    ex_service_inv
  by auto

text \<open>
  C11. When the peer of a live session leaves, in whatever way the read reports it, one
  disconnect task is queued; the worker that takes it unregisters the session from the
  manager and from the service, whose count stays the size of its set, and closes the
  socket. A further task for the UID, and a further read error, change nothing.
\<close>

theorem disconnect_end_to_end:
  assumes "live c s" "service_inv (c_service c)" "tq_IsRunning (c_tasks c)" "r \<noteq> Read_ok"
  shows "\<exists>c1 c2. AsioSession_HandleRead r len s c = Some (Inr c1)
    \<and> AsioSession_HandleRead r len s c1 = Some (Inr c1)
    \<and> tq_TaskQueue (c_tasks c1) = tq_TaskQueue (c_tasks c) @ [IoTask_of (uid_of c s) NetState_Disconnect]
    \<and> TaskQueue_ProcessIoTask GameSession_OnDisconnected (IoTask_of (uid_of c s) NetState_Disconnect) c1 = Inr c2
    \<and> gone c2 s \<and> service_inv (c_service c2)
    \<and> set (m_Sessions (c_service c2)) = set (m_Sessions (c_service c)) - {s}
    \<and> TaskQueue_ProcessIoTask GameSession_OnDisconnected (IoTask_of (uid_of c s) st) c2 = Inr c2"
proof -
  obtain c1 c2 where h: "AsioSession_HandleRead r len s c = Some (Inr c1)"
    "tq_TaskQueue (c_tasks c1) = tq_TaskQueue (c_tasks c) @ [IoTask_of (uid_of c s) NetState_Disconnect]"
    "TaskQueue_ProcessIoTask GameSession_OnDisconnected (IoTask_of (uid_of c s) NetState_Disconnect) c1 = Inr c2"
    "gone c2 s" "uid_of c2 s = uid_of c s" "service_inv (c_service c2)"
    "set (m_Sessions (c_service c2)) = set (m_Sessions (c_service c)) - {s}"
    by (rule game_hook.disconnect_path [OF assms, of len]) blast
  have "AsioSession_HandleRead r len s c1 = Some (Inr c1)"
    using h(1) ProcessDisconnect_idem by (simp add: HandleRead_error [OF assms(4)])
  moreover have "TaskQueue_ProcessIoTask GameSession_OnDisconnected (IoTask_of (uid_of c s) st) c2 = Inr c2"
    using h(4,5) by (intro ProcessIoTask_unknown) (simp add: gone_def IoTask_of_def)
  ultimately show ?thesis using h by blast
qed

theorem disconnect_end_to_end_witness:
  "\<exists>c1 c2. AsioSession_HandleRead Read_eof 0 (SessionPtr 11) ex_game = Some (Inr c1)
     \<and> TaskQueue_ProcessIoTask GameSession_OnDisconnected (IoTask_of 1 NetState_Disconnect) c1 = Inr c2
     \<and> gone c2 (SessionPtr 11)"
  using disconnect_end_to_end [OF ex_live ex_service_inv, of Read_eof 0 NetState_Disconnect]
  by (simp add: ex_uid ex_running) blast



text \<open>
  C25. Closing the service of a server ends in a deadlock of the closing thread with itself
  exactly when some session in its set still has a socket and its service: the mutex is held
  while \<^verbatim>\<open>Disconnect\<close> calls \<^verbatim>\<open>ReleaseSession\<close>, which takes it again. Otherwise the set is
  emptied, the count is 0 and the io context is stopped.
\<close>

theorem close_service_deadlock_iff:
  assumes "\<forall>s \<in> set (m_Sessions (c_service c)). c_heap c s \<noteq> None" "service_inv (c_service c)"
  shows "if \<exists>s \<in> set (m_Sessions (c_service c)). blocks c s
    then AsioService_CloseService GameSession_OnDisconnected c = Inl SelfDeadlock
    else \<exists>c'. AsioService_CloseService GameSession_OnDisconnected c = Inr c'
      \<and> m_Sessions (c_service c') = [] \<and> m_SessionCount (c_service c') = 0 \<and> m_IoStopped (c_service c')"
  using game_hook.CloseService_result [OF assms(1)] assms(2) by (simp add: service_inv_def)

theorem close_service_deadlock_iff_witness:
  "AsioService_CloseService GameSession_OnDisconnected ex_game = Inl SelfDeadlock"
  using close_service_deadlock_iff [of ex_game] ex_service_inv by (simp add: blocks_def)

section \<open>Start\<close>

text \<open>
  C15. The server comes up from its configuration file. Whether the file is there, with any
  sections, or missing, which leaves the defaults of 7777 for the port and 10000 for both
  pools: when the system calls of the acceptor succeed, \<^verbatim>\<open>main\<close> ends with the router and the
  task queue running, one accept outstanding, a session pool of the configured size, and a
  state that satisfies the invariants of the receive path, of the service and of the chat.
  It listens on port 7777, whatever port the file says.
\<close>

theorem server_starts_from_file:
  assumes "config_file fs path cfg"
    and "setting cfg ''server'' ''Port'' 7777 port"
    and "setting cfg ''server'' ''PacketPoolSize'' 10000 packets"
    and "setting cfg ''server'' ''SessionPoolSize'' 10000 sessions"
  shows "\<exists>g. GameServer_start fs path hw mem True no_listen_errors = Some (Inr (True, g))
    \<and> recv_inv g \<and> service_inv (c_service g) \<and> chat_inv g \<and> tq_inv (c_tasks g)
    \<and> r_IsRunning (c_router g) \<and> tq_IsRunning (c_tasks g)
    \<and> ac_open (c_acceptor g) \<and> ac_accepts (c_acceptor g) = 1 \<and> ac_port (c_acceptor g) = 7777
    \<and> length (g_pool g) = sessions"
  using server_settings [OF assms, of hw mem True no_listen_errors]
    server_main_ready [of "\<lparr>cfg_Port = Some (int port), cfg_PacketPoolSize = int packets, cfg_SessionPoolSize = int sessions\<rparr>"
      "int port" hw mem]
  by simp

theorem server_starts_from_file_witness:
  "(\<exists>g. GameServer_start Map.empty ''ServerConfig.ini'' 8 (\<lambda>_. 0) True no_listen_errors = Some (Inr (True, g))
      \<and> chat_inv g \<and> length (g_pool g) = 10000)
   \<and> (\<exists>g. GameServer_start [''ServerConfig.ini'' \<mapsto> config_text [(''Server'', [(''port'', dec 9000), (''SessionPoolSize'', dec 5)])]]
            ''ServerConfig.ini'' 8 (\<lambda>_. 0) True no_listen_errors = Some (Inr (True, g))
      \<and> chat_inv g \<and> length (g_pool g) = 5)"
proof -
  let ?cfg = "[(''Server'', [(''port'', dec 9000), (''SessionPoolSize'', dec 5)])]"
  have dec: "dec 5 = [digit_char 5]" "dec 9000 = [digit_char 9, digit_char 0, digit_char 0, digit_char 0]"
    by (simp_all add: dec.simps [of 5] dec.simps [of 9000] dec.simps [of 900] dec.simps [of 90] dec.simps [of 9])
  have "list_all section_ok ?cfg"
  proof -
    have "trimmed ''port''" "trimmed ''SessionPoolSize''" by (simp_all add: trimmed_def c_isspace_def)
    moreover have "length (dec 5) = 1" "length (dec 9000) = 4" by (simp_all add: dec)
    ultimately show ?thesis using dec_plain by (simp add: section_ok_def entry_ok_def)
  qed
  then have cf: "config_file [''ServerConfig.ini'' \<mapsto> config_text ?cfg] ''ServerConfig.ini'' ?cfg"
    by (simp add: config_file_def)
  have keys: "MakeKey ''Server'' ''port'' = MakeKey ''server'' ''Port''"
    "MakeKey ''Server'' ''SessionPoolSize'' = MakeKey ''server'' ''SessionPoolSize''"
    "MakeKey ''server'' ''Port'' \<noteq> MakeKey ''server'' ''SessionPoolSize''"
    "MakeKey ''server'' ''Port'' \<noteq> MakeKey ''server'' ''PacketPoolSize''"
    "MakeKey ''server'' ''SessionPoolSize'' \<noteq> MakeKey ''server'' ''PacketPoolSize''"
    by code_simp+
  have vals: "config_values ?cfg = [MakeKey ''server'' ''Port'' \<mapsto> dec 9000, MakeKey ''server'' ''SessionPoolSize'' \<mapsto> dec 5]"
    using keys(3) by (simp add: config_values_def config_entries_def add_entry_def joined_def keys(1,2))
  have set: "setting ?cfg ''server'' ''Port'' 7777 9000" "setting ?cfg ''server'' ''PacketPoolSize'' 10000 10000"
    "setting ?cfg ''server'' ''SessionPoolSize'' 10000 5"
    unfolding setting_def vals using keys(3-5) by simp_all
  have none: "config_file Map.empty ''ServerConfig.ini'' []" "setting [] ''server'' ''Port'' 7777 7777"
    "setting [] ''server'' ''PacketPoolSize'' 10000 10000" "setting [] ''server'' ''SessionPoolSize'' 10000 10000"
    by (simp_all add: config_file_def setting_def config_values_def config_entries_def)
  obtain g1 g2 where
    "GameServer_start Map.empty ''ServerConfig.ini'' 8 (\<lambda>_. 0) True no_listen_errors = Some (Inr (True, g1))
      \<and> chat_inv g1 \<and> length (g_pool g1) = 10000"
    "GameServer_start [''ServerConfig.ini'' \<mapsto> config_text ?cfg] ''ServerConfig.ini'' 8 (\<lambda>_. 0) True no_listen_errors
      = Some (Inr (True, g2)) \<and> chat_inv g2 \<and> length (g_pool g2) = 5"
    using server_starts_from_file [OF cf set, of 8 "\<lambda>_. 0"] server_starts_from_file [OF none, of 8 "\<lambda>_. 0"] by blast
  then show ?thesis by blast
qed

end
